(* ===== verification/Go_Time.thy ===== *)
theory Go_Time
  imports Mesh_Prelude
begin

text \<open>
  The part of Go's \<open>time\<close> package the program uses. A \<open>time.Time\<close> is the number of
  nanoseconds since the Unix epoch, an unbounded integer; a \<open>time.Duration\<close> is an
  \<open>int64\<close> number of nanoseconds. \<open>Time.Sub\<close> saturates and \<open>UnixNano\<close> wraps, as
  the library's do.
\<close>

type_synonym time = int
type_synonym duration = int

definition nanosecond :: duration where "nanosecond = 1"
definition millisecond :: duration where "millisecond = 1000000"
definition second :: duration where "second = 1000000000"

text \<open>The zero \<open>time.Time\<close>: the first of January of year 1.\<close>

definition zero_time :: time where
  "zero_time = - 62135596800 * 1000000000"

definition time_add :: "time \<Rightarrow> duration \<Rightarrow> time" where
  "time_add t d = t + d"

definition time_sub :: "time \<Rightarrow> time \<Rightarrow> duration" where
  "time_sub t u = max min_int64 (min max_int64 (t - u))"

definition time_before :: "time \<Rightarrow> time \<Rightarrow> bool" where
  "time_before t u \<longleftrightarrow> t < u"

text \<open>\<open>Time.Unix\<close>: whole seconds, rounded towards minus infinity.\<close>

definition unix :: "time \<Rightarrow> int" where
  "unix t = t div second"

text \<open>\<open>uint64(t.UnixNano())\<close> and \<open>time.Unix(0, int64(w))\<close>.\<close>

definition unix_nano :: "time \<Rightarrow> 64 word" where
  "unix_nano t = word_of_int t"

definition time_of_nano :: "64 word \<Rightarrow> time" where
  "time_of_nano w = sint w"

text \<open>\<open>time.Duration(n) * time.Second\<close> is an \<open>int64\<close> product.\<close>

definition seconds :: "int \<Rightarrow> duration" where
  "seconds n = wrap64 (n * second)"

lemma time_of_unix_nano: "is_int64 t \<Longrightarrow> time_of_nano (unix_nano t) = t"
  by (simp add: is_int64_def time_of_nano_def unix_nano_def min_int64_def max_int64_def
      signed_take_bit_int_eq_self sint_sbintrunc')

lemma unix_nano_of_time [simp]: "unix_nano (time_of_nano w) = w"
  by (simp add: time_of_nano_def unix_nano_def)

lemma is_int64_time_of_nano: "is_int64 (time_of_nano w)"
  using sint_ge [of w] sint_lt [of w]
  by (simp add: is_int64_def time_of_nano_def min_int64_def max_int64_def)

text \<open>Saturation does not matter for a comparison with a bound inside the range.\<close>

lemma time_sub_gt_iff: "min_int64 \<le> d \<Longrightarrow> d < max_int64 \<Longrightarrow> time_sub t u > d \<longleftrightarrow> t - u > d"
  by (auto simp: time_sub_def)

lemma time_sub_lt_iff: "min_int64 < d \<Longrightarrow> d \<le> max_int64 \<Longrightarrow> time_sub t u < d \<longleftrightarrow> t - u < d"
  by (auto simp: time_sub_def)

lemma seconds_exact: "is_int64 (n * second) \<Longrightarrow> seconds n = n * second"
  by (simp add: seconds_def wrap64_id)

end
