(* ===== verification/Go_Binary.thy ===== *)
theory Go_Binary
  imports Mesh_Prelude
begin

text \<open>
  \<open>binary.BigEndian.PutUint64\<close> and \<open>Uint64\<close> of Go's \<open>encoding/binary\<close>, and
  their round trips in both directions.
\<close>

unbundle bit_operations_syntax

definition be_put64 :: "64 word \<Rightarrow> byte list" where
  "be_put64 w = map (\<lambda>i. ucast (drop_bit (8 * i) w)) [7, 6, 5, 4, 3, 2, 1, 0]"

definition be_uint64 :: "byte list \<Rightarrow> 64 word" where
  "be_uint64 bs = foldl (\<lambda>acc b. push_bit 8 acc OR ucast b) 0 bs"

lemma length_be_put64 [simp]: "length (be_put64 w) = 8"
  by (simp add: be_put64_def)

lemma be_step:
  fixes w :: "64 word"
  shows "push_bit 8 (drop_bit (i + 8) w) OR ucast (ucast (drop_bit i w) :: byte) = drop_bit i w"
  by (rule bit_word_eqI) (auto simp: bit_simps)

lemma be_first:
  fixes w :: "64 word"
  shows "ucast (ucast (drop_bit 56 w) :: byte) = drop_bit 56 w"
  by (rule bit_word_eqI) (auto simp: bit_simps dest: bit_imp_le_length)

lemma be_uint64_put64 [simp]: "be_uint64 (be_put64 w) = w"
  using be_step [of 48 w] be_step [of 40 w] be_step [of 32 w] be_step [of 24 w]
    be_step [of 16 w] be_step [of 8 w] be_step [of 0 w]
  by (simp add: be_uint64_def be_put64_def be_first)

text \<open>
  Conversely every list of eight bytes is the encoding of a word: the encoder is injective and
  there are as many words as lists.
\<close>

lemma range_be_put64: "range be_put64 = {bs. length bs = 8}"
proof (rule card_subset_eq)
  have eq: "{bs. length bs = 8} = {bs :: byte list. set bs \<subseteq> UNIV \<and> length bs = 8}"
    by simp
  show "finite {bs :: byte list. length bs = 8}"
    unfolding eq by (rule finite_lists_length_eq) simp
  show "range be_put64 \<subseteq> {bs. length bs = 8}" by auto
  have "inj be_put64" by (rule inj_on_inverseI [where g = be_uint64]) simp
  then have "card (range be_put64) = 2 ^ 64"
    by (simp add: card_image card_word)
  moreover have "card {bs :: byte list. length bs = 8} = 2 ^ 64"
    unfolding eq by (subst card_lists_length_eq) (simp_all add: card_word)
  ultimately show "card (range be_put64) = card {bs :: byte list. length bs = 8}"
    by simp
qed

lemma be_put64_uint64:
  assumes "length bs = 8"
  shows "be_put64 (be_uint64 bs) = bs"
proof -
  from assms have "bs \<in> range be_put64" by (simp add: range_be_put64)
  then obtain w where "bs = be_put64 w" by blast
  then show ?thesis by simp
qed

end
