(* ===== verification/Go_Base64.thy ===== *)
theory Go_Base64
  imports Mesh_Prelude
begin

text \<open>
  Go's \<open>encoding/base64\<close> in the two variants the program uses: \<open>StdEncoding\<close>
  (padded, for the secrets of the configuration file) and \<open>RawURLEncoding\<close> (unpadded,
  for session tokens). As the library does, decoding skips carriage returns and newlines
  anywhere and, being non-strict, ignores the unused low bits of the last character.
\<close>

definition std_alphabet :: string where
  "std_alphabet = ''ABCDEFGHIJKLMNOPQRSTUVWXYZabcdefghijklmnopqrstuvwxyz0123456789+/''"

definition url_alphabet :: string where
  "url_alphabet = ''ABCDEFGHIJKLMNOPQRSTUVWXYZabcdefghijklmnopqrstuvwxyz0123456789-_''"

text \<open>The decode map is the position of a character in the alphabet (\<open>index_of\<close>).\<close>

definition pad_char :: char where "pad_char = CHR ''=''"

definition is_newline :: "char \<Rightarrow> bool" where
  "is_newline c \<longleftrightarrow> c = CHR 0x0A \<or> c = CHR 0x0D"

section \<open>Quanta\<close>

text \<open>Three bytes are four 6-bit digits; the digits of one or two bytes are padded with zero bits.\<close>

definition byte_of_nat :: "nat \<Rightarrow> byte" where "byte_of_nat n = word_of_nat n"

definition digits3 :: "byte \<Rightarrow> byte \<Rightarrow> byte \<Rightarrow> nat list" where
  "digits3 a b c =
     [unat a div 4, unat a mod 4 * 16 + unat b div 16,
      unat b mod 16 * 4 + unat c div 64, unat c mod 64]"

definition bytes3 :: "nat \<Rightarrow> nat \<Rightarrow> nat \<Rightarrow> nat \<Rightarrow> byte list" where
  "bytes3 p q r s =
     [byte_of_nat (p * 4 + q div 16), byte_of_nat (q mod 16 * 16 + r div 4),
      byte_of_nat (r mod 4 * 64 + s)]"

section \<open>Encoding\<close>

fun encode_with :: "string \<Rightarrow> bool \<Rightarrow> byte list \<Rightarrow> string" where
  "encode_with al pad [] = []"
| "encode_with al pad [a] =
     map (\<lambda>d. al ! d) (take 2 (digits3 a 0 0)) @ (if pad then [pad_char, pad_char] else [])"
| "encode_with al pad [a, b] =
     map (\<lambda>d. al ! d) (take 3 (digits3 a b 0)) @ (if pad then [pad_char] else [])"
| "encode_with al pad (a # b # c # bs) =
     map (\<lambda>d. al ! d) (digits3 a b c) @ encode_with al pad bs"

section \<open>Decoding\<close>

text \<open>
  A quantum is read from up to four characters; \<open>None\<close> is the library's
  \<open>CorruptInputError\<close>.
\<close>

fun decode_with :: "string \<Rightarrow> bool \<Rightarrow> string \<Rightarrow> byte list option" where
  "decode_with al pad [] = Some []"
| "decode_with al pad [_] = None"
| "decode_with al pad [c0, c1] =
     (if pad then None
      else (case (index_of c0 al, index_of c1 al) of
              (Some p, Some q) \<Rightarrow> Some (take 1 (bytes3 p q 0 0))
            | _ \<Rightarrow> None))"
| "decode_with al pad [c0, c1, c2] =
     (if pad then None
      else (case (index_of c0 al, index_of c1 al, index_of c2 al) of
              (Some p, Some q, Some r) \<Rightarrow> Some (take 2 (bytes3 p q r 0))
            | _ \<Rightarrow> None))"
| "decode_with al pad (c0 # c1 # c2 # c3 # cs) =
     (case (index_of c0 al, index_of c1 al) of
        (Some p, Some q) \<Rightarrow>
          if pad \<and> c2 = pad_char then
            (if c3 = pad_char \<and> cs = [] then Some (take 1 (bytes3 p q 0 0)) else None)
          else (case index_of c2 al of
             None \<Rightarrow> None
           | Some r \<Rightarrow>
               if pad \<and> c3 = pad_char then
                 (if cs = [] then Some (take 2 (bytes3 p q r 0)) else None)
               else (case index_of c3 al of
                  None \<Rightarrow> None
                | Some s \<Rightarrow> map_option ((@) (bytes3 p q r s)) (decode_with al pad cs)))
      | _ \<Rightarrow> None)"

definition std_encode :: "byte list \<Rightarrow> string" where
  "std_encode bs = encode_with std_alphabet True bs"

definition std_decode :: "string \<Rightarrow> byte list option" where
  "std_decode s = decode_with std_alphabet True (filter (\<lambda>c. \<not> is_newline c) s)"

definition raw_url_encode :: "byte list \<Rightarrow> string" where
  "raw_url_encode bs = encode_with url_alphabet False bs"

definition raw_url_decode :: "string \<Rightarrow> byte list option" where
  "raw_url_decode s = decode_with url_alphabet False (filter (\<lambda>c. \<not> is_newline c) s)"

section \<open>Round trip\<close>

lemma byte_of_nat_unat [simp]: "byte_of_nat (unat b) = b"
  by (simp add: byte_of_nat_def)

lemma unat_byte_less: "unat (b :: byte) < 256"
  using unsigned_less [of b, where ?'a = nat] by simp

lemma digits3_less: "d \<in> set (digits3 a b c) \<Longrightarrow> d < 64"
  using unat_byte_less [of a] unat_byte_less [of b] unat_byte_less [of c]
  by (auto simp: digits3_def)

text \<open>Regrouping the bits: three bytes to four digits and back.\<close>

lemma regroup1:
  assumes "b < 256"
  shows "a div 4 * 4 + (a mod 4 * 16 + b div 16) div 16 = (a::nat)"
proof -
  from assms have "b div 16 div 16 = 0" by simp
  then show ?thesis by simp
qed

lemma regroup2:
  assumes "b < 256" "c < 256"
  shows "(a mod 4 * 16 + b div 16) mod 16 * 16 + (b mod 16 * 4 + c div 64) div 4 = (b::nat)"
proof -
  from assms have "b div 16 mod 16 = b div 16" and "c div 64 div 4 = 0" by simp_all
  then show ?thesis by simp
qed

lemma regroup3:
  assumes "c < 256"
  shows "(b mod 16 * 4 + c div 64) mod 4 * 64 + c mod 64 = (c::nat)"
proof -
  from assms have "c div 64 mod 4 = c div 64" by simp
  then show ?thesis by simp
qed

lemma bytes3_digits3:
  "bytes3 (unat a div 4) (unat a mod 4 * 16 + unat b div 16)
     (unat b mod 16 * 4 + unat c div 64) (unat c mod 64) = [a, b, c]"
  unfolding bytes3_def
  by (simp only: regroup1 regroup2 regroup3 unat_byte_less byte_of_nat_unat)

text \<open>An alphabet: 64 different characters, none of them the padding.\<close>

definition is_alphabet :: "string \<Rightarrow> bool" where
  "is_alphabet al \<longleftrightarrow> distinct al \<and> length al = 64 \<and> pad_char \<notin> set al"

lemma alphabet_digit:
  assumes "is_alphabet al" "d < 64"
  shows "index_of (al ! d) al = Some d" and "al ! d \<noteq> pad_char"
  using assms by (auto simp: is_alphabet_def index_of_nth) (metis nth_mem)

lemma digit_bounds:
  fixes x y z :: byte
  shows "unat x div 4 < 64" "unat x mod 4 * 16 + unat y div 16 < 64"
    "unat y mod 16 * 4 + unat z div 64 < 64" "unat z mod 64 < 64"
  using unat_byte_less [of x] unat_byte_less [of y] unat_byte_less [of z] by auto

lemmas digit_bounds0 =
  digit_bounds(2) [where y = 0, simplified] digit_bounds(3) [where z = 0, simplified]

lemmas bytes3_digits3_0 =
  bytes3_digits3 [where b = 0 and c = 0, simplified] bytes3_digits3 [where c = 0, simplified]

lemma decode_encode_with:
  "is_alphabet al \<Longrightarrow> decode_with al pad (encode_with al pad bs) = Some bs"
proof (induction al pad bs rule: encode_with.induct)
  case (2 al pad a)
  then show ?case
    by (auto simp: digits3_def alphabet_digit digit_bounds digit_bounds0 bytes3_digits3_0 pad_char_def)
next
  case (3 al pad a b)
  then show ?case
    by (auto simp: digits3_def alphabet_digit digit_bounds digit_bounds0 bytes3_digits3_0)
next
  case (4 al pad a b c bs)
  then show ?case
    by (auto simp: digits3_def alphabet_digit digit_bounds bytes3_digits3)
qed simp

text \<open>Encodings are text over the alphabet and the padding: there is nothing to skip.\<close>

lemma set_encode_with:
  "is_alphabet al \<Longrightarrow> set (encode_with al pad bs) \<subseteq> insert pad_char (set al)"
proof (induction al pad bs rule: encode_with.induct)
  case (4 al pad a b c bs)
  then have "al ! d \<in> set al" if "d \<in> set (digits3 a b c)" for d
    using that by (simp add: is_alphabet_def digits3_less)
  with 4 show ?case by auto
next
  case (2 al pad a)
  then have "al ! d \<in> set al" if "d \<in> set (digits3 a 0 0)" for d
    using that by (simp add: is_alphabet_def digits3_less)
  then show ?case by (auto dest: in_set_takeD)
next
  case (3 al pad a b)
  then have "al ! d \<in> set al" if "d \<in> set (digits3 a b 0)" for d
    using that by (simp add: is_alphabet_def digits3_less)
  then show ?case by (auto dest: in_set_takeD)
qed simp

lemma std_alphabet: "is_alphabet std_alphabet" "\<forall>c \<in> insert pad_char (set std_alphabet). \<not> is_newline c"
  by code_simp+

lemma url_alphabet: "is_alphabet url_alphabet" "\<forall>c \<in> insert pad_char (set url_alphabet). \<not> is_newline c"
  by code_simp+

lemma filter_encode_with:
  assumes "is_alphabet al" "\<forall>c \<in> insert pad_char (set al). \<not> is_newline c"
  shows "filter (\<lambda>c. \<not> is_newline c) (encode_with al pad bs) = encode_with al pad bs"
  using set_encode_with [OF assms(1), of pad bs] assms(2) by (auto intro!: filter_True)

theorem std_decode_encode [simp]: "std_decode (std_encode bs) = Some bs"
  by (simp add: std_decode_def std_encode_def filter_encode_with std_alphabet decode_encode_with)

theorem raw_url_decode_encode [simp]: "raw_url_decode (raw_url_encode bs) = Some bs"
  by (simp add: raw_url_decode_def raw_url_encode_def filter_encode_with url_alphabet
      decode_encode_with)

end
