(* ===== verification/Go_Hmac.thy ===== *)
theory Go_Hmac
  imports Go_Binary
begin

unbundle bit_operations_syntax

text \<open>
  Go's \<open>hmac.New(sha256.New, key)\<close> followed by \<open>Write\<close> and \<open>Sum\<close>: SHA-256
  (FIPS 180-4) and HMAC (FIPS 198-1) as executable functions on bytes, and the interface the
  program relies on, a keyed tag of a fixed length appended to a body.
\<close>

section \<open>SHA-256\<close>

type_synonym u32 = "32 word"

definition round_constants :: "u32 list" where
  "round_constants =
    [1116352408, 1899447441, 3049323471, 3921009573, 961987163, 1508970993, 2453635748, 2870763221,
     3624381080, 310598401, 607225278, 1426881987, 1925078388, 2162078206, 2614888103, 3248222580,
     3835390401, 4022224774, 264347078, 604807628, 770255983, 1249150122, 1555081692, 1996064986,
     2554220882, 2821834349, 2952996808, 3210313671, 3336571891, 3584528711, 113926993, 338241895,
     666307205, 773529912, 1294757372, 1396182291, 1695183700, 1986661051, 2177026350, 2456956037,
     2730485921, 2820302411, 3259730800, 3345764771, 3516065817, 3600352804, 4094571909, 275423344,
     430227734, 506948616, 659060556, 883997877, 958139571, 1322822218, 1537002063, 1747873779,
     1955562222, 2024104815, 2227730452, 2361852424, 2428436474, 2756734187, 3204031479, 3329325298]"

datatype sha_state = Sha u32 u32 u32 u32 u32 u32 u32 u32

definition sha_init :: sha_state where
  "sha_init = Sha 1779033703 3144134277 1013904242 2773480762
                  1359893119 2600822924 528734635 1541459225"

definition rotr :: "nat \<Rightarrow> u32 \<Rightarrow> u32" where
  "rotr n x = drop_bit n x OR push_bit (32 - n) x"

definition small_sigma0 :: "u32 \<Rightarrow> u32" where
  "small_sigma0 x = rotr 7 x XOR rotr 18 x XOR drop_bit 3 x"

definition small_sigma1 :: "u32 \<Rightarrow> u32" where
  "small_sigma1 x = rotr 17 x XOR rotr 19 x XOR drop_bit 10 x"

definition big_sigma0 :: "u32 \<Rightarrow> u32" where
  "big_sigma0 x = rotr 2 x XOR rotr 13 x XOR rotr 22 x"

definition big_sigma1 :: "u32 \<Rightarrow> u32" where
  "big_sigma1 x = rotr 6 x XOR rotr 11 x XOR rotr 25 x"

definition choice :: "u32 \<Rightarrow> u32 \<Rightarrow> u32 \<Rightarrow> u32" where
  "choice x y z = (x AND y) XOR ((NOT x) AND z)"

definition majority :: "u32 \<Rightarrow> u32 \<Rightarrow> u32 \<Rightarrow> u32" where
  "majority x y z = (x AND y) XOR (x AND z) XOR (y AND z)"

text \<open>The message schedule of a block: its 16 words and 48 more.\<close>

fun be_word32 :: "byte list \<Rightarrow> u32 list" where
  "be_word32 (a # b # c # d # bs) =
     (push_bit 24 (ucast a) OR push_bit 16 (ucast b) OR push_bit 8 (ucast c) OR ucast d)
       # be_word32 bs"
| "be_word32 _ = []"

primrec extend_schedule :: "nat \<Rightarrow> u32 list \<Rightarrow> u32 list" where
  "extend_schedule 0 ws = ws"
| "extend_schedule (Suc n) ws =
     (let t = length ws;
          w = small_sigma1 (ws ! (t - 2)) + ws ! (t - 7) + small_sigma0 (ws ! (t - 15)) + ws ! (t - 16)
      in extend_schedule n (ws @ [w]))"

fun sha_rounds :: "(u32 \<times> u32) list \<Rightarrow> sha_state \<Rightarrow> sha_state" where
  "sha_rounds [] s = s"
| "sha_rounds ((k, w) # kws) (Sha a b c d e f g h) =
     (let t1 = h + big_sigma1 e + choice e f g + k + w;
          t2 = big_sigma0 a + majority a b c
      in sha_rounds kws (Sha (t1 + t2) a b c (d + t1) e f g))"

fun sha_add :: "sha_state \<Rightarrow> sha_state \<Rightarrow> sha_state" where
  "sha_add (Sha a b c d e f g h) (Sha a' b' c' d' e' f' g' h') =
     Sha (a + a') (b + b') (c + c') (d + d') (e + e') (f + f') (g + g') (h + h')"

definition sha_block :: "sha_state \<Rightarrow> byte list \<Rightarrow> sha_state" where
  "sha_block s block =
     sha_add s (sha_rounds (zip round_constants (extend_schedule 48 (be_word32 block))) s)"

function blocks :: "byte list \<Rightarrow> byte list list" where
  "blocks bs = (if bs = [] then [] else take 64 bs # blocks (drop 64 bs))"
  by pat_completeness auto
termination
  by (relation "measure length") auto

declare blocks.simps [simp del]

definition sha_pad :: "byte list \<Rightarrow> byte list" where
  "sha_pad msg =
     msg @ [0x80] @ replicate ((119 - length msg mod 64) mod 64) 0
         @ be_put64 (word_of_nat (8 * length msg))"

definition be_bytes32 :: "u32 \<Rightarrow> byte list" where
  "be_bytes32 w = map (\<lambda>i. ucast (drop_bit (8 * i) w)) [3, 2, 1, 0]"

fun sha_digest :: "sha_state \<Rightarrow> byte list" where
  "sha_digest (Sha a b c d e f g h) = concat (map be_bytes32 [a, b, c, d, e, f, g, h])"

definition sha256 :: "byte list \<Rightarrow> byte list" where
  "sha256 msg = sha_digest (foldl sha_block sha_init (blocks (sha_pad msg)))"

lemma length_sha256 [simp]: "length (sha256 msg) = 32"
  by (cases "foldl sha_block sha_init (blocks (sha_pad msg))")
    (simp add: sha256_def be_bytes32_def)

section \<open>HMAC\<close>

definition hmac_key :: "byte list \<Rightarrow> byte list" where
  "hmac_key key =
     (let k = (if length key > 64 then sha256 key else key)
      in k @ replicate (64 - length k) 0)"

definition hmac_sha256 :: "byte list \<Rightarrow> byte list \<Rightarrow> byte list" where
  "hmac_sha256 key msg =
     (let k = hmac_key key
      in sha256 (map (\<lambda>b. b XOR 0x5c) k @ sha256 (map (\<lambda>b. b XOR 0x36) k @ msg)))"

lemma length_hmac_sha256 [simp]: "length (hmac_sha256 key msg) = 32"
  by (simp add: hmac_sha256_def Let_def)

section \<open>Messages sealed with a tag\<close>

text \<open>
  What the wire formats and the session tokens rely on: a keyed function into byte strings of a
  fixed length. Appending the tag to a body can be undone, and a message whose last bytes are the
  tag of the rest is the sealing of that rest.
\<close>

locale keyed_tag =
  fixes tag :: "'k \<Rightarrow> byte list \<Rightarrow> byte list"
    and width :: nat
  assumes length_tag: "length (tag k body) = width"
begin

lemma length_sealed: "length (body @ tag k body) = length body + width"
  by (simp add: length_tag)

lemma sealed_body: "take (length (body @ tag k body) - width) (body @ tag k body) = body"
  by (simp add: length_tag)

lemma sealed_tag: "drop (length (body @ tag k body) - width) (body @ tag k body) = tag k body"
  by (simp add: length_tag)

lemma sealed_iff:
  assumes "width \<le> length buf"
  shows "tag k (take (length buf - width) buf) = drop (length buf - width) buf \<longleftrightarrow>
    (\<exists>body. buf = body @ tag k body)"
  by (metis append_take_drop_id sealed_body sealed_tag)

lemma sealed_inject: "body @ tag k body = body' @ tag k' body' \<longleftrightarrow> body = body' \<and> tag k body = tag k' body'"
  by (metis append_eq_append_conv length_tag)

end

interpretation hmac: keyed_tag hmac_sha256 32
  by unfold_locales simp

end
