(* ===== verification/Go_Text.thy ===== *)
theory Go_Text
  imports Mesh_Prelude
begin

text \<open>
  The parts of Go's \<open>strconv\<close> and \<open>strings\<close> the program uses, on strings:
  \<open>Itoa\<close> (also \<open>%d\<close>), \<open>ParseInt(s, 10, 64)\<close>, \<open>SplitN(s, ":", 2)\<close>,
  \<open>Contains\<close>, \<open>ContainsAny\<close> and \<open>HasSuffix\<close>.
\<close>

section \<open>Decimal numbers\<close>

definition digit_char :: "nat \<Rightarrow> char" where
  "digit_char d = char_of (48 + d)"

definition digit_value :: "char \<Rightarrow> nat option" where
  "digit_value c =
     (let n = of_char c :: nat in if 48 \<le> n \<and> n \<le> 57 then Some (n - 48) else None)"

lemma digit_value_char [simp]: "d < 10 \<Longrightarrow> digit_value (digit_char d) = Some d"
  by (simp add: digit_value_def digit_char_def Let_def)

lemma digit_char_neq:
  assumes "d < 10" "digit_value c = None"
  shows "digit_char d \<noteq> c"
  using assms by force

fun utoa :: "nat \<Rightarrow> string" where
  "utoa n = (if n < 10 then [digit_char n] else utoa (n div 10) @ [digit_char (n mod 10)])"

declare utoa.simps [simp del]

definition itoa :: "int \<Rightarrow> string" where
  "itoa i = (if i < 0 then CHR ''-'' # utoa (nat (- i)) else utoa (nat i))"

lemma utoa_induct [case_names small large]:
  fixes n :: nat
  assumes "\<And>n. n < 10 \<Longrightarrow> P n" and "\<And>n. \<not> n < 10 \<Longrightarrow> P (n div 10) \<Longrightarrow> P n"
  shows "P n"
  using assms by (induction n rule: utoa.induct) blast

lemma utoa_digits: "\<forall>c \<in> set (utoa n). digit_value c \<noteq> None"
proof (induction n rule: utoa_induct)
  case (small n)
  then show ?case by (simp add: utoa.simps)
next
  case (large n)
  then show ?case by (subst utoa.simps) simp
qed

lemma utoa_not_Nil [simp]: "utoa n \<noteq> []"
  by (subst utoa.simps) simp

lemma itoa_not_Nil [simp]: "itoa i \<noteq> []"
  by (simp add: itoa_def)

lemma itoa_chars: "c \<in> set (itoa i) \<Longrightarrow> c = CHR ''-'' \<or> digit_value c \<noteq> None"
  using utoa_digits by (auto simp: itoa_def split: if_splits)

lemma itoa_no_punctuation: "set (itoa n) \<inter> {CHR '':'', CHR ''['', CHR '']''} = {}"
  using itoa_chars [of "CHR '':''" n] itoa_chars [of "CHR ''[''" n] itoa_chars [of "CHR '']''" n]
  by (auto simp: digit_value_def)

section \<open>ParseInt\<close>

datatype parse_error = ErrSyntax | ErrRange

text \<open>
  The loop of \<open>strconv.ParseUint\<close> for base 10 and 64 bits: a character that is no digit is a
  syntax error, a value beyond the range a range error, whichever comes first.
\<close>

fun parse_uint_loop :: "nat \<Rightarrow> string \<Rightarrow> parse_error + nat" where
  "parse_uint_loop n [] = Inr n"
| "parse_uint_loop n (c # cs) =
     (case digit_value c of
        None \<Rightarrow> Inl ErrSyntax
      | Some d \<Rightarrow>
          if n * 10 + d \<ge> 2 ^ 64 then Inl ErrRange
          else parse_uint_loop (n * 10 + d) cs)"

definition parse_uint :: "string \<Rightarrow> parse_error + nat" where
  "parse_uint s = (if s = [] then Inl ErrSyntax else parse_uint_loop 0 s)"

definition parse_int :: "string \<Rightarrow> parse_error + int" where
  "parse_int s =
     (if s = [] then Inl ErrSyntax
      else let neg = (hd s = CHR ''-'');
               s0 = (if hd s = CHR ''+'' \<or> hd s = CHR ''-'' then tl s else s)
           in and_then (parse_uint s0) (\<lambda>un.
                if \<not> neg \<and> un \<ge> 2 ^ 63 then Inl ErrRange
                else if neg \<and> un > 2 ^ 63 then Inl ErrRange
                else Inr (if neg then - int un else int un)))"

lemma parse_uint_loop_append:
  "parse_uint_loop n (xs @ ys) = and_then (parse_uint_loop n xs) (\<lambda>m. parse_uint_loop m ys)"
  by (induction xs arbitrary: n) (auto split: option.splits)

lemma parse_uint_loop_utoa: "n < 2 ^ 64 \<Longrightarrow> parse_uint_loop 0 (utoa n) = Inr n"
proof (induction n rule: utoa_induct)
  case (small n)
  then show ?case by (simp add: utoa.simps)
next
  case (large n)
  from large.prems have "n div 10 < 2 ^ 64" by simp
  with large.IH have "parse_uint_loop 0 (utoa (n div 10)) = Inr (n div 10)" .
  with large.hyps large.prems show ?case
    by (subst utoa.simps) (simp add: parse_uint_loop_append)
qed

lemma parse_uint_utoa: "n < 2 ^ 64 \<Longrightarrow> parse_uint (utoa n) = Inr n"
  by (simp add: parse_uint_def parse_uint_loop_utoa)

lemma hd_utoa: "digit_value (hd (utoa n)) \<noteq> None"
  using utoa_digits [of n] by (meson hd_in_set utoa_not_Nil)

lemma hd_utoa_sign [simp]: "hd (utoa n) \<noteq> CHR ''-''" "hd (utoa n) \<noteq> CHR ''+''"
  using hd_utoa [of n] by (auto simp: digit_value_def)

text \<open>Printing and parsing an \<open>int64\<close> is the identity.\<close>

theorem parse_int_itoa:
  assumes "is_int64 i"
  shows "parse_int (itoa i) = Inr i"
proof (cases "i < 0")
  case True
  with assms have "nat (- i) \<le> 2 ^ 63"
    by (simp add: is_int64_def min_int64_def max_int64_def nat_le_iff)
  with True show ?thesis
    by (simp add: itoa_def parse_int_def parse_uint_utoa)
next
  case False
  with assms have "nat i < 2 ^ 63"
    by (simp add: is_int64_def min_int64_def max_int64_def nat_less_iff)
  with False show ?thesis
    by (simp add: itoa_def parse_int_def parse_uint_utoa)
qed

lemma parse_int_is_int64: "parse_int s = Inr i \<Longrightarrow> is_int64 i"
  by (auto simp: parse_int_def ok_iff Let_def is_int64_def min_int64_def max_int64_def
      split: if_splits)

section \<open>Substrings\<close>

text \<open>\<open>SplitN(s, sep, 2)\<close> for a one-character separator: one part, or two around its first occurrence.\<close>

fun split2 :: "char \<Rightarrow> string \<Rightarrow> string list" where
  "split2 sep [] = [[]]"
| "split2 sep (c # cs) =
     (if c = sep then [[], cs]
      else (case split2 sep cs of
              p # ps \<Rightarrow> (c # p) # ps
            | [] \<Rightarrow> [[c]]))"

lemma split2_append: "sep \<notin> set p \<Longrightarrow> split2 sep (p @ sep # q) = [p, q]"
  by (induction p) auto

lemma split2_none: "sep \<notin> set s \<Longrightarrow> split2 sep s = [s]"
  by (induction s) auto

lemma split2_pairD: "split2 sep s = [p, q] \<Longrightarrow> sep \<notin> set p \<and> s = p @ sep # q"
proof (induction s arbitrary: p)
  case Nil
  then show ?case by simp
next
  case (Cons c s)
  show ?case
  proof (cases "c = sep")
    case True
    with Cons.prems show ?thesis by auto
  next
    case False
    with Cons.prems obtain p' where "p = c # p'" and "split2 sep s = [p', q]"
      by (auto split: list.splits)
    with False Cons.IH [of p'] show ?thesis by simp
  qed
qed

lemma split2_pair_iff: "split2 sep s = [p, q] \<longleftrightarrow> sep \<notin> set p \<and> s = p @ sep # q"
  using split2_append split2_pairD by blast

definition contains :: "string \<Rightarrow> string \<Rightarrow> bool" where
  "contains s sub \<longleftrightarrow> (\<exists>i \<in> set [0..<Suc (length s)]. take (length sub) (drop i s) = sub)"

definition contains_any :: "string \<Rightarrow> string \<Rightarrow> bool" where
  "contains_any s chars \<longleftrightarrow> list_ex (\<lambda>c. c \<in> set chars) s"

definition has_suffix :: "string \<Rightarrow> string \<Rightarrow> bool" where
  "has_suffix s suf \<longleftrightarrow> length suf \<le> length s \<and> drop (length s - length suf) s = suf"

lemma contains_any_iff: "contains_any s chars \<longleftrightarrow> set s \<inter> set chars \<noteq> {}"
  by (auto simp: contains_any_def list_ex_iff)

lemma contains_iff: "contains s sub \<longleftrightarrow> (\<exists>p q. s = p @ sub @ q)"
proof
  assume "contains s sub"
  then obtain i where "take (length sub) (drop i s) = sub"
    by (auto simp: contains_def)
  then have "s = take i s @ sub @ drop (length sub) (drop i s)"
    by (metis append_take_drop_id)
  then show "\<exists>p q. s = p @ sub @ q" by blast
next
  assume "\<exists>p q. s = p @ sub @ q"
  then obtain p q where "s = p @ sub @ q" by blast
  then show "contains s sub"
    by (auto simp: contains_def intro!: bexI [of _ "length p"])
qed

lemma has_suffix_iff: "has_suffix s suf \<longleftrightarrow> (\<exists>p. s = p @ suf)"
  by (auto simp: has_suffix_def) (metis append_take_drop_id)

end
