(* ===== verification/Go_Net.thy ===== *)
theory Go_Net
  imports Mesh_Prelude
begin

text \<open>
  \<open>net.SplitHostPort\<close> and \<open>net.JoinHostPort\<close> of Go's standard library.
\<close>

datatype addr_error =
    MissingPort
  | TooManyColons
  | MissingBracket
  | UnexpectedBracket

definition split_host_port :: "string \<Rightarrow> addr_error + (string \<times> string)" where
  "split_host_port hp =
     (case last_index_of CHR '':'' hp of
        None \<Rightarrow> Inl MissingPort
      | Some i \<Rightarrow>
          and_then
            (if hd hp = CHR ''['' then
               (case index_of CHR '']'' hp of
                  None \<Rightarrow> Inl MissingBracket
                | Some e \<Rightarrow>
                    if Suc e = length hp then Inl MissingPort
                    else if Suc e = i then Inr (take (e - 1) (tl hp), 1, Suc e)
                    else if hp ! Suc e = CHR '':'' then Inl TooManyColons
                    else Inl MissingPort)
             else if CHR '':'' \<in> set (take i hp) then Inl TooManyColons
             else Inr (take i hp, 0, 0))
            (\<lambda>(host, j, k).
               if CHR ''['' \<in> set (drop j hp) then Inl UnexpectedBracket
               else if CHR '']'' \<in> set (drop k hp) then Inl UnexpectedBracket
               else Inr (host, drop (Suc i) hp)))"

definition join_host_port :: "string \<Rightarrow> string \<Rightarrow> string" where
  "join_host_port host port =
     (if CHR '':'' \<in> set host then CHR ''['' # host @ '']:'' @ port
      else host @ CHR '':'' # port)"

text \<open>
  A host and a port without brackets, the port without a colon, survive joining and splitting;
  IPv6 hosts, which contain colons, are bracketed.
\<close>

lemma split_join_host_port:
  assumes "set host \<inter> {CHR ''['', CHR '']''} = {}"
    and "set port \<inter> {CHR '':'', CHR ''['', CHR '']''} = {}"
  shows "split_host_port (join_host_port host port) = Inr (host, port)"
proof (cases "CHR '':'' \<in> set host")
  case False
  have "last_index_of CHR '':'' (host @ CHR '':'' # port) = Some (length host)"
    using assms by (simp add: last_index_of_append)
  moreover have "hd (host @ CHR '':'' # port) \<noteq> CHR ''[''"
    using assms by (cases host) auto
  ultimately show ?thesis
    using False assms by (auto simp: split_host_port_def join_host_port_def)
next
  case True
  let ?hp = "CHR ''['' # host @ '']:'' @ port"
  have "last_index_of CHR '':'' ((CHR ''['' # host @ [CHR '']'']) @ CHR '':'' # port)
      = Some (length (CHR ''['' # host @ [CHR '']'']))"
    using assms by (intro last_index_of_append) auto
  then have "last_index_of CHR '':'' ?hp = Some (Suc (Suc (length host)))" by simp
  moreover have "index_of CHR '']'' ?hp = Some (Suc (length host))"
    using assms by (simp add: index_of_append)
  ultimately show ?thesis
    using True assms by (auto simp: split_host_port_def join_host_port_def)
qed

end
