(* ===== verification/Go_Http.thy ===== *)
theory Go_Http
  imports Mesh_Prelude Go_Time Go_Text
begin

text \<open>
  The part of Go's \<open>net/http\<close> the servers use: requests, the response writer, cookies,
  \<open>http.Error\<close>, \<open>http.NotFound\<close>, \<open>http.Redirect\<close> and \<open>ServeMux\<close> for
  patterns without method, host or wildcard. A handler is a function of the clock, the request and
  the response written so far.
\<close>

section \<open>Requests and responses\<close>

text \<open>
  \<open>Form\<close> is the outcome of \<open>ParseForm\<close> (\<open>None\<close>: it failed): the pairs of the
  body and the query in the order in which \<open>FormValue\<close> prefers them. \<open>TLSChains\<close> is
  \<open>r.TLS.VerifiedChains\<close> reduced to the common names (\<open>None\<close>: \<open>r.TLS\<close> is nil).
\<close>

record http_request =
  Method :: string
  URLPath :: string
  ReqHeader :: "string \<rightharpoonup> string"
  Cookies :: "(string \<times> string) list"
  Form :: "(string \<times> string) list option"
  TLSChains :: "string list list option"

datatype same_site = SameSiteUnset | SameSiteStrict

record cookie =
  CookieName :: string
  CookieValue :: string
  CookiePath :: string
  MaxAge :: int
  HttpOnly :: bool
  Secure :: bool
  SameSite :: same_site

text \<open>
  \<open>Slept\<close> is the time the handler slept before it answered; \<open>Aborted\<close> is the panic that
  ended the handler, which the server recovers by closing the connection.
\<close>

record response =
  Status :: "int option"
  Header :: "string \<rightharpoonup> string"
  SetCookies :: "cookie list"
  Body :: string
  Slept :: duration
  Aborted :: "panic option"

definition new_response :: response where
  "new_response = \<lparr>Status = None, Header = Map.empty, SetCookies = [], Body = [], Slept = 0, Aborted = None\<rparr>"

type_synonym handler = "time \<Rightarrow> http_request \<Rightarrow> response \<Rightarrow> response"

definition header_get :: "http_request \<Rightarrow> string \<Rightarrow> string" where
  "header_get r k = (case ReqHeader r k of None \<Rightarrow> [] | Some v \<Rightarrow> v)"

definition form_value :: "http_request \<Rightarrow> string \<Rightarrow> string" where
  "form_value r k = (case Form r of None \<Rightarrow> [] | Some kvs \<Rightarrow> (case map_of kvs k of None \<Rightarrow> [] | Some v \<Rightarrow> v))"

definition cookie_value :: "http_request \<Rightarrow> string \<Rightarrow> string option" where
  "cookie_value r name = map_of (Cookies r) name"

section \<open>Writing\<close>

text \<open>Headers count until the status is written; the first status wins; a body write implies 200.\<close>

definition set_header :: "string \<Rightarrow> string \<Rightarrow> response \<Rightarrow> response" where
  "set_header k v w = (if Status w = None then w\<lparr>Header := (Header w)(k \<mapsto> v)\<rparr> else w)"

definition set_cookie :: "cookie \<Rightarrow> response \<Rightarrow> response" where
  "set_cookie c w = (if Status w = None then w\<lparr>SetCookies := SetCookies w @ [c]\<rparr> else w)"

definition write_header :: "int \<Rightarrow> response \<Rightarrow> response" where
  "write_header code w = (if Status w = None then w\<lparr>Status := Some code\<rparr> else w)"

definition write_body :: "string \<Rightarrow> response \<Rightarrow> response" where
  "write_body b w = (let w1 = write_header 200 w in w1\<lparr>Body := Body w1 @ b\<rparr>)"

definition newline :: string where "newline = [CHR 0x0A]"

definition http_error :: "string \<Rightarrow> int \<Rightarrow> response \<Rightarrow> response" where
  "http_error msg code w =
     write_body (msg @ newline) (write_header code
       (set_header ''X-Content-Type-Options'' ''nosniff''
         (set_header ''Content-Type'' ''text/plain; charset=utf-8'' w)))"

definition http_not_found :: "response \<Rightarrow> response" where
  "http_not_found w = http_error ''404 page not found'' 404 w"

text \<open>\<open>http.Redirect\<close> with status 303 to a clean absolute path.\<close>

definition redirect_see_other :: "http_request \<Rightarrow> string \<Rightarrow> response \<Rightarrow> response" where
  "redirect_see_other r url w =
     (let hadCT = Header w ''Content-Type'' \<noteq> None;
          w1 = set_header ''Location'' url w;
          w2 = (if \<not> hadCT \<and> (Method r = ''GET'' \<or> Method r = ''HEAD'')
                then set_header ''Content-Type'' ''text/html; charset=utf-8'' w1 else w1);
          w3 = write_header 303 w2
      in if \<not> hadCT \<and> Method r = ''GET''
         then write_body (''<a href='' @ [CHR 0x22] @ url @ [CHR 0x22] @ ''>See Other</a>.'' @ newline @ newline) w3
         else w3)"

lemma Status_simps [simp]:
  "Status (set_header k v w) = Status w"
  "Status (set_cookie c w) = Status w"
  "Status (write_header code w) = Some (case Status w of None \<Rightarrow> code | Some s \<Rightarrow> s)"
  by (auto simp: set_header_def set_cookie_def write_header_def)

lemma Status_write_body [simp]:
  "Status (write_body b w) = Some (case Status w of None \<Rightarrow> 200 | Some s \<Rightarrow> s)"
  by (simp add: write_body_def Let_def)

lemma Status_replies [simp]:
  "Status (http_error msg code w) = Some (case Status w of None \<Rightarrow> code | Some s \<Rightarrow> s)"
  "Status (redirect_see_other r url w) = Some (case Status w of None \<Rightarrow> 303 | Some s \<Rightarrow> s)"
  by (simp_all add: http_error_def redirect_see_other_def Let_def)

lemma SetCookies_simps [simp]:
  "SetCookies (set_header k v w) = SetCookies w"
  "SetCookies (write_header code w) = SetCookies w"
  by (simp_all add: set_header_def write_header_def)

lemma SetCookies_write_body [simp]: "SetCookies (write_body b w) = SetCookies w"
  by (simp add: write_body_def Let_def)

lemma SetCookies_replies [simp]:
  "SetCookies (http_error msg code w) = SetCookies w"
  "SetCookies (redirect_see_other r url w) = SetCookies w"
  by (simp_all add: http_error_def redirect_see_other_def Let_def)

lemma Slept_simps [simp]:
  "Slept (set_header k v w) = Slept w"
  "Slept (set_cookie c w) = Slept w"
  "Slept (write_header code w) = Slept w"
  by (simp_all add: set_header_def set_cookie_def write_header_def)

lemma Slept_write_body [simp]: "Slept (write_body b w) = Slept w"
  by (simp add: write_body_def Let_def)

lemma Slept_replies [simp]:
  "Slept (http_error msg code w) = Slept w"
  "Slept (redirect_see_other r url w) = Slept w"
  by (simp_all add: http_error_def redirect_see_other_def Let_def)

section \<open>ServeMux\<close>

text \<open>
  \<open>cleanPath\<close>: the segments of a rooted path, with empty segments and \<open>.\<close> dropped and
  \<open>..\<close> taking back a segment; a final slash is kept.
\<close>

fun split_on :: "char \<Rightarrow> string \<Rightarrow> string list" where
  "split_on sep [] = [[]]"
| "split_on sep (c # cs) =
     (if c = sep then [] # split_on sep cs
      else (case split_on sep cs of p # ps \<Rightarrow> (c # p) # ps | [] \<Rightarrow> [[c]]))"

definition clean_step :: "string list \<Rightarrow> string \<Rightarrow> string list" where
  "clean_step acc seg =
     (if seg = [] \<or> seg = ''.'' then acc
      else if seg = ''..'' then (if acc = [] then [] else butlast acc)
      else acc @ [seg])"

definition clean_path :: "string \<Rightarrow> string" where
  "clean_path p =
     (let segs = foldl clean_step [] (split_on CHR ''/'' p);
          np = (if segs = [] then ''/'' else concat (map (\<lambda>s. CHR ''/'' # s) segs))
      in if p \<noteq> [] \<and> last p = CHR ''/'' \<and> np \<noteq> ''/'' then np @ ''/'' else np)"

text \<open>
  The result of looking a request up: a handler, a redirect (to the clean path, or to the path with
  a slash when only that is registered) or no match. Its status code depends on the release of Go
  and is left open.
\<close>

datatype 'h routed =
    Handle 'h
  | RedirectTo string
  | NoMatch

definition longer :: "string \<times> 'h \<Rightarrow> (string \<times> 'h) option \<Rightarrow> (string \<times> 'h) option" where
  "longer ph best =
     (case best of None \<Rightarrow> Some ph
      | Some b \<Rightarrow> if length (fst b) < length (fst ph) then Some ph else Some b)"

definition is_prefix :: "string \<Rightarrow> string \<Rightarrow> bool" where
  "is_prefix p s \<longleftrightarrow> take (length p) s = p"

definition best_prefix :: "(string \<times> 'h) list \<Rightarrow> string \<Rightarrow> (string \<times> 'h) option" where
  "best_prefix pats path =
     foldr longer (filter (\<lambda>(pat, h). pat \<noteq> [] \<and> last pat = CHR ''/'' \<and> is_prefix pat path) pats) None"

definition mux_route :: "(string \<times> 'h) list \<Rightarrow> string \<Rightarrow> 'h routed" where
  "mux_route pats rawpath =
     (let path = clean_path rawpath in
      case map_of pats path of
        Some h \<Rightarrow> if path \<noteq> rawpath then RedirectTo path else Handle h
      | None \<Rightarrow>
        (if map_of pats (path @ ''/'') \<noteq> None then RedirectTo (path @ ''/'')
         else if path \<noteq> rawpath then RedirectTo path
         else (case best_prefix pats path of
                 Some (_, h) \<Rightarrow> Handle h
               | None \<Rightarrow> NoMatch)))"

text \<open>\<open>ServeHTTP\<close> of the mux; \<open>redirect\<close> is the library's redirect response.\<close>

definition mux_serve :: "(string \<Rightarrow> response \<Rightarrow> response) \<Rightarrow> (string \<times> handler) list \<Rightarrow> handler" where
  "mux_serve redirect pats now r w =
     (case mux_route pats (URLPath r) of
        Handle h \<Rightarrow> h now r w
      | RedirectTo p \<Rightarrow> redirect p w
      | NoMatch \<Rightarrow> http_not_found w)"

lemma mux_route_Handle:
  "mux_route pats p = Handle h \<Longrightarrow>
     clean_path p = p \<and> (map_of pats p = Some h \<or>
       map_of pats p = None \<and> (\<exists>pat. best_prefix pats p = Some (pat, h)))"
  by (auto simp: mux_route_def Let_def split: option.splits if_splits)

text \<open>
  Two tables with the same patterns whose handlers answer this request in the same way answer it in
  the same way.
\<close>

definition same_answer :: "time \<Rightarrow> http_request \<Rightarrow> response \<Rightarrow> (string \<times> handler) \<Rightarrow> (string \<times> handler) \<Rightarrow> bool" where
  "same_answer now r w ph ph' \<longleftrightarrow> fst ph = fst ph' \<and> snd ph now r w = snd ph' now r w"

lemma map_of_same_answer:
  "list_all2 (same_answer now r w) pats pats' \<Longrightarrow>
     rel_option (\<lambda>h h'. h now r w = h' now r w) (map_of pats k) (map_of pats' k)"
  by (induction rule: list_all2_induct) (auto simp: same_answer_def split: prod.splits)

lemma longer_same_answer:
  "same_answer now r w x y \<Longrightarrow> rel_option (same_answer now r w) a b \<Longrightarrow>
     rel_option (same_answer now r w) (longer x a) (longer y b)"
  by (cases a; cases b) (simp_all add: longer_def same_answer_def)

lemma best_prefix_same_answer:
  "list_all2 (same_answer now r w) pats pats' \<Longrightarrow>
     rel_option (same_answer now r w) (best_prefix pats k) (best_prefix pats' k)"
proof (induction rule: list_all2_induct)
  case (Cons x xs y ys)
  have "fst x = fst y" using Cons(1) by (simp add: same_answer_def)
  with Cons longer_same_answer [OF Cons(1) Cons(3)] show ?case
    by (simp add: best_prefix_def case_prod_unfold)
qed (simp add: best_prefix_def)

definition route_answer :: "(string \<Rightarrow> response \<Rightarrow> response) \<Rightarrow> time \<Rightarrow> http_request \<Rightarrow> response \<Rightarrow> handler routed \<Rightarrow> response" where
  "route_answer redirect now r w rt =
     (case rt of Handle h \<Rightarrow> h now r w | RedirectTo p \<Rightarrow> redirect p w | NoMatch \<Rightarrow> http_not_found w)"

lemma mux_serve_route: "mux_serve redirect pats now r w = route_answer redirect now r w (mux_route pats (URLPath r))"
  by (simp add: mux_serve_def route_answer_def)

lemma mux_serve_cong:
  assumes "list_all2 (same_answer now r w) pats pats'"
  shows "mux_serve redirect pats now r w = mux_serve redirect pats' now r w"
proof -
  define p where "p = clean_path (URLPath r)"
  have none: "map_of pats (p @ ''/'') = None \<longleftrightarrow> map_of pats' (p @ ''/'') = None"
    using map_of_same_answer [OF assms, of "p @ ''/''"] by (auto elim: option.rel_cases)
  show ?thesis
  proof (cases "map_of pats p")
    case (Some h)
    with map_of_same_answer [OF assms, of p] obtain h' where
      "map_of pats' p = Some h'" "h now r w = h' now r w" by (auto elim: option.rel_cases)
    with Some show ?thesis
      by (simp add: mux_serve_route mux_route_def p_def [symmetric] route_answer_def)
  next
    case None
    with map_of_same_answer [OF assms, of p] have "map_of pats' p = None"
      by (auto elim: option.rel_cases)
    with None none best_prefix_same_answer [OF assms, of p] show ?thesis
      by (cases "p = URLPath r"; cases "best_prefix pats p"; cases "best_prefix pats' p")
        (simp_all add: mux_serve_route mux_route_def p_def [symmetric] route_answer_def
          same_answer_def case_prod_unfold Let_def)
  qed
qed

end
