(* ===== verification/Go_Flag.thy ===== *)
theory Go_Flag
  imports Mesh_Prelude
begin

text \<open>
  \<open>flag.FlagSet.Parse\<close> of Go's standard library for flags that take a value (the program defines
  no boolean flag), with \<open>ContinueOnError\<close>. A flag set is the map from the names defined to the
  check their \<open>Set\<close> method does; the result is the assignments in order and the remaining
  arguments.
\<close>

datatype flag_error =
    BadFlagSyntax string
  | UndefinedFlag string
  | MissingFlagValue string
  | InvalidFlagValue string string
  | HelpRequested

datatype scanned =
    NotAFlag
  | Terminator
  | BadFlag
  | FlagArg string "string option"

definition scan_arg :: "string \<Rightarrow> scanned" where
  "scan_arg s =
     (if length s < 2 \<or> hd s \<noteq> CHR ''-'' then NotAFlag
      else if s = ''--'' then Terminator
      else
        let name = (if s ! 1 = CHR ''-'' then drop 2 s else drop 1 s) in
        if name = [] \<or> hd name = CHR ''-'' \<or> hd name = CHR ''='' then BadFlag
        else (case index_of CHR ''='' name of
                None \<Rightarrow> FlagArg name None
              | Some i \<Rightarrow> FlagArg (take i name) (Some (drop (Suc i) name))))"

type_synonym flag_set = "string \<rightharpoonup> (string \<Rightarrow> bool)"

type_synonym parsed_flags = "(string \<times> string) list \<times> string list"

definition set_flag :: "flag_set \<Rightarrow> string \<Rightarrow> string \<Rightarrow> flag_error + unit" where
  "set_flag defs name v =
     (case defs name of
        None \<Rightarrow> Inl (UndefinedFlag name)
      | Some valid \<Rightarrow> if valid v then Inr () else Inl (InvalidFlagValue name v))"

definition undefined_flag :: "string \<Rightarrow> flag_error" where
  "undefined_flag name = (if name = ''help'' \<or> name = ''h'' then HelpRequested else UndefinedFlag name)"

fun parse_flags :: "flag_set \<Rightarrow> string list \<Rightarrow> flag_error + parsed_flags" where
  "parse_flags defs [] = Inr ([], [])"
| "parse_flags defs (s # args) =
     (case scan_arg s of
        NotAFlag \<Rightarrow> Inr ([], s # args)
      | Terminator \<Rightarrow> Inr ([], args)
      | BadFlag \<Rightarrow> Inl (BadFlagSyntax s)
      | FlagArg name val \<Rightarrow>
        if defs name = None then Inl (undefined_flag name)
        else
          (case val of
             Some v \<Rightarrow>
               and_then (set_flag defs name v) (\<lambda>_.
                 and_then (parse_flags defs args) (\<lambda>(vs, rest). Inr ((name, v) # vs, rest)))
           | None \<Rightarrow>
             (case args of
                [] \<Rightarrow> Inl (MissingFlagValue name)
              | v # args' \<Rightarrow>
                and_then (set_flag defs name v) (\<lambda>_.
                  and_then (parse_flags defs args') (\<lambda>(vs, rest). Inr ((name, v) # vs, rest))))))"

text \<open>A string flag holds the last value assigned, a repeatable one all of them.\<close>

definition flag_value :: "string \<Rightarrow> string \<Rightarrow> (string \<times> string) list \<Rightarrow> string" where
  "flag_value name dflt vs = (case map_of (rev vs) name of None \<Rightarrow> dflt | Some v \<Rightarrow> v)"

definition flag_values :: "string \<Rightarrow> (string \<times> string) list \<Rightarrow> string list" where
  "flag_values name vs = map snd (filter (\<lambda>(n, v). n = name) vs)"

text \<open>Parsing stops at the first argument that is no flag: what follows is handed back untouched.\<close>

lemma parse_flags_NotAFlag: "rest = [] \<or> scan_arg (hd rest) = NotAFlag \<Longrightarrow> parse_flags defs rest = Inr ([], rest)"
  by (cases rest) auto

lemma parse_flags_append:
  assumes "parse_flags defs flags = Inr (vs, [])" and "rest = [] \<or> scan_arg (hd rest) = NotAFlag"
  shows "parse_flags defs (flags @ rest) = Inr (vs, rest)"
  using assms(1)
proof (induction defs flags arbitrary: vs rule: parse_flags.induct)
  case (1 defs)
  with parse_flags_NotAFlag [OF assms(2)] show ?case by simp
next
  case (2 defs s args)
  show ?case
  proof (cases "scan_arg s")
    case (FlagArg name val)
    show ?thesis
    proof (cases val)
      case None
      with FlagArg 2 show ?thesis
        by (fastforce simp: ok_iff split: list.splits if_splits)
    next
      case (Some v)
      with FlagArg 2 show ?thesis
        by (fastforce simp: ok_iff split: if_splits)
    qed
  qed (use 2 in auto)
qed

lemma parse_flags_defined:
  "parse_flags defs args = Inr (vs, rest) \<Longrightarrow> (n, v) \<in> set vs \<Longrightarrow> defs n \<noteq> None"
proof (induction defs args arbitrary: vs rule: parse_flags.induct)
  case (2 defs s args)
  show ?case
  proof (cases "scan_arg s")
    case (FlagArg name val)
    then show ?thesis
      using 2 by (cases val) (fastforce simp: ok_iff split: list.splits if_splits)+
  qed (use 2 in auto)
qed simp

end
