(* ===== verification/Go_Utf8.thy ===== *)
theory Go_Utf8
  imports Mesh_Prelude
begin

text \<open>
  UTF-8 as Go's \<open>unicode/utf8\<close> reads and writes it: the width of the first rune of a byte
  string (zero when it is not a valid encoding: overlong forms, surrogates and values beyond
  \<open>10FFFF\<close> are rejected), and the bytes of a code point.
\<close>

section \<open>Runes\<close>

abbreviation ord :: "char \<Rightarrow> nat" where "ord c \<equiv> of_char c"

definition is_cont :: "char \<Rightarrow> bool" where
  "is_cont c \<longleftrightarrow> 128 \<le> ord c \<and> ord c \<le> 191"

text \<open>The second byte of some leading bytes has a smaller range.\<close>

definition second_ok :: "nat \<Rightarrow> char \<Rightarrow> bool" where
  "second_ok b0 c \<longleftrightarrow>
     (if b0 = 224 then 160 \<le> ord c \<and> ord c \<le> 191
      else if b0 = 237 then 128 \<le> ord c \<and> ord c \<le> 159
      else if b0 = 240 then 144 \<le> ord c \<and> ord c \<le> 191
      else if b0 = 244 then 128 \<le> ord c \<and> ord c \<le> 143
      else is_cont c)"

definition lead_width :: "nat \<Rightarrow> nat" where
  "lead_width b0 =
     (if b0 < 128 then 1 else if b0 < 194 then 0 else if b0 < 224 then 2 else if b0 < 240 then 3
      else if b0 < 245 then 4 else 0)"

definition rune_width :: "string \<Rightarrow> nat" where
  "rune_width s =
     (case s of
        [] \<Rightarrow> 0
      | c # cs \<Rightarrow>
        let n = lead_width (ord c) in
        if n \<le> 1 then n
        else if length cs < n - 1 then 0
        else if second_ok (ord c) (cs ! 0) \<and> list_all is_cont (take (n - 2) (drop 1 cs)) then n
        else 0)"

lemma lead_width_le: "lead_width b \<le> 4"
  by (simp add: lead_width_def)

lemma rune_width_le: "rune_width s \<le> length s"
proof (cases s)
  case (Cons c cs)
  then show ?thesis
    using lead_width_le [of "ord c"] by (cases "lead_width (ord c) \<le> 1") (auto simp: rune_width_def Let_def)
qed (simp add: rune_width_def)

lemma rune_width_cons:
  "rune_width (c # cs) = n \<Longrightarrow> 0 < n \<Longrightarrow> lead_width (ord c) = n"
  by (auto simp: rune_width_def Let_def split: if_splits)

lemma rune_width_1: "ord c < 128 \<Longrightarrow> rune_width (c # cs) = 1"
  by (simp add: rune_width_def lead_width_def)

lemma rune_width_ge_2: "\<not> ord c < 128 \<Longrightarrow> rune_width (c # cs) = 0 \<or> 2 \<le> rune_width (c # cs)"
  by (auto simp: rune_width_def Let_def lead_width_def)

text \<open>The width depends on the bytes of the rune only.\<close>

lemma rune_width_prefix:
  assumes "0 < rune_width s"
  shows "rune_width (take (rune_width s) s @ t) = rune_width s"
proof -
  from assms obtain c cs where s: "s = c # cs" by (cases s) (auto simp: rune_width_def)
  define n where "n = rune_width s"
  from assms s have n: "lead_width (ord c) = n" "0 < n" using rune_width_cons [of c cs n] by (auto simp: n_def)
  show ?thesis
  proof (cases "n \<le> 1")
    case True
    with n have "n = 1" by simp
    moreover have "rune_width (c # t) = n" using n True by (simp add: rune_width_def)
    ultimately show ?thesis by (simp add: s n_def [symmetric] flip: n_def [unfolded s])
  next
    case False
    with assms s n have ok: "\<not> length cs < n - 1" "second_ok (ord c) (cs ! 0)"
      "list_all is_cont (take (n - 2) (drop 1 cs))"
      by (auto simp: rune_width_def Let_def split: if_splits)
    from False obtain m where m: "n = Suc (Suc m)" by (cases n) (auto simp: not_le dest: less_imp_Suc_add)
    from ok(1) m obtain d ds where cs: "cs = d # ds" "m \<le> length ds" by (cases cs) auto
    have "take n s @ t = c # d # take m ds @ t" by (simp add: s m cs)
    moreover have "rune_width (c # d # take m ds @ t) = n"
      using n ok m cs by (simp add: rune_width_def Let_def min_absorb1)
    ultimately show ?thesis by (simp add: n_def)
  qed
qed

text \<open>All bytes of a rune of several bytes are beyond ASCII.\<close>

lemma rune_bytes:
  assumes "2 \<le> rune_width s" "c \<in> set (take (rune_width s) s)"
  shows "128 \<le> ord c"
proof -
  define n where "n = rune_width s"
  from assms(1) obtain b cs where s: "s = b # cs" by (cases s) (auto simp: rune_width_def)
  have n: "lead_width (ord b) = n" "2 \<le> n" using assms(1) s rune_width_cons [of b cs n] by (auto simp: n_def)
  then have "\<not> n \<le> 1" by simp
  with assms(1) s n have ok: "\<not> length cs < n - 1" "second_ok (ord b) (cs ! 0)"
    "list_all is_cont (take (n - 2) (drop 1 cs))"
    by (auto simp: rune_width_def Let_def split: if_splits)
  from n(2) obtain m where m: "n = Suc (Suc m)" by (metis add_2_eq_Suc le_Suc_ex)
  from ok(1) m obtain d ds where cs: "cs = d # ds" by (cases cs) auto
  have "take n s = b # d # take m ds" by (simp add: s m cs)
  moreover have "128 \<le> ord b" using n by (auto simp: lead_width_def split: if_splits)
  moreover have "128 \<le> ord d" using ok(2) cs by (auto simp: second_ok_def is_cont_def split: if_splits)
  moreover have "\<forall>x \<in> set (take m ds). 128 \<le> ord x"
    using ok(3) m cs by (auto simp: list_all_iff is_cont_def)
  ultimately show ?thesis using assms(2) by (auto simp: n_def [symmetric])
qed

section \<open>Strings\<close>

text \<open>\<open>utf8.ValidString\<close>.\<close>

function utf8_valid :: "string \<Rightarrow> bool" where
  "utf8_valid s = (if s = [] then True else if rune_width s = 0 then False else utf8_valid (drop (rune_width s) s))"
  by pat_completeness auto
termination by (relation "measure length") auto

declare utf8_valid.simps [simp del]

lemma utf8_valid_Nil [simp]: "utf8_valid []"
  by (simp add: utf8_valid.simps)

lemma utf8_induct [consumes 1, case_names Nil rune]:
  assumes "utf8_valid s" "P []"
    and "\<And>s. 0 < rune_width s \<Longrightarrow> utf8_valid (drop (rune_width s) s) \<Longrightarrow> P (drop (rune_width s) s) \<Longrightarrow> P s"
  shows "P s"
  using assms(1)
proof (induction s rule: utf8_valid.induct)
  case (1 s)
  then show ?case using assms(2) assms(3) [of s] by (cases "s = []") (auto simp: utf8_valid.simps [of s] split: if_splits)
qed

lemma utf8_valid_rune: "0 < rune_width s \<Longrightarrow> utf8_valid s \<longleftrightarrow> utf8_valid (drop (rune_width s) s)"
  by (subst utf8_valid.simps) (auto simp: rune_width_def)

lemma utf8_valid_append:
  assumes "utf8_valid s"
  shows "utf8_valid (s @ t) \<longleftrightarrow> utf8_valid t"
  using assms
proof (induction s rule: utf8_induct)
  case (rune s)
  define n where "n = rune_width s"
  have le: "n \<le> length s" by (simp add: n_def rune_width_le)
  have w: "rune_width (s @ t) = n"
    using rune_width_prefix [OF rune(1), of "drop n s @ t"]
    by (simp add: n_def) (metis append.assoc append_take_drop_id)
  with rune(1) have "utf8_valid (s @ t) \<longleftrightarrow> utf8_valid (drop n (s @ t))"
    using utf8_valid_rune [of "s @ t"] by (simp add: n_def)
  with rune(3) le show ?case by (simp add: n_def)
qed simp

lemma utf8_valid_ascii: "\<forall>c \<in> set s. ord c < 128 \<Longrightarrow> utf8_valid s"
proof (induction s)
  case (Cons c s)
  then have "rune_width (c # s) = 1" by (simp add: rune_width_1)
  with Cons utf8_valid_rune [of "c # s"] show ?case by simp
qed simp

section \<open>Code points\<close>

definition is_surrogate :: "nat \<Rightarrow> bool" where
  "is_surrogate n \<longleftrightarrow> 55296 \<le> n \<and> n < 57344"

text \<open>The bytes of U+FFFD, the replacement character.\<close>

definition replacement :: string where
  "replacement = [CHR 0xEF, CHR 0xBF, CHR 0xBD]"

text \<open>\<open>utf8.EncodeRune\<close>.\<close>

definition encode_rune :: "nat \<Rightarrow> string" where
  "encode_rune n =
     (if n < 128 then [char_of n]
      else if n < 2048 then [char_of (192 + n div 64), char_of (128 + n mod 64)]
      else if is_surrogate n \<or> n > 1114111 then replacement
      else if n < 65536 then [char_of (224 + n div 4096), char_of (128 + n div 64 mod 64), char_of (128 + n mod 64)]
      else [char_of (240 + n div 262144), char_of (128 + n div 4096 mod 64), char_of (128 + n div 64 mod 64),
            char_of (128 + n mod 64)])"

lemma ord_char_of [simp]: "n < 256 \<Longrightarrow> ord (char_of n) = n"
  by simp

lemma rune_width_replacement: "rune_width (replacement @ t) = 3"
  by (simp add: replacement_def rune_width_def lead_width_def second_ok_def is_cont_def Let_def)

lemma utf8_valid_replacement [simp]: "utf8_valid (replacement @ t) \<longleftrightarrow> utf8_valid t"
proof -
  have "utf8_valid replacement"
    using rune_width_replacement [of "[]"] utf8_valid_rune [of replacement] by (simp add: replacement_def)
  then show ?thesis by (rule utf8_valid_append)
qed

text \<open>The digits of a code point to the base 64.\<close>

lemma digits64:
  fixes n :: nat
  shows "n = 4096 * (n div 4096) + 64 * (n div 64 mod 64) + n mod 64"
    and "n = 262144 * (n div 262144) + 4096 * (n div 4096 mod 64) + 64 * (n div 64 mod 64) + n mod 64"
proof -
  have d: "n div 64 div 64 = n div 4096" "n div 4096 div 64 = n div 262144"
    by (simp_all add: div_mult2_eq [symmetric])
  have "n = 64 * (n div 64) + n mod 64" "n div 64 = 64 * (n div 64 div 64) + n div 64 mod 64"
    "n div 4096 = 64 * (n div 4096 div 64) + n div 4096 mod 64" by simp_all
  then show "n = 4096 * (n div 4096) + 64 * (n div 64 mod 64) + n mod 64"
    "n = 262144 * (n div 262144) + 4096 * (n div 4096 mod 64) + 64 * (n div 64 mod 64) + n mod 64"
    unfolding d by linarith+
qed

lemma width2:
  fixes a b :: nat
  assumes "194 \<le> a" "a < 224" "b < 64"
  shows "rune_width [char_of a, char_of (128 + b)] = 2"
  using assms by (simp add: rune_width_def lead_width_def second_ok_def is_cont_def)

lemma rune_width_3:
  assumes "lead_width (ord x) = 3" "second_ok (ord x) y" "is_cont z"
  shows "rune_width [x, y, z] = 3"
  using assms by (simp add: rune_width_def)

lemma rune_width_4:
  assumes "lead_width (ord x) = 4" "second_ok (ord x) y" "is_cont z" "is_cont u"
  shows "rune_width [x, y, z, u] = 4"
  using assms by (simp add: rune_width_def numeral_2_eq_2)

lemma is_cont_char: "b < 64 \<Longrightarrow> is_cont (char_of (128 + b :: nat))"
  by (simp add: is_cont_def)

lemma second_ok_char:
  fixes b b0 :: nat
  assumes "b < 64" "b0 = 224 \<longrightarrow> 32 \<le> b" "b0 = 237 \<longrightarrow> b < 32" "b0 = 240 \<longrightarrow> 16 \<le> b" "b0 = 244 \<longrightarrow> b < 16"
  shows "second_ok b0 (char_of (128 + b))"
  using assms by (auto simp: second_ok_def is_cont_def)

lemma width3:
  fixes a b c :: nat
  assumes "a < 16" "a = 0 \<longrightarrow> 32 \<le> b" "a = 13 \<longrightarrow> b < 32" "b < 64" "c < 64"
  shows "rune_width [char_of (224 + a), char_of (128 + b), char_of (128 + c)] = 3"
proof (rule rune_width_3)
  have o: "ord (char_of (224 + a)) = 224 + a" using assms by simp
  show "lead_width (ord (char_of (224 + a))) = 3" unfolding o using assms by (simp add: lead_width_def)
  show "second_ok (ord (char_of (224 + a))) (char_of (128 + b))"
    unfolding o by (rule second_ok_char) (use assms in simp_all)
qed (rule is_cont_char [OF assms(5)])

lemma width4:
  fixes a b c d :: nat
  assumes "a \<le> 4" "a = 0 \<longrightarrow> 16 \<le> b" "a = 4 \<longrightarrow> b < 16" "b < 64" "c < 64" "d < 64"
  shows "rune_width [char_of (240 + a), char_of (128 + b), char_of (128 + c), char_of (128 + d)] = 4"
proof (rule rune_width_4)
  have o: "ord (char_of (240 + a)) = 240 + a" using assms by simp
  show "lead_width (ord (char_of (240 + a))) = 4" unfolding o using assms by (simp add: lead_width_def)
  show "second_ok (ord (char_of (240 + a))) (char_of (128 + b))"
    unfolding o by (rule second_ok_char) (use assms in simp_all)
qed (rule is_cont_char [OF assms(5)], rule is_cont_char [OF assms(6)])

lemma utf8_valid_encode_rune: "utf8_valid (encode_rune n)"
proof -
  have rep: "rune_width replacement = length replacement"
    using rune_width_replacement [of "[]"] by (simp add: replacement_def)
  consider "n < 128" | "128 \<le> n" "n < 2048" | "2048 \<le> n" "is_surrogate n \<or> n > 1114111"
    | "2048 \<le> n" "\<not> is_surrogate n" "n < 65536" | "65536 \<le> n" "n \<le> 1114111" by linarith
  then have "rune_width (encode_rune n) = length (encode_rune n)"
  proof cases
    case 1
    then show ?thesis by (simp add: encode_rune_def rune_width_1)
  next
    case 2
    then show ?thesis using width2 [of "192 + n div 64" "n mod 64"] by (simp add: encode_rune_def)
  next
    case 3
    with rep show ?thesis by (auto simp: encode_rune_def)
  next
    case 4
    have "n div 4096 < 16" using 4 by simp
    moreover have "n div 4096 = 0 \<longrightarrow> 32 \<le> n div 64 mod 64" "n div 4096 = 13 \<longrightarrow> n div 64 mod 64 < 32"
      using digits64(1) [of n] 4 mod_less_divisor [of 64 n] unfolding is_surrogate_def by linarith+
    ultimately show ?thesis using width3 [of "n div 4096" "n div 64 mod 64" "n mod 64"] 4
      by (simp add: encode_rune_def)
  next
    case 5
    have "n div 262144 \<le> 4" using 5 by simp
    moreover have "n div 262144 = 0 \<longrightarrow> 16 \<le> n div 4096 mod 64" "n div 262144 = 4 \<longrightarrow> n div 4096 mod 64 < 16"
      using digits64(2) [of n] 5 mod_less_divisor [of 64 n] mod_less_divisor [of 64 "n div 64"] by linarith+
    moreover have "\<not> is_surrogate n" using 5 by (simp add: is_surrogate_def)
    ultimately show ?thesis
      using width4 [of "n div 262144" "n div 4096 mod 64" "n div 64 mod 64" "n mod 64"] 5
      by (simp add: encode_rune_def)
  qed
  moreover have "encode_rune n \<noteq> []" by (simp add: encode_rune_def replacement_def)
  ultimately show ?thesis using utf8_valid_rune [of "encode_rune n"] by simp
qed

end
