(* ===== verification/Go_Json.thy ===== *)
theory Go_Json
  imports Go_Utf8 Go_Text
begin

text \<open>
  The text level of Go's \<open>encoding/json\<close> (version 1): printing of values, compact or indented by
  two spaces, and the reader of \<open>json.Decoder\<close>, which takes the first value of its input and
  ignores what follows. The reader is a state machine over tokens with an explicit stack, as the
  library's scanner is, so that every run ends. Nesting beyond 10000 is an error.
\<close>

section \<open>Values\<close>

text \<open>A number is kept as its literal; an object keeps its members in order, duplicates included.\<close>

datatype json =
    JNull
  | JBool bool
  | JNum string
  | JStr string
  | JArr "json list"
  | JObj "(string \<times> json) list"

section \<open>Strings\<close>

definition hex_digit :: "nat \<Rightarrow> char" where
  "hex_digit n = (if n < 10 then char_of (48 + n) else char_of (87 + n))"

definition unicode_escape :: "nat \<Rightarrow> string" where
  "unicode_escape n =
     [CHR 0x5C, CHR ''u'', hex_digit (n div 4096 mod 16), hex_digit (n div 256 mod 16),
      hex_digit (n div 16 mod 16), hex_digit (n mod 16)]"

definition escape_ascii :: "char \<Rightarrow> string" where
  "escape_ascii c =
     (if c = CHR 0x22 \<or> c = CHR 0x5C then [CHR 0x5C, c]
      else if c = CHR 0x08 then [CHR 0x5C, CHR ''b'']
      else if c = CHR 0x0C then [CHR 0x5C, CHR ''f'']
      else if c = CHR 0x0A then [CHR 0x5C, CHR ''n'']
      else if c = CHR 0x0D then [CHR 0x5C, CHR ''r'']
      else if c = CHR 0x09 then [CHR 0x5C, CHR ''t'']
      else if ord c < 32 \<or> c = CHR ''<'' \<or> c = CHR ''>'' \<or> c = CHR ''&'' then unicode_escape (ord c)
      else [c])"

text \<open>A rune of several bytes stands for itself, but for the two line separators.\<close>

definition escape_rune :: "string \<Rightarrow> string" where
  "escape_rune r =
     (if r = [CHR 0xE2, CHR 0x80, CHR 0xA8] then unicode_escape 8232
      else if r = [CHR 0xE2, CHR 0x80, CHR 0xA9] then unicode_escape 8233
      else r)"

function escape :: "string \<Rightarrow> string" where
  "escape [] = []"
| "escape (c # cs) =
     (if ord c < 128 then escape_ascii c @ escape cs
      else let w = rune_width (c # cs) in
        if w = 0 then unicode_escape 65533 @ escape cs
        else escape_rune (take w (c # cs)) @ escape (drop (w - 1) cs))"
  by pat_completeness auto
termination by (relation "measure length") auto

definition quote_string :: "string \<Rightarrow> string" where
  "quote_string s = CHR 0x22 # escape s @ [CHR 0x22]"

text \<open>Reading: first the characters and escapes up to the closing quote, then their bytes.\<close>

datatype item = Raw char | Uni nat

definition hex_value :: "char \<Rightarrow> nat option" where
  "hex_value c =
     (let n = ord c in
      if 48 \<le> n \<and> n \<le> 57 then Some (n - 48)
      else if 97 \<le> n \<and> n \<le> 102 then Some (n - 87)
      else if 65 \<le> n \<and> n \<le> 70 then Some (n - 55)
      else None)"

definition hex4 :: "char \<Rightarrow> char \<Rightarrow> char \<Rightarrow> char \<Rightarrow> nat option" where
  "hex4 a b c d =
     (case (hex_value a, hex_value b, hex_value c, hex_value d) of
        (Some i, Some j, Some k, Some l) \<Rightarrow> Some (4096 * i + 256 * j + 16 * k + l)
      | _ \<Rightarrow> None)"

definition simple_escape :: "char \<Rightarrow> char option" where
  "simple_escape e =
     (if e = CHR 0x22 \<or> e = CHR 0x5C \<or> e = CHR ''/'' then Some e
      else if e = CHR ''b'' then Some CHR 0x08
      else if e = CHR ''f'' then Some CHR 0x0C
      else if e = CHR ''n'' then Some CHR 0x0A
      else if e = CHR ''r'' then Some CHR 0x0D
      else if e = CHR ''t'' then Some CHR 0x09
      else None)"

fun scan_items :: "string \<Rightarrow> (item list \<times> string) option" where
  "scan_items [] = None"
| "scan_items (c # cs) =
     (if c = CHR 0x22 then Some ([], cs)
      else if c = CHR 0x5C then
        (case cs of
           [] \<Rightarrow> None
         | e # es \<Rightarrow>
           if e = CHR ''u'' then
             (case es of
                h1 # h2 # h3 # h4 # r \<Rightarrow>
                  (case hex4 h1 h2 h3 h4 of
                     None \<Rightarrow> None
                   | Some n \<Rightarrow> map_option (apfst (Cons (Uni n))) (scan_items r))
              | _ \<Rightarrow> None)
           else
             (case simple_escape e of
                None \<Rightarrow> None
              | Some x \<Rightarrow> map_option (apfst (Cons (Raw x))) (scan_items es)))
      else if ord c < 32 then None
      else map_option (apfst (Cons (Raw c))) (scan_items cs))"

fun raw_run :: "item list \<Rightarrow> string" where
  "raw_run (Raw c # is) = c # raw_run is"
| "raw_run _ = []"

definition is_high :: "nat \<Rightarrow> bool" where "is_high n \<longleftrightarrow> 55296 \<le> n \<and> n < 56320"
definition is_low :: "nat \<Rightarrow> bool" where "is_low n \<longleftrightarrow> 56320 \<le> n \<and> n < 57344"

text \<open>Surrogate pairs are combined; whatever is no valid UTF-8 or UTF-16 is replaced by U+FFFD.\<close>

function unquote :: "item list \<Rightarrow> string" where
  "unquote [] = []"
| "unquote (Uni n # is) =
     (if is_surrogate n then
        (case is of
           Uni m # is' \<Rightarrow>
             if is_high n \<and> is_low m then
               encode_rune (65536 + (n - 55296) * 1024 + (m - 56320)) @ unquote is'
             else replacement @ unquote is
         | _ \<Rightarrow> replacement @ unquote is)
      else encode_rune n @ unquote is)"
| "unquote (Raw c # is) =
     (if ord c < 128 then c # unquote is
      else let s = c # raw_run is; w = rune_width s in
        if w = 0 then replacement @ unquote is
        else take w s @ unquote (drop (w - 1) is))"
  by pat_completeness auto
termination by (relation "measure length") auto

section \<open>Tokens\<close>

datatype token =
    TLBrace | TRBrace | TLBracket | TRBracket | TColon | TComma
  | TNull | TTrue | TFalse
  | TNum string
  | TStr string

definition is_space :: "char \<Rightarrow> bool" where
  "is_space c \<longleftrightarrow> c = CHR '' '' \<or> c = CHR 0x09 \<or> c = CHR 0x0D \<or> c = CHR 0x0A"

definition is_digit :: "char \<Rightarrow> bool" where
  "is_digit c \<longleftrightarrow> 48 \<le> ord c \<and> ord c \<le> 57"

definition strip_prefix :: "string \<Rightarrow> string \<Rightarrow> string option" where
  "strip_prefix p s = (if take (length p) s = p then Some (drop (length p) s) else None)"

text \<open>The parts of a number: sign, integer without leading zeros, fraction, exponent.\<close>

definition digits1 :: "string \<Rightarrow> (string \<times> string) option" where
  "digits1 s = (if takeWhile is_digit s = [] then None else Some (takeWhile is_digit s, dropWhile is_digit s))"

definition scan_int :: "string \<Rightarrow> (string \<times> string) option" where
  "scan_int s =
     (case s of
        [] \<Rightarrow> None
      | c # cs \<Rightarrow> if c = CHR ''0'' then Some ([c], cs) else digits1 s)"

definition scan_frac :: "string \<Rightarrow> (string \<times> string) option" where
  "scan_frac s =
     (case s of
        c # cs \<Rightarrow> if c = CHR ''.'' then map_option (apfst (Cons c)) (digits1 cs) else Some ([], s)
      | [] \<Rightarrow> Some ([], s))"

definition scan_exp :: "string \<Rightarrow> (string \<times> string) option" where
  "scan_exp s =
     (case s of
        c # cs \<Rightarrow>
          if c = CHR ''e'' \<or> c = CHR ''E'' then
            (case cs of
               d # ds \<Rightarrow>
                 if d = CHR ''+'' \<or> d = CHR ''-'' then map_option (apfst (\<lambda>x. c # d # x)) (digits1 ds)
                 else map_option (apfst (Cons c)) (digits1 cs)
             | [] \<Rightarrow> None)
          else Some ([], s)
      | [] \<Rightarrow> Some ([], s))"

definition scan_number :: "string \<Rightarrow> (string \<times> string) option" where
  "scan_number s =
     (let neg = (case s of c # _ \<Rightarrow> c = CHR ''-'' | [] \<Rightarrow> False);
          sign = (if neg then [CHR ''-''] else []);
          s0 = (if neg then tl s else s)
      in case scan_int s0 of
           None \<Rightarrow> None
         | Some (i, s1) \<Rightarrow>
           (case scan_frac s1 of
              None \<Rightarrow> None
            | Some (f, s2) \<Rightarrow>
              (case scan_exp s2 of
                 None \<Rightarrow> None
               | Some (e, s3) \<Rightarrow> Some (sign @ i @ f @ e, s3))))"

definition next_token :: "string \<Rightarrow> (token \<times> string) option" where
  "next_token s =
     (case dropWhile is_space s of
        [] \<Rightarrow> None
      | c # cs \<Rightarrow>
        if c = CHR ''{'' then Some (TLBrace, cs)
        else if c = CHR ''}'' then Some (TRBrace, cs)
        else if c = CHR ''['' then Some (TLBracket, cs)
        else if c = CHR '']'' then Some (TRBracket, cs)
        else if c = CHR '':'' then Some (TColon, cs)
        else if c = CHR '','' then Some (TComma, cs)
        else if c = CHR 0x22 then map_option (apfst (\<lambda>is. TStr (unquote is))) (scan_items cs)
        else if c = CHR ''n'' then map_option (Pair TNull) (strip_prefix ''ull'' cs)
        else if c = CHR ''t'' then map_option (Pair TTrue) (strip_prefix ''rue'' cs)
        else if c = CHR ''f'' then map_option (Pair TFalse) (strip_prefix ''alse'' cs)
        else map_option (apfst TNum) (scan_number (c # cs)))"

section \<open>The state machine\<close>

text \<open>An open array with its elements, an open object with its members and the key read last.\<close>

datatype frame =
    FArr "json list"
  | FObj "(string \<times> json) list" "string option"

datatype mode = MValue | MValueOrEnd | MKey | MKeyOrEnd | MColon | MComma

datatype pstate = PDone json | PState "frame list" mode

fun push_value :: "json \<Rightarrow> frame list \<Rightarrow> pstate option" where
  "push_value j [] = Some (PDone j)"
| "push_value j (FArr js # fs) = Some (PState (FArr (js @ [j]) # fs) MComma)"
| "push_value j (FObj ms (Some k) # fs) = Some (PState (FObj (ms @ [(k, j)]) None # fs) MComma)"
| "push_value j (FObj ms None # fs) = None"

definition takes_value :: "mode \<Rightarrow> bool" where
  "takes_value m \<longleftrightarrow> m = MValue \<or> m = MValueOrEnd"

definition maxNestingDepth :: nat where "maxNestingDepth = 10000"

fun scalar :: "token \<Rightarrow> json option" where
  "scalar TNull = Some JNull"
| "scalar TTrue = Some (JBool True)"
| "scalar TFalse = Some (JBool False)"
| "scalar (TNum l) = Some (JNum l)"
| "scalar (TStr s) = Some (JStr s)"
| "scalar _ = None"

definition open_frame :: "frame \<Rightarrow> mode \<Rightarrow> frame list \<Rightarrow> pstate option" where
  "open_frame f m fs = (if length fs < maxNestingDepth then Some (PState (f # fs) m) else None)"

text \<open>One token: \<open>None\<close> is a syntax error.\<close>

definition pstep :: "frame list \<Rightarrow> mode \<Rightarrow> token \<Rightarrow> pstate option" where
  "pstep fs m t =
     (if takes_value m \<and> t = TLBrace then open_frame (FObj [] None) MKeyOrEnd fs
      else if takes_value m \<and> t = TLBracket then open_frame (FArr []) MValueOrEnd fs
      else if takes_value m \<and> scalar t \<noteq> None then push_value (the (scalar t)) fs
      else
        (case (t, fs) of
           (TRBracket, FArr js # fs') \<Rightarrow>
             if m = MValueOrEnd \<or> m = MComma then push_value (JArr js) fs' else None
         | (TRBrace, FObj ms k # fs') \<Rightarrow>
             if m = MKeyOrEnd \<or> m = MComma then push_value (JObj ms) fs' else None
         | (TStr s, FObj ms k # fs') \<Rightarrow>
             if m = MKey \<or> m = MKeyOrEnd then Some (PState (FObj ms (Some s) # fs') MColon) else None
         | (TColon, FObj ms k # fs') \<Rightarrow> if m = MColon then Some (PState fs MValue) else None
         | (TComma, FArr js # fs') \<Rightarrow> if m = MComma then Some (PState fs MValue) else None
         | (TComma, FObj ms k # fs') \<Rightarrow> if m = MComma then Some (PState fs MKey) else None
         | _ \<Rightarrow> None))"

text \<open>Every token is at least one character, so the machine stops.\<close>

lemma scan_items_shorter: "scan_items s = Some (is, r) \<Longrightarrow> length r < length s"
proof (induction s arbitrary: "is" r rule: scan_items.induct)
  case (2 c cs)
  then show ?case by (fastforce split: if_splits list.splits option.splits)
qed simp

lemma strip_prefix_shorter: "strip_prefix p s = Some r \<Longrightarrow> length r \<le> length s"
  by (auto simp: strip_prefix_def split: if_splits)

lemma digits1_shorter: "digits1 s = Some (d, r) \<Longrightarrow> length r < length s"
  by (cases s) (auto simp: digits1_def length_dropWhile_le less_Suc_eq_le split: if_splits)

lemma scan_int_shorter: "scan_int s = Some (d, r) \<Longrightarrow> length r < length s"
  by (auto simp: scan_int_def dest: digits1_shorter split: list.splits if_splits)

lemma scan_frac_shorter: "scan_frac s = Some (d, r) \<Longrightarrow> length r \<le> length s"
  by (auto simp: scan_frac_def dest!: digits1_shorter split: list.splits if_splits)

lemma scan_exp_shorter: "scan_exp s = Some (d, r) \<Longrightarrow> length r \<le> length s"
  by (auto simp: scan_exp_def dest!: digits1_shorter split: list.splits if_splits)

lemma scan_number_shorter:
  assumes "scan_number s = Some (l, r)"
  shows "length r < length s"
proof -
  define s0 where "s0 = (if (case s of c # _ \<Rightarrow> c = CHR ''-'' | [] \<Rightarrow> False) then tl s else s)"
  have "length s0 \<le> length s" by (simp add: s0_def)
  moreover from assms obtain i s1 f s2 e where
    "scan_int s0 = Some (i, s1)" "scan_frac s1 = Some (f, s2)" "scan_exp s2 = Some (e, r)"
    unfolding scan_number_def Let_def s0_def [symmetric] by (auto split: option.splits)
  ultimately show ?thesis
    using scan_int_shorter scan_frac_shorter scan_exp_shorter by (meson le_less_trans less_le_trans)
qed

lemma next_token_shorter [termination_simp]: "next_token s = Some (t, r) \<Longrightarrow> length r < length s"
proof -
  assume a: "next_token s = Some (t, r)"
  then obtain c cs where c: "dropWhile is_space s = c # cs" by (auto simp: next_token_def split: list.splits)
  have "length r < length (c # cs)"
    using a c scan_number_shorter [of "c # cs"]
    by (auto simp: next_token_def less_Suc_eq_le split: if_splits
        dest!: scan_items_shorter strip_prefix_shorter)
  also have "length (c # cs) \<le> length s" unfolding c [symmetric] by (rule length_dropWhile_le)
  finally show ?thesis .
qed

function run_parser :: "pstate \<Rightarrow> string \<Rightarrow> (json \<times> string) option" where
  "run_parser (PDone j) s = Some (j, s)"
| "run_parser (PState fs m) s =
     (case next_token s of
        None \<Rightarrow> None
      | Some (t, r) \<Rightarrow>
        (case pstep fs m t of
           None \<Rightarrow> None
         | Some st \<Rightarrow> run_parser st r))"
  by pat_completeness auto
termination by (relation "measure (\<lambda>(st, s). length s)") (auto dest: next_token_shorter)

declare run_parser.simps(2) [simp del]

text \<open>The first value of a text and what follows it.\<close>

definition parse_json :: "string \<Rightarrow> (json \<times> string) option" where
  "parse_json s = run_parser (PState [] MValue) s"

section \<open>Printing\<close>

text \<open>A line break with its indentation in the indented form, nothing in the compact one.\<close>

definition nl :: "bool \<Rightarrow> nat \<Rightarrow> string" where
  "nl indent n = (if indent then CHR 0x0A # replicate (2 * n) CHR '' '' else [])"

fun print_json :: "bool \<Rightarrow> nat \<Rightarrow> json \<Rightarrow> string"
  and print_elems :: "bool \<Rightarrow> nat \<Rightarrow> json list \<Rightarrow> string"
  and print_members :: "bool \<Rightarrow> nat \<Rightarrow> (string \<times> json) list \<Rightarrow> string" where
  "print_json p n JNull = ''null''"
| "print_json p n (JBool b) = (if b then ''true'' else ''false'')"
| "print_json p n (JNum l) = l"
| "print_json p n (JStr s) = quote_string s"
| "print_json p n (JArr js) =
     CHR ''['' # (if js = [] then [] else nl p (Suc n) @ print_elems p (Suc n) js @ nl p n) @ '']''"
| "print_json p n (JObj ms) =
     CHR ''{'' # (if ms = [] then [] else nl p (Suc n) @ print_members p (Suc n) ms @ nl p n) @ ''}''"
| "print_elems p n [] = []"
| "print_elems p n (j # js) =
     print_json p n j @ (if js = [] then [] else CHR '','' # nl p n @ print_elems p n js)"
| "print_members p n [] = []"
| "print_members p n ((k, j) # ms) =
     quote_string k @ '':'' @ (if p then '' '' else []) @ print_json p n j @
     (if ms = [] then [] else CHR '','' # nl p n @ print_members p n ms)"

end
