(* ===== verification/Go_Json_Laws.thy ===== *)
theory Go_Json_Laws
  imports Go_Json
begin

text \<open>
  What the reader makes of printed text: strings of valid UTF-8, decimal integers, and by induction
  every value of them up to the nesting limit come back unchanged, from the compact and from the
  indented form, whatever follows.
\<close>

section \<open>Strings\<close>

lemma hex_value_digit [simp]: "n < 16 \<Longrightarrow> hex_value (hex_digit n) = Some n"
  by (auto simp: hex_value_def hex_digit_def Let_def)

lemma hex4_digits:
  assumes "n < 65536"
  shows "hex4 (hex_digit (n div 4096 mod 16)) (hex_digit (n div 256 mod 16)) (hex_digit (n div 16 mod 16))
    (hex_digit (n mod 16)) = Some n"
proof -
  have d: "n div 16 div 16 = n div 256" "n div 256 div 16 = n div 4096" by (simp_all add: div_mult2_eq [symmetric])
  have "n = 16 * (n div 16) + n mod 16" "n div 16 = 16 * (n div 16 div 16) + n div 16 mod 16"
    "n div 256 = 16 * (n div 256 div 16) + n div 256 mod 16" by simp_all
  moreover have "n div 4096 mod 16 = n div 4096" using assms by simp
  ultimately have eq: "4096 * (n div 4096 mod 16) + 256 * (n div 256 mod 16) + 16 * (n div 16 mod 16) + n mod 16 = n"
    unfolding d by linarith
  show ?thesis
    by (simp only: hex4_def hex_value_digit mod_less_divisor zero_less_numeral prod.case option.case eq)
qed

lemma scan_unicode_escape:
  "n < 65536 \<Longrightarrow> scan_items (unicode_escape n @ t) = map_option (apfst (Cons (Uni n))) (scan_items t)"
  using hex4_digits [of n] by (simp add: unicode_escape_def)

text \<open>An ASCII character is read back, as itself or as its escape.\<close>

definition ascii_item :: "char \<Rightarrow> item" where
  "ascii_item c =
     (if c = CHR ''<'' \<or> c = CHR ''>'' \<or> c = CHR ''&'' \<or>
         (ord c < 32 \<and> c \<notin> {CHR 0x08, CHR 0x0C, CHR 0x0A, CHR 0x0D, CHR 0x09})
      then Uni (ord c) else Raw c)"

lemma scan_escape_ascii:
  assumes "ord c < 128"
  shows "scan_items (escape_ascii c @ t) = map_option (apfst (Cons (ascii_item c))) (scan_items t)"
  using assms scan_unicode_escape [of "ord c" t]
  by (auto simp: escape_ascii_def ascii_item_def simple_escape_def)

lemma unquote_ascii_item:
  assumes "ord c < 128"
  shows "unquote (ascii_item c # is) = c # unquote is"
  using assms by (auto simp: ascii_item_def encode_rune_def is_surrogate_def)

lemma scan_raw:
  "\<forall>c \<in> set s. 128 \<le> ord c \<Longrightarrow>
     scan_items (s @ t) = map_option (apfst (\<lambda>is. map Raw s @ is)) (scan_items t)"
proof (induction s)
  case Nil
  then show ?case by (cases "scan_items t") (simp_all add: apfst_def map_prod_def)
next
  case (Cons c s)
  then have "c \<noteq> CHR 0x22" "c \<noteq> CHR 0x5C" "\<not> ord c < 32" by auto
  with Cons show ?case by (cases "scan_items t") (auto simp: apfst_def map_prod_def split: prod.splits)
qed

lemma raw_run_append: "raw_run (map Raw s @ is) = s @ raw_run is"
  by (induction s) auto

lemma unquote_raw_rune:
  assumes "2 \<le> rune_width s" "r = take (rune_width s) s"
  shows "unquote (map Raw r @ is) = r @ unquote is"
proof -
  define w where "w = rune_width s"
  from assms(1) obtain c cs where s: "s = c # cs" by (cases s) (auto simp: rune_width_def)
  from assms(1) obtain m where m: "w = Suc (Suc m)" by (metis add_2_eq_Suc le_Suc_ex w_def)
  have len: "length r = w" using rune_width_le [of s] by (simp add: assms(2) w_def)
  have r: "r = c # take (Suc m) cs" by (simp add: assms(2) flip: w_def) (simp add: m s)
  have "c \<in> set r" by (simp add: r)
  then have "\<not> ord c < 128" using rune_bytes [OF assms(1), of c] assms(2) by simp
  have "rune_width (r @ raw_run is) = w"
    using rune_width_prefix [of s "raw_run is"] assms by (simp add: w_def)
  then have width: "rune_width (c # take (Suc m) cs @ raw_run is) = w" by (simp add: r)
  have "length (take (Suc m) cs) = Suc m" using len r m by simp
  then show ?thesis
    using \<open>\<not> ord c < 128\<close> width m by (simp add: r raw_run_append Let_def)
qed

lemma escape_code_read:
  assumes "encode_rune n = r" "escape_rune r = unicode_escape n" "\<not> is_surrogate n" "n < 65536"
  shows "\<exists>is0. (\<forall>t. scan_items (escape_rune r @ t) = map_option (apfst (\<lambda>is. is0 @ is)) (scan_items t)) \<and>
    (\<forall>is. unquote (is0 @ is) = r @ unquote is)"
proof (intro exI [of _ "[Uni n]"] conjI allI)
  show "scan_items (escape_rune r @ t) = map_option (apfst (\<lambda>is. [Uni n] @ is)) (scan_items t)" for t
    using scan_unicode_escape [OF assms(4), of t] assms(2) by (simp add: fun_eq_iff)
  show "unquote ([Uni n] @ is) = r @ unquote is" for "is"
    using assms(1,3) by simp
qed

lemma escape_rune_read:
  assumes "2 \<le> rune_width s" "r = take (rune_width s) s"
  shows "\<exists>is0. (\<forall>t. scan_items (escape_rune r @ t) = map_option (apfst (\<lambda>is. is0 @ is)) (scan_items t)) \<and>
    (\<forall>is. unquote (is0 @ is) = r @ unquote is)"
proof -
  consider "r = [CHR 0xE2, CHR 0x80, CHR 0xA8]" | "r = [CHR 0xE2, CHR 0x80, CHR 0xA9]"
    | "escape_rune r = r" by (metis escape_rune_def)
  then show ?thesis
  proof cases
    case 1
    have enc: "encode_rune 8232 = r" by (simp add: 1 encode_rune_def is_surrogate_def char_of_eq_iff)
    have esc: "escape_rune r = unicode_escape 8232" by (simp add: 1 escape_rune_def)
    show ?thesis
      by (rule escape_code_read [OF enc esc]) (simp_all add: is_surrogate_def)
  next
    case 2
    have enc: "encode_rune 8233 = r" by (simp add: 2 encode_rune_def is_surrogate_def char_of_eq_iff)
    have esc: "escape_rune r = unicode_escape 8233" by (simp add: 2 escape_rune_def)
    show ?thesis
      by (rule escape_code_read [OF enc esc]) (simp_all add: is_surrogate_def)
  next
    case 3
    with unquote_raw_rune [OF assms] scan_raw [of r] rune_bytes [OF assms(1)] assms(2) show ?thesis
      by (intro exI [of _ "map Raw r"]) auto
  qed
qed

lemma escape_read:
  assumes "utf8_valid s"
  shows "\<exists>is. scan_items (escape s @ CHR 0x22 # t) = Some (is, t) \<and> unquote is = s"
  using assms
proof (induction s rule: utf8_induct)
  case (rune s)
  define w where "w = rune_width s"
  from rune(3) obtain "is" where "is": "scan_items (escape (drop w s) @ CHR 0x22 # t) = Some (is, t)"
    "unquote is = drop w s" by (auto simp: w_def)
  from rune(1) obtain c cs where s: "s = c # cs" by (cases s) (auto simp: rune_width_def)
  show ?case
  proof (cases "ord c < 128")
    case True
    then have "w = 1" by (simp add: w_def s rune_width_1)
    with True s "is" scan_escape_ascii [OF True] unquote_ascii_item [OF True] show ?thesis by simp
  next
    case False
    with rune(1) s have w2: "2 \<le> rune_width s" using rune_width_ge_2 [of c cs] by auto
    from escape_rune_read [OF w2 refl] obtain is0 where
      "\<And>t. scan_items (escape_rune (take w s) @ t) = map_option (apfst (\<lambda>is. is0 @ is)) (scan_items t)"
      "\<And>is. unquote (is0 @ is) = take w s @ unquote is" by (auto simp: w_def)
    moreover have "escape s = escape_rune (take w s) @ escape (drop w s)"
      using False w2 s by (cases w) (auto simp: w_def Let_def)
    ultimately show ?thesis using "is" by simp
  qed
qed simp

lemma next_token_string:
  "utf8_valid s \<Longrightarrow> next_token (quote_string s @ r) = Some (TStr s, r)"
  using escape_read [of s r] by (auto simp: quote_string_def next_token_def is_space_def)

section \<open>Numbers\<close>

lemma is_digit_iff: "is_digit c \<longleftrightarrow> digit_value c \<noteq> None"
  by (simp add: is_digit_def digit_value_def Let_def)

lemma hd_utoa_nonzero: "0 < n \<Longrightarrow> hd (utoa n) \<noteq> CHR ''0''"
proof (induction n rule: utoa_induct)
  case (small n)
  then have "digit_value (digit_char n) = Some n" by simp
  then show ?case using small by (auto simp: utoa.simps digit_value_def)
next
  case (large n)
  then have "0 < n div 10" by simp
  with large.IH have "hd (utoa (n div 10)) \<noteq> CHR ''0''" .
  with large.hyps show ?case by (subst utoa.simps) simp
qed

text \<open>What may follow a number without becoming part of it.\<close>

definition number_end :: "string \<Rightarrow> bool" where
  "number_end r \<longleftrightarrow> (case r of [] \<Rightarrow> True | c # _ \<Rightarrow> \<not> is_digit c \<and> c \<notin> {CHR ''.'', CHR ''e'', CHR ''E''})"

lemma scan_int_utoa:
  assumes "number_end r"
  shows "scan_int (utoa n @ r) = Some (utoa n, r)"
proof (cases "n = 0")
  case True
  have "digit_char 0 = CHR ''0''" by (simp add: digit_char_def char_of_eq_iff)
  with True show ?thesis by (simp add: utoa.simps scan_int_def)
next
  case False
  then have nz: "hd (utoa n) \<noteq> CHR ''0''" by (simp add: hd_utoa_nonzero)
  have "\<forall>c \<in> set (utoa n). is_digit c" using utoa_digits by (simp add: is_digit_iff)
  moreover have "takeWhile is_digit r = []" "dropWhile is_digit r = r"
    using assms by (auto simp: number_end_def split: list.splits)
  ultimately have "digits1 (utoa n @ r) = Some (utoa n, r)" by (simp add: digits1_def)
  then show ?thesis using nz by (cases "utoa n") (auto simp: scan_int_def)
qed

lemma scan_number_itoa:
  assumes "number_end r"
  shows "scan_number (itoa i @ r) = Some (itoa i, r)"
proof -
  have ends: "scan_frac r = Some ([], r)" "scan_exp r = Some ([], r)"
    using assms by (auto simp: scan_frac_def scan_exp_def number_end_def split: list.splits)
  show ?thesis
  proof (cases "i < 0")
    case True
    with ends scan_int_utoa [OF assms] show ?thesis by (simp add: scan_number_def itoa_def)
  next
    case False
    obtain c cs where c: "utoa (nat i) = c # cs" by (cases "utoa (nat i)") auto
    then have "c \<noteq> CHR ''-''" using hd_utoa_sign(1) [of "nat i"] by auto
    with False c ends scan_int_utoa [OF assms, of "nat i"] show ?thesis by (simp add: scan_number_def itoa_def)
  qed
qed

lemma next_token_number:
  assumes "number_end r"
  shows "next_token (itoa i @ r) = Some (TNum (itoa i), r)"
proof -
  obtain c cs where c: "itoa i = c # cs" by (cases "itoa i") auto
  then have "c = CHR ''-'' \<or> is_digit c" using itoa_chars [of c i] by (auto simp: is_digit_iff)
  then have "c \<notin> {CHR '' '', CHR 0x09, CHR 0x0D, CHR 0x0A, CHR ''{'', CHR ''}'', CHR ''['', CHR '']'', CHR '':'',
      CHR '','', CHR 0x22, CHR ''n'', CHR ''t'', CHR ''f''}"
    by (auto simp: is_digit_def)
  then show ?thesis
    using scan_number_itoa [OF assms, of i] by (simp add: next_token_def is_space_def c)
qed

section \<open>Values\<close>

text \<open>What is printed and read back: integers, valid UTF-8, at most \<open>d\<close> levels of nesting.\<close>

fun printable :: "nat \<Rightarrow> json \<Rightarrow> bool" where
  "printable d JNull = True"
| "printable d (JBool b) = True"
| "printable d (JNum l) = (\<exists>i. l = itoa i)"
| "printable d (JStr s) = utf8_valid s"
| "printable d (JArr js) = (0 < d \<and> list_all (printable (d - 1)) js)"
| "printable d (JObj ms) = (0 < d \<and> list_all (\<lambda>m. utf8_valid (fst m) \<and> printable (d - 1) (snd m)) ms)"

lemma next_token_space: "is_space c \<Longrightarrow> next_token (c # s) = next_token s"
  by (simp add: next_token_def)

lemma next_token_nl [simp]: "next_token (nl p n @ s) = next_token s"
proof -
  have "next_token (replicate k CHR '' '' @ s) = next_token s" for k
    by (induction k) (simp_all add: next_token_space is_space_def)
  then show ?thesis by (simp add: nl_def next_token_space is_space_def)
qed

lemma run_parser_nl [simp]: "run_parser (PState fs m) (nl p n @ s) = run_parser (PState fs m) s"
  by (simp add: run_parser.simps(2))

lemma next_token_punctuation [simp]:
  "next_token (CHR ''{'' # s) = Some (TLBrace, s)" "next_token (CHR ''}'' # s) = Some (TRBrace, s)"
  "next_token (CHR ''['' # s) = Some (TLBracket, s)" "next_token (CHR '']'' # s) = Some (TRBracket, s)"
  "next_token (CHR '':'' # s) = Some (TColon, s)" "next_token (CHR '','' # s) = Some (TComma, s)"
  by (simp_all add: next_token_def is_space_def)

lemma next_token_literals [simp]:
  "next_token (CHR ''n'' # CHR ''u'' # CHR ''l'' # CHR ''l'' # s) = Some (TNull, s)"
  "next_token (CHR ''t'' # CHR ''r'' # CHR ''u'' # CHR ''e'' # s) = Some (TTrue, s)"
  "next_token (CHR ''f'' # CHR ''a'' # CHR ''l'' # CHR ''s'' # CHR ''e'' # s) = Some (TFalse, s)"
  by (simp_all add: next_token_def is_space_def strip_prefix_def)

lemma number_end_simps [simp]:
  "number_end []" "number_end (CHR '','' # s)" "number_end (CHR '']'' # s)" "number_end (CHR ''}'' # s)"
  "number_end (CHR 0x0A # s)"
  by (simp_all add: number_end_def is_digit_def)

lemma number_end_nl: "number_end s \<Longrightarrow> number_end (nl p n @ s)"
  by (simp add: nl_def)

lemma pstep_scalar:
  assumes "takes_value m" "scalar t = Some j"
  shows "pstep fs m t = push_value j fs"
  using assms by (cases t) (auto simp: pstep_def)

lemma run_scalar:
  assumes "takes_value m" "scalar t = Some j" "next_token s = Some (t, r)" "push_value j fs = Some st"
  shows "run_parser (PState fs m) s = run_parser st r"
  using assms by (simp add: run_parser.simps(2) pstep_scalar)

text \<open>Reading printed text, for every stack below the nesting limit and every continuation.\<close>

lemma run_print:
  "\<lbrakk>printable d j; d + length fs \<le> maxNestingDepth; takes_value m; push_value j fs = Some st; number_end r\<rbrakk>
     \<Longrightarrow> run_parser (PState fs m) (print_json p n j @ r) = run_parser st r"
  "\<lbrakk>list_all (printable d) js; js \<noteq> []; d + Suc (length fs) \<le> maxNestingDepth; takes_value m; number_end r\<rbrakk>
     \<Longrightarrow> run_parser (PState (FArr acc # fs) m) (print_elems p n js @ r) =
         run_parser (PState (FArr (acc @ js) # fs) MComma) r"
  "\<lbrakk>list_all (\<lambda>m. utf8_valid (fst m) \<and> printable d (snd m)) ms; ms \<noteq> [];
     d + Suc (length fs) \<le> maxNestingDepth; m = MKey \<or> m = MKeyOrEnd; number_end r\<rbrakk>
     \<Longrightarrow> run_parser (PState (FObj macc None # fs) m) (print_members p n ms @ r) =
         run_parser (PState (FObj (macc @ ms) None # fs) MComma) r"
proof (induction p n j and p n js and p n ms arbitrary: d fs m st r and d fs m r acc and d fs m r macc
    rule: print_json_print_elems_print_members.induct)
  case (1 p n)
  then show ?case using run_scalar [OF _ _ next_token_literals(1), of m JNull fs st r] by simp
next
  case (2 p n b)
  then show ?case
    using run_scalar [OF _ _ next_token_literals(2), of m "JBool True" fs st r]
      run_scalar [OF _ _ next_token_literals(3), of m "JBool False" fs st r] by (cases b) simp_all
next
  case (3 p n l)
  then obtain i where l: "l = itoa i" by auto
  with 3 run_scalar [OF _ _ next_token_number [of r i], of m "JNum l" fs st] show ?case by simp
next
  case (4 p n s)
  then show ?case using run_scalar [OF _ _ next_token_string [of s r], of m "JStr s" fs st] by simp
next
  case (5 p n js)
  have op: "run_parser (PState fs m) (CHR ''['' # s) = run_parser (PState (FArr [] # fs) MValueOrEnd) s" for s
    using 5 by (simp add: run_parser.simps(2) pstep_def open_frame_def)
  have cl: "run_parser (PState (FArr js # fs) m') (CHR '']'' # r) = run_parser st r"
    if "m' = MValueOrEnd \<or> m' = MComma" for m'
    using 5 that by (auto simp: run_parser.simps(2) pstep_def takes_value_def)
  show ?case
  proof (cases "js = []")
    case True
    with op cl show ?thesis by simp
  next
    case False
    with 5(1) [of "d - 1" fs MValueOrEnd "nl p n @ CHR '']'' # r" "[]"] 5(2-) op cl show ?thesis
      by (simp add: takes_value_def number_end_nl)
  qed
next
  case (6 p n ms)
  have op: "run_parser (PState fs m) (CHR ''{'' # s) = run_parser (PState (FObj [] None # fs) MKeyOrEnd) s" for s
    using 6 by (simp add: run_parser.simps(2) pstep_def open_frame_def)
  have cl: "run_parser (PState (FObj ms None # fs) m') (CHR ''}'' # r) = run_parser st r"
    if "m' = MKeyOrEnd \<or> m' = MComma" for m'
    using 6 that by (auto simp: run_parser.simps(2) pstep_def takes_value_def)
  show ?case
  proof (cases "ms = []")
    case True
    with op cl show ?thesis by simp
  next
    case False
    with 6(1) [of "d - 1" fs MKeyOrEnd "nl p n @ CHR ''}'' # r" "[]"] 6(2-) op cl show ?thesis
      by (simp add: number_end_nl)
  qed
next
  case (7 p n)
  then show ?case by simp
next
  case (8 p n j js)
  have first: "run_parser (PState (FArr acc # fs) m) (print_json p n j @ r') =
      run_parser (PState (FArr (acc @ [j]) # fs) MComma) r'" if "number_end r'" for r'
    using 8 that by (intro 8(1)) auto
  show ?case
  proof (cases "js = []")
    case True
    with first 8 show ?thesis by simp
  next
    case False
    have "run_parser (PState (FArr (acc @ [j]) # fs) MComma) (CHR '','' # nl p n @ print_elems p n js @ r) =
        run_parser (PState (FArr (acc @ [j]) # fs) MValue) (print_elems p n js @ r)"
      by (subst run_parser.simps(2)) (simp add: pstep_def takes_value_def)
    with first False 8(2) [OF False, of d fs MValue r "acc @ [j]"] 8(3-) show ?thesis
      by (simp add: takes_value_def)
  qed
next
  case (9 p n)
  then show ?case by simp
next
  case (10 p n k j ms)
  have key: "run_parser (PState (FObj macc None # fs) m) (quote_string k @ s) =
      run_parser (PState (FObj macc (Some k) # fs) MColon) s" for s
    using 10 by (subst run_parser.simps(2)) (auto simp: next_token_string pstep_def takes_value_def)
  have colon: "run_parser (PState (FObj macc (Some k) # fs) MColon) (CHR '':'' # (if p then '' '' else []) @ s) =
      run_parser (PState (FObj macc (Some k) # fs) MValue) s" for s
    by (subst run_parser.simps(2))
      (simp add: pstep_def takes_value_def run_parser.simps(2) next_token_space is_space_def)
  have "run_parser (PState (FObj macc (Some k) # fs) MValue) (print_json p n j @ r') =
      run_parser (PState (FObj (macc @ [(k, j)]) None # fs) MComma) r'" if "number_end r'" for r'
    using 10 that by (intro 10(1)) (auto simp: takes_value_def)
  note first = key colon this
  show ?case
  proof (cases "ms = []")
    case True
    with first 10 show ?thesis by simp
  next
    case False
    have "run_parser (PState (FObj (macc @ [(k, j)]) None # fs) MComma) (CHR '','' # nl p n @ print_members p n ms @ r) =
        run_parser (PState (FObj (macc @ [(k, j)]) None # fs) MKey) (print_members p n ms @ r)"
      by (subst run_parser.simps(2)) (simp add: pstep_def takes_value_def)
    with first False 10(2) [OF False, of d fs MKey r "macc @ [(k, j)]"] 10(3-) show ?thesis by simp
  qed
qed

text \<open>Printing and reading is the identity, whatever follows a value that is no number.\<close>

lemma parse_print:
  assumes "printable maxNestingDepth j" "number_end r"
  shows "parse_json (print_json p n j @ r) = Some (j, r)"
  using run_print(1) [OF assms(1), of "[]" MValue "PDone j" r p n] assms(2)
  by (simp add: parse_json_def takes_value_def)

text \<open>After the closing brace of an object nothing more is looked at.\<close>

lemma parse_print_object:
  assumes "printable maxNestingDepth (JObj ms)"
  shows "parse_json (print_json p n (JObj ms) @ r) = Some (JObj ms, r)"
proof -
  have op: "run_parser (PState [] MValue) (CHR ''{'' # s) = run_parser (PState [FObj [] None] MKeyOrEnd) s" for s
    by (simp add: run_parser.simps(2) pstep_def open_frame_def takes_value_def maxNestingDepth_def)
  have cl: "run_parser (PState [FObj ms None] m) (CHR ''}'' # r) = Some (JObj ms, r)"
    if "m = MKeyOrEnd \<or> m = MComma" for m
    using that by (auto simp: run_parser.simps(2) pstep_def takes_value_def)
  show ?thesis
  proof (cases "ms = []")
    case True
    with op cl show ?thesis by (simp add: parse_json_def)
  next
    case False
    have "run_parser (PState [FObj [] None] MKeyOrEnd) (print_members p (Suc n) ms @ nl p n @ CHR ''}'' # r) =
        run_parser (PState [FObj ms None] MComma) (nl p n @ CHR ''}'' # r)"
      using run_print(3) [of "maxNestingDepth - 1" ms "[]" MKeyOrEnd "nl p n @ CHR ''}'' # r" "[]" p "Suc n"] assms False
      by (simp add: number_end_nl maxNestingDepth_def)
    with False op cl show ?thesis by (simp add: parse_json_def)
  qed
qed

section \<open>What is read is valid UTF-8\<close>

fun json_ok :: "json \<Rightarrow> bool" where
  "json_ok (JStr s) = utf8_valid s"
| "json_ok (JArr js) = list_all json_ok js"
| "json_ok (JObj ms) = list_all (\<lambda>m. utf8_valid (fst m) \<and> json_ok (snd m)) ms"
| "json_ok _ = True"

lemma utf8_valid_take_rune: "0 < rune_width s \<Longrightarrow> utf8_valid (take (rune_width s) s)"
  using rune_width_prefix [of s "[]"] utf8_valid_rune [of "take (rune_width s) s"] by simp

lemma utf8_valid_unquote: "utf8_valid (unquote is)"
proof (induction "is" rule: unquote.induct)
  case (2 n "is")
  then show ?case
    using utf8_valid_replacement [of "[]"]
    by (auto simp: utf8_valid_append utf8_valid_encode_rune split: list.splits item.splits)
next
  case (3 c "is")
  show ?case
  proof (cases "ord c < 128")
    case True
    with 3 utf8_valid_rune [of "c # unquote is"] show ?thesis by (simp add: rune_width_1)
  next
    case False
    with 3 utf8_valid_take_rune [of "c # raw_run is"] show ?thesis
      by (auto simp: Let_def utf8_valid_append simp del: take_Suc_Cons)
  qed
qed simp

definition token_ok :: "token \<Rightarrow> bool" where
  "token_ok t \<longleftrightarrow> (case t of TStr s \<Rightarrow> utf8_valid s | _ \<Rightarrow> True)"

fun frame_ok :: "frame \<Rightarrow> bool" where
  "frame_ok (FArr js) = list_all json_ok js"
| "frame_ok (FObj ms k) = (list_all (\<lambda>m. utf8_valid (fst m) \<and> json_ok (snd m)) ms \<and> (k = None \<or> utf8_valid (the k)))"

fun pstate_ok :: "pstate \<Rightarrow> bool" where
  "pstate_ok (PDone j) = json_ok j"
| "pstate_ok (PState fs m) = list_all frame_ok fs"

lemma next_token_ok: "next_token s = Some (t, r) \<Longrightarrow> token_ok t"
  by (auto simp: next_token_def token_ok_def utf8_valid_unquote split: list.splits if_splits token.splits)

lemma push_value_ok: "push_value j fs = Some st \<Longrightarrow> json_ok j \<Longrightarrow> list_all frame_ok fs \<Longrightarrow> pstate_ok st"
  by (induction j fs rule: push_value.induct) auto

lemma scalar_ok: "scalar t = Some j \<Longrightarrow> token_ok t \<Longrightarrow> json_ok j"
  by (cases t) (auto simp: token_ok_def)

lemma pstep_ok: "pstep fs m t = Some st \<Longrightarrow> list_all frame_ok fs \<Longrightarrow> token_ok t \<Longrightarrow> pstate_ok st"
  by (auto simp: pstep_def open_frame_def token_ok_def
      split: if_splits token.splits list.splits frame.splits dest!: push_value_ok dest: scalar_ok)

lemma run_parser_ok: "run_parser st s = Some (j, r) \<Longrightarrow> pstate_ok st \<Longrightarrow> json_ok j"
proof (induction st s rule: run_parser.induct)
  case (2 fs m s)
  from 2(2) obtain t s' st where "next_token s = Some (t, s')" "pstep fs m t = Some st" "run_parser st s' = Some (j, r)"
    by (auto simp: run_parser.simps(2) split: option.splits)
  with 2(1,3) pstep_ok next_token_ok show ?case by (metis pstate_ok.simps(2))
qed simp

lemma parse_json_ok: "parse_json s = Some (j, r) \<Longrightarrow> json_ok j"
  by (auto simp: parse_json_def dest: run_parser_ok)

end
