(* ===== verification/Go_Rfc3339.thy ===== *)
theory Go_Rfc3339
  imports Go_Time Go_Text
begin

text \<open>
  The text form of a \<open>time.Time\<close> in JSON: \<open>MarshalJSON\<close> prints RFC 3339 with the fraction of
  the second without trailing zeros, for years of four digits; \<open>parseRFC3339\<close> reads it. A time is
  an instant here, so the offset of its location, in seconds, is an argument of the printer. The
  calendar is the proleptic Gregorian one.
\<close>

section \<open>Calendar\<close>

definition is_leap :: "int \<Rightarrow> bool" where
  "is_leap y \<longleftrightarrow> y mod 4 = 0 \<and> (y mod 100 \<noteq> 0 \<or> y mod 400 = 0)"

definition month_lengths :: "int \<Rightarrow> nat list" where
  "month_lengths y = [31, if is_leap y then 29 else 28, 31, 30, 31, 30, 31, 31, 30, 31, 30, 31]"

text \<open>The days from the first of January of year 0 to that of a year.\<close>

definition days_before_year :: "int \<Rightarrow> int" where
  "days_before_year y = 365 * y + (y + 3) div 4 - (y + 99) div 100 + (y + 399) div 400"

text \<open>The average year has 146097/400 days; the estimate is off by one at most.\<close>

definition year_of_day :: "int \<Rightarrow> int" where
  "year_of_day n =
     (let y = n * 400 div 146097
      in if n < days_before_year y then y - 1
         else if days_before_year (y + 1) \<le> n then y + 1
         else y)"

text \<open>Month (from 0) and day in the month (from 0) of a day in the year (from 0).\<close>

fun find_month :: "nat list \<Rightarrow> nat \<Rightarrow> nat \<times> nat" where
  "find_month [] d = (0, d)"
| "find_month (l # ls) d = (if d < l then (0, d) else apfst Suc (find_month ls (d - l)))"

definition date_of_day :: "int \<Rightarrow> int \<times> nat \<times> nat" where
  "date_of_day n =
     (let y = year_of_day n; md = find_month (month_lengths y) (nat (n - days_before_year y))
      in (y, Suc (fst md), Suc (snd md)))"

definition day_of_date :: "int \<Rightarrow> nat \<Rightarrow> nat \<Rightarrow> int" where
  "day_of_date y m d = days_before_year y + int (sum_list (take (m - 1) (month_lengths y))) + int d - 1"

text \<open>The first of January 1970 in days from the first of January of year 0.\<close>

definition epoch_day :: int where "epoch_day = 719528"

lemma div_step:
  fixes x k :: int
  assumes "0 < k"
  shows "(x + 1) div k = x div k + (if (x + 1) mod k = 0 then 1 else 0)"
proof (cases "x mod k + 1 = k")
  case True
  then have "x + 1 = k * (x div k + 1) + 0" using mult_div_mod_eq [of k x] unfolding distrib_left by linarith
  from int_div_pos_eq [OF this] int_mod_pos_eq [OF this] assms
  have "(x + 1) div k = x div k + 1" "(x + 1) mod k = 0" by simp_all
  then show ?thesis by simp
next
  case False
  have r: "x + 1 = k * (x div k) + (x mod k + 1)" "0 \<le> x mod k + 1" "x mod k + 1 < k"
    using False pos_mod_bound [OF assms, of x] pos_mod_sign [OF assms, of x] mult_div_mod_eq [of k x] by linarith+
  have "(x + 1) div k = x div k" "(x + 1) mod k = x mod k + 1"
    using int_div_pos_eq [OF r] int_mod_pos_eq [OF r] by simp_all
  moreover have "x mod k + 1 \<noteq> 0" using pos_mod_sign [OF assms, of x] by linarith
  ultimately show ?thesis by simp
qed

lemma div_bounds: "0 < k \<Longrightarrow> k * (x div k) \<le> x \<and> x < k * (x div k) + k" for x k :: int
  using pos_mod_bound [of k x] pos_mod_sign [of k x] mult_div_mod_eq [of k x] by linarith

lemma days_before_year_Suc:
  "days_before_year (y + 1) = days_before_year y + int (sum_list (month_lengths y))"
proof -
  have q: "y + 1 + 3 = y + 3 + 1" "y + 1 + 99 = y + 99 + 1" "y + 1 + 399 = y + 399 + 1" by simp_all
  have m: "(y + 3 + 1) mod 4 = y mod 4" "(y + 99 + 1) mod 100 = y mod 100" "(y + 399 + 1) mod 400 = y mod 400" by simp_all
  have k: "0 < (4 :: int)" "0 < (100 :: int)" "0 < (400 :: int)" by simp_all
  have "days_before_year (y + 1) = days_before_year y + 365 + (if y mod 4 = 0 then 1 else 0) -
      (if y mod 100 = 0 then 1 else 0) + (if y mod 400 = 0 then 1 else 0)"
    unfolding days_before_year_def q div_step [OF k(1)] div_step [OF k(2)] div_step [OF k(3)] m by simp
  moreover have "y mod 100 = 0 \<Longrightarrow> y mod 4 = 0" "y mod 400 = 0 \<Longrightarrow> y mod 100 = 0"
    using mod_mod_cancel [of 4 100 y] mod_mod_cancel [of 100 400 y] by simp_all
  then have "365 + (if y mod 4 = 0 then 1 else 0) - (if y mod 100 = 0 then 1 else 0) + (if y mod 400 = 0 then 1 else 0) =
      int (sum_list (month_lengths y))"
    by (cases "y mod 4 = 0"; cases "y mod 100 = 0"; cases "y mod 400 = 0") (simp_all add: month_lengths_def is_leap_def)
  ultimately show ?thesis by linarith
qed

lemma year_of_day_bounds: "days_before_year (year_of_day n) \<le> n \<and> n < days_before_year (year_of_day n + 1)"
proof -
  define y where "y = n * 400 div 146097"
  have y: "146097 * y \<le> n * 400" "n * 400 < 146097 * y + 146097"
    using div_bounds [of 146097 "n * 400"] by (simp_all add: y_def)
  have k: "0 < (4 :: int)" "0 < (100 :: int)" "0 < (400 :: int)" by simp_all
  note b = div_bounds [OF k(1), THEN conjunct1] div_bounds [OF k(1), THEN conjunct2]
    div_bounds [OF k(2), THEN conjunct1] div_bounds [OF k(2), THEN conjunct2]
    div_bounds [OF k(3), THEN conjunct1] div_bounds [OF k(3), THEN conjunct2]
  have lower: "365 * (y - 1) + a - b + c \<le> n"
    if "4 * a \<le> y - 1 + 3" "y - 1 + 99 < 100 * b + 100" "400 * c \<le> y - 1 + 399" for a b c
    using y that by (simp add: algebra_simps)
  have upper: "n < 365 * (y + 2) + a - b + c"
    if "y + 2 + 3 < 4 * a + 4" "100 * b \<le> y + 2 + 99" "y + 2 + 399 < 400 * c + 400" for a b c
    using y that by (simp add: algebra_simps)
  have "days_before_year (y - 1) \<le> n"
    unfolding days_before_year_def by (rule lower; rule b)
  moreover have "n < days_before_year (y + 2)"
    unfolding days_before_year_def by (rule upper; rule b)
  ultimately show ?thesis
    unfolding year_of_day_def y_def [symmetric] Let_def by (auto simp: add.commute)
qed

lemma find_month_ok:
  assumes "d < sum_list ls"
  shows "fst (find_month ls d) < length ls \<and> snd (find_month ls d) < ls ! fst (find_month ls d) \<and>
    sum_list (take (fst (find_month ls d)) ls) + snd (find_month ls d) = d"
  using assms
proof (induction ls d rule: find_month.induct)
  case (2 l ls d)
  then show ?case by (cases "d < l") (auto simp: less_diff_conv2)
qed simp

lemma date_of_day_ok:
  assumes "date_of_day n = (y, m, d)"
  shows "day_of_date y m d = n" and "1 \<le> m" and "m \<le> 12" and "1 \<le> d" and "d \<le> month_lengths y ! (m - 1)"
    and "y = year_of_day n"
proof -
  define k where "k = nat (n - days_before_year (year_of_day n))"
  have k: "int k = n - days_before_year (year_of_day n)" "k < sum_list (month_lengths (year_of_day n))"
    using year_of_day_bounds [of n] by (simp_all add: k_def days_before_year_Suc nat_less_iff)
  have y: "y = year_of_day n" and m: "m = Suc (fst (find_month (month_lengths y) k))"
    and d: "d = Suc (snd (find_month (month_lengths y) k))"
    using assms by (auto simp: date_of_day_def Let_def k_def)
  note f = find_month_ok [OF k(2), folded y]
  have len: "length (month_lengths y) = 12" by (simp add: month_lengths_def)
  show "day_of_date y m d = n"
    using f k(1) by (simp add: day_of_date_def m d flip: y)
  show "1 \<le> m" "m \<le> 12" "1 \<le> d" "d \<le> month_lengths y ! (m - 1)" "y = year_of_day n"
    using f len y by (simp_all add: m d)
qed

section \<open>Digits\<close>

text \<open>The last digits of a number, as many as the field is wide.\<close>

fun digits :: "nat \<Rightarrow> nat \<Rightarrow> string" where
  "digits 0 n = []"
| "digits (Suc w) n = digits w (n div 10) @ [digit_char (n mod 10)]"

fun digits_value :: "nat \<Rightarrow> string \<Rightarrow> nat option" where
  "digits_value acc [] = Some acc"
| "digits_value acc (c # cs) =
     (case digit_value c of None \<Rightarrow> None | Some d \<Rightarrow> digits_value (acc * 10 + d) cs)"

lemma length_digits [simp]: "length (digits w n) = w"
  by (induction w arbitrary: n) simp_all

lemma digits_are_digits: "c \<in> set (digits w n) \<Longrightarrow> digit_value c \<noteq> None"
  by (induction w arbitrary: n) auto

lemma digits_value_append:
  "digits_value acc (s @ t) = (case digits_value acc s of None \<Rightarrow> None | Some m \<Rightarrow> digits_value m t)"
  by (induction s arbitrary: acc) (auto split: option.splits)

lemma digits_value_digits: "n < 10 ^ w \<Longrightarrow> digits_value acc (digits w n) = Some (acc * 10 ^ w + n)"
proof (induction w arbitrary: n)
  case (Suc w)
  then have "digits_value acc (digits w (n div 10)) = Some (acc * 10 ^ w + n div 10)" by simp
  then show ?case by (simp add: digits_value_append algebra_simps)
qed simp

section \<open>Printing\<close>

text \<open>\<open>appendNano\<close> with trailing zeros removed.\<close>

definition fraction :: "nat \<Rightarrow> string" where
  "fraction ns =
     (if ns = 0 then [] else CHR ''.'' # rev (dropWhile (\<lambda>c. c = CHR ''0'') (rev (digits 9 ns))))"

definition zone_text :: "int \<Rightarrow> string" where
  "zone_text off =
     (if off = 0 then ''Z''
      else let m = nat (\<bar>off\<bar> div 60) in
        (if off \<le> - 60 then ''-'' else ''+'') @ digits 2 (m div 60) @ '':'' @ digits 2 (m mod 60))"

definition clock_text :: "nat \<Rightarrow> string" where
  "clock_text s = digits 2 (s div 3600) @ '':'' @ digits 2 (s mod 3600 div 60) @ '':'' @ digits 2 (s mod 60)"

text \<open>\<open>appendStrictRFC3339\<close>: an error when the year or the zone's hour is out of range.\<close>

definition format_rfc3339 :: "int \<Rightarrow> time \<Rightarrow> string option" where
  "format_rfc3339 off t =
     (let lt = t + off * second;
          s = lt div second;
          (y, m, d) = date_of_day (s div 86400 + epoch_day)
      in if y < 0 \<or> 9999 < y \<or> 24 \<le> \<bar>off\<bar> div 3600 then None
         else Some (digits 4 (nat y) @ ''-'' @ digits 2 m @ ''-'' @ digits 2 d @ ''T'' @
           clock_text (nat (s mod 86400)) @ fraction (nat (lt mod second)) @ zone_text off))"

section \<open>Reading\<close>

definition parse_field :: "nat \<Rightarrow> nat \<Rightarrow> string \<Rightarrow> nat option" where
  "parse_field lo hi s =
     (case digits_value 0 s of
        None \<Rightarrow> None
      | Some n \<Rightarrow> if n < lo \<or> hi < n then None else Some n)"

definition is_dec :: "char \<Rightarrow> bool" where "is_dec c \<longleftrightarrow> digit_value c \<noteq> None"

text \<open>\<open>parseNanoseconds\<close>: digits beyond the ninth are dropped.\<close>

definition parse_fraction :: "string \<Rightarrow> nat \<times> string" where
  "parse_fraction s =
     (case s of
        a # b # r \<Rightarrow>
          if a = CHR ''.'' \<and> is_dec b then
            let f = take 9 (takeWhile is_dec (b # r))
            in (the (digits_value 0 f) * 10 ^ (9 - length f), dropWhile is_dec (b # r))
          else (0, s)
      | _ \<Rightarrow> (0, s))"

definition parse_zone :: "string \<Rightarrow> int option" where
  "parse_zone s =
     (if s = ''Z'' then Some 0
      else if length s \<noteq> 6 then None
      else
        (case (parse_field 0 23 (take 2 (drop 1 s)), parse_field 0 59 (take 2 (drop 4 s))) of
           (Some h, Some m) \<Rightarrow>
             if (s ! 0 = CHR ''-'' \<or> s ! 0 = CHR ''+'') \<and> s ! 3 = CHR '':''
             then Some ((if s ! 0 = CHR ''-'' then - 1 else 1) * int ((h * 60 + m) * 60))
             else None
         | _ \<Rightarrow> None))"

definition parse_date :: "string \<Rightarrow> int option" where
  "parse_date s =
     (case (parse_field 0 9999 (take 4 s), parse_field 1 12 (take 2 (drop 5 s))) of
        (Some y, Some m) \<Rightarrow>
          (case parse_field 1 (month_lengths (int y) ! (m - 1)) (take 2 (drop 8 s)) of
             Some d \<Rightarrow> if s ! 4 = CHR ''-'' \<and> s ! 7 = CHR ''-'' then Some (day_of_date (int y) m d) else None
           | None \<Rightarrow> None)
      | _ \<Rightarrow> None)"

definition parse_clock :: "string \<Rightarrow> nat option" where
  "parse_clock s =
     (case (parse_field 0 23 (take 2 s), parse_field 0 59 (take 2 (drop 3 s)), parse_field 0 59 (take 2 (drop 6 s))) of
        (Some h, Some m, Some sec) \<Rightarrow>
          if s ! 2 = CHR '':'' \<and> s ! 5 = CHR '':'' then Some (h * 3600 + m * 60 + sec) else None
      | _ \<Rightarrow> None)"

definition parse_rfc3339 :: "string \<Rightarrow> time option" where
  "parse_rfc3339 s =
     (if length s < 19 \<or> s ! 10 \<noteq> CHR ''T'' then None
      else
        (case (parse_date (take 10 s), parse_clock (take 8 (drop 11 s))) of
           (Some day, Some clock) \<Rightarrow>
             let (ns, rest) = parse_fraction (drop 19 s)
             in map_option (\<lambda>off. ((day - epoch_day) * 86400 + int clock - off) * second + int ns) (parse_zone rest)
         | _ \<Rightarrow> None))"

section \<open>Reading what was printed\<close>

lemma parse_field_digits: "n < 10 ^ w \<Longrightarrow> lo \<le> n \<Longrightarrow> n \<le> hi \<Longrightarrow> parse_field lo hi (digits w n) = Some n"
  by (simp add: parse_field_def digits_value_digits)

lemma parse_clock_text:
  assumes "s < 86400"
  shows "parse_clock (clock_text s) = Some s"
proof -
  have bounds: "s div 3600 < 24" "s mod 3600 div 60 < 60" "s mod 60 < 60"
    using assms by (simp_all add: less_mult_imp_div_less)
  have "parse_field 0 23 (digits 2 (s div 3600)) = Some (s div 3600)"
    "parse_field 0 59 (digits 2 (s mod 3600 div 60)) = Some (s mod 3600 div 60)"
    "parse_field 0 59 (digits 2 (s mod 60)) = Some (s mod 60)"
    using bounds by (simp_all add: parse_field_digits)
  moreover have "s mod 60 = s mod 3600 mod 60" by (simp add: mod_mod_cancel)
  then have "s div 3600 * 3600 + (s mod 3600 div 60 * 60 + s mod 60) = s" by (simp only: div_mult_mod_eq)
  ultimately show ?thesis by (simp add: parse_clock_def clock_text_def nth_append add.assoc)
qed

lemma parse_date_digits:
  assumes "date_of_day n = (y, m, d)" "0 \<le> y" "y \<le> 9999"
  shows "parse_date (digits 4 (nat y) @ ''-'' @ digits 2 m @ ''-'' @ digits 2 d) = Some n"
proof -
  note ok = date_of_day_ok [OF assms(1)]
  have "month_lengths y ! (m - 1) \<le> 31"
  proof -
    have "\<forall>l \<in> set (month_lengths y). l \<le> 31" by (simp add: month_lengths_def)
    moreover have "m - 1 < length (month_lengths y)" using ok(2,3) by (simp add: month_lengths_def)
    ultimately show ?thesis by (metis nth_mem)
  qed
  then have "parse_field 0 9999 (digits 4 (nat y)) = Some (nat y)" "parse_field 1 12 (digits 2 m) = Some m"
    "parse_field 1 (month_lengths (int (nat y)) ! (m - 1)) (digits 2 d) = Some d"
    using ok assms(2,3) by (simp_all add: parse_field_digits)
  then show ?thesis using ok(1) assms(2) by (simp add: parse_date_def nth_append)
qed

definition no_fraction :: "string \<Rightarrow> bool" where
  "no_fraction z \<longleftrightarrow> z \<noteq> [] \<and> \<not> is_dec (hd z) \<and> hd z \<noteq> CHR ''.''"

lemma no_fraction_zone [simp]: "no_fraction (zone_text off)"
  by (simp add: no_fraction_def zone_text_def Let_def is_dec_def digit_value_def)

lemma digits_value_zeros: "digits_value acc (replicate k CHR ''0'') = Some (acc * 10 ^ k)"
proof (induction k arbitrary: acc)
  case (Suc k)
  have "digit_value CHR ''0'' = Some 0" by (simp add: digit_value_def)
  with Suc show ?case by (simp add: algebra_simps)
qed simp

text \<open>The printed digits and the zeros left out.\<close>

lemma fraction_digits:
  assumes "0 < ns" "ns < 10 ^ 9"
  obtains f k v where "fraction ns = CHR ''.'' # f" "f \<noteq> []" "length f + k = 9" "\<forall>c \<in> set f. is_dec c"
    "digits_value 0 f = Some v" "v * 10 ^ k = ns"
proof -
  define g where "g = rev (digits 9 ns)"
  define f where "f = rev (dropWhile (\<lambda>c. c = CHR ''0'') g)"
  define k where "k = length (takeWhile (\<lambda>c. c = CHR ''0'') g)"
  have "takeWhile (\<lambda>c. c = CHR ''0'') g = replicate k CHR ''0''"
    unfolding k_def by (rule replicate_length_same [symmetric]) (auto dest: set_takeWhileD)
  then have g: "g = replicate k CHR ''0'' @ dropWhile (\<lambda>c. c = CHR ''0'') g"
    using takeWhile_dropWhile_id [of "\<lambda>c. c = CHR ''0''" g] by (simp only:)
  have "rev g = f @ replicate k CHR ''0''"
    unfolding f_def by (subst g) (simp only: rev_append rev_replicate)
  then have d: "digits 9 ns = f @ replicate k CHR ''0''" by (simp only: g_def rev_rev_ident)
  have dec: "\<forall>c \<in> set f. is_dec c"
    using digits_are_digits [of _ 9 ns] unfolding d is_dec_def by auto
  have len: "length f + k = 9"
    using arg_cong [OF d, of length] by (simp only: length_digits length_append length_replicate)
  have val: "digits_value 0 (f @ replicate k CHR ''0'') = Some ns"
    using digits_value_digits [OF assms(2), of 0] by (simp only: d mult_zero_left add_0)
  then obtain v where v: "digits_value 0 f = Some v" "v * 10 ^ k = ns"
    by (auto simp: digits_value_append digits_value_zeros split: option.splits)
  have "f \<noteq> []" using v assms(1) by auto
  moreover have "fraction ns = CHR ''.'' # f"
    using assms(1) by (simp only: fraction_def f_def g_def if_False less_numeral_extra) simp
  ultimately show ?thesis using dec len v by (intro that)
qed

lemma parse_fraction_text:
  assumes "ns < 10 ^ 9" "no_fraction z"
  shows "parse_fraction (fraction ns @ z) = (ns, z)"
proof (cases "ns = 0")
  case True
  with assms(2) show ?thesis
    by (auto simp: fraction_def parse_fraction_def no_fraction_def split: list.split)
next
  case False
  then have "0 < ns" by simp
  from fraction_digits [OF this assms(1)] obtain f k v where
    f: "fraction ns = CHR ''.'' # f" "f \<noteq> []" "length f + k = 9" "\<forall>c \<in> set f. is_dec c"
      "digits_value 0 f = Some v" "v * 10 ^ k = ns" by blast
  have "takeWhile is_dec (f @ z) = f" "dropWhile is_dec (f @ z) = z"
    using f(4) assms(2) by (cases z; auto simp: no_fraction_def takeWhile_append2 dropWhile_append2)+
  moreover from f(3) have "9 - length f = k" "take 9 f = f" by simp_all
  ultimately have "(the (digits_value 0 (take 9 (takeWhile is_dec (f @ z)))) * 10 ^ (9 - length (take 9 (takeWhile is_dec (f @ z)))),
      dropWhile is_dec (f @ z)) = (ns, z)"
    using f(5,6) by simp
  moreover from f(2,4) obtain b r where "f @ z = b # r" "is_dec b" by (cases f) auto
  ultimately show ?thesis
    by (simp only: f(1) append_Cons parse_fraction_def list.case Let_def if_True simp_thms)
qed

lemma parse_zone_text:
  assumes "off mod 60 = 0" "\<bar>off\<bar> div 3600 < 24"
  shows "parse_zone (zone_text off) = Some off"
proof (cases "off = 0")
  case True
  then show ?thesis by (simp add: zone_text_def parse_zone_def)
next
  case False
  define m where "m = nat (\<bar>off\<bar> div 60)"
  have abs: "\<bar>off\<bar> = int (m * 60)"
  proof -
    have "60 dvd \<bar>off\<bar>" using assms(1) by (simp add: dvd_eq_mod_eq_0 [symmetric])
    moreover have "0 \<le> \<bar>off\<bar> div 60" by (simp add: pos_imp_zdiv_nonneg_iff)
    ultimately show ?thesis by (simp add: m_def)
  qed
  have "m div 60 < 24"
    using assms(2) by (simp add: abs zdiv_int [symmetric] div_mult2_eq [symmetric])
  then have "parse_field 0 23 (digits 2 (m div 60)) = Some (m div 60)"
    "parse_field 0 59 (digits 2 (m mod 60)) = Some (m mod 60)" by (simp_all add: parse_field_digits less_Suc_eq_le)
  moreover have "off \<le> - 60 \<longrightarrow> - (int m * 60) = off" "\<not> off \<le> - 60 \<longrightarrow> int m * 60 = off"
    using abs False by (cases "m = 0"; auto)+
  ultimately show ?thesis
    using False by (simp add: zone_text_def parse_zone_def m_def [symmetric] Let_def nth_append)
qed

text \<open>A time whose zone is in whole minutes is read back.\<close>

lemma parse_format:
  assumes "format_rfc3339 off t = Some s" "off mod 60 = 0"
  shows "parse_rfc3339 s = Some t"
proof -
  define lt where "lt = t + off * second"
  define sec where "sec = lt div second"
  define ns where "ns = nat (lt mod second)"
  obtain y m d where date: "date_of_day (sec div 86400 + epoch_day) = (y, m, d)" by (metis prod_cases3)
  have r: "0 \<le> y" "y \<le> 9999" "\<bar>off\<bar> div 3600 < 24"
    and s: "s = (digits 4 (nat y) @ ''-'' @ digits 2 m @ ''-'' @ digits 2 d) @ ''T'' @
       clock_text (nat (sec mod 86400)) @ (fraction ns @ zone_text off)"
    using assms(1) date by (auto simp: format_rfc3339_def Let_def lt_def [symmetric] sec_def [symmetric] ns_def split: if_splits)
  let ?date = "digits 4 (nat y) @ ''-'' @ digits 2 m @ ''-'' @ digits 2 d" and ?clock = "clock_text (nat (sec mod 86400))"
  have "0 < second" by (simp add: second_def)
  then have "ns < 10 ^ 9" "int ns = lt mod second"
    using pos_mod_bound [of second lt] pos_mod_sign [of second lt] by (simp_all add: ns_def second_def)
  have len: "length ?date = 10" "length ?clock = 8" by (simp_all add: clock_text_def)
  have parts: "take 10 s = ?date" "s ! 10 = CHR ''T''" "take 8 (drop 11 s) = ?clock"
    "drop 19 s = fraction ns @ zone_text off" "19 \<le> length s"
    unfolding s using len by (simp_all only: take_append drop_append nth_append) simp_all
  have "parse_clock ?clock = Some (nat (sec mod 86400))" by (rule parse_clock_text) (simp add: nat_less_iff)
  moreover have "(sec div 86400 * 86400 + sec mod 86400) * second + lt mod second = t + off * second"
    unfolding sec_def lt_def by (simp only: div_mult_mod_eq)
  ultimately show ?thesis
    using parse_date_digits [OF date r(1,2)] parse_fraction_text [OF \<open>ns < 10 ^ 9\<close>, of "zone_text off"]
      parse_zone_text [OF assms(2) r(3)] \<open>int ns = lt mod second\<close> parts(5)
    by (simp add: parse_rfc3339_def parts(1-4) algebra_simps)
qed

section \<open>What can be printed\<close>

lemma days_before_year_mono: "y \<le> z \<Longrightarrow> days_before_year y \<le> days_before_year z"
proof -
  assume "y \<le> z"
  have "days_before_year (y + int k) \<le> days_before_year (y + int (Suc k))" for k
    using days_before_year_Suc [of "y + int k"] by (simp add: ac_simps)
  then have "days_before_year (y + int 0) \<le> days_before_year (y + int (nat (z - y)))"
    by (rule lift_Suc_mono_le) simp
  with \<open>y \<le> z\<close> show ?thesis by simp
qed

text \<open>A local time from year 0 to year 9999.\<close>

definition printable_time :: "time \<Rightarrow> bool" where
  "printable_time lt \<longleftrightarrow> - 719528 * 86400 * second \<le> lt \<and> lt < 2932897 * 86400 * second"

lemma printable_zero_time: "printable_time zero_time"
  by (simp add: printable_time_def zero_time_def second_def)

lemma div_range:
  fixes k x a b :: int
  assumes "0 < k" "a * k \<le> x" "x < b * k"
  shows "a \<le> x div k" and "x div k < b"
proof -
  have "a * k div k = a" using assms(1) by (intro nonzero_mult_div_cancel_right) simp
  with zdiv_mono1 [OF assms(2,1)] show "a \<le> x div k" by simp
  have "k * (x div k) < k * b"
    using conjunct1 [OF div_bounds [OF assms(1), of x]] assms(3) by (simp only: mult.commute)
  with assms(1) show "x div k < b" by (simp only: mult_less_cancel_left_pos)
qed

lemma second_pos: "0 < 86400 * second" by (simp add: second_def)

lemma format_printable:
  assumes "printable_time (t + off * second)" "\<bar>off\<bar> < 86400"
  shows "\<exists>s. format_rfc3339 off t = Some s"
proof -
  define n where "n = (t + off * second) div second div 86400 + epoch_day"
  obtain y m d where date: "date_of_day n = (y, m, d)" by (metis prod_cases3)
  have "n - epoch_day = (t + off * second) div (86400 * second)"
    by (simp add: n_def second_def zdiv_zmult2_eq)
  moreover have "- 719528 * (86400 * second) \<le> t + off * second" "t + off * second < 2932897 * (86400 * second)"
    using assms(1) by (simp_all add: printable_time_def)
  ultimately have "- 719528 \<le> n - epoch_day" "n - epoch_day < 2932897"
    using div_range [of "86400 * second" "- 719528" "t + off * second" 2932897] by (simp_all only: second_pos)
  then have n: "0 \<le> n" "n < 3652425" by (simp_all add: epoch_day_def)
  have y: "days_before_year y \<le> n" "n < days_before_year (y + 1)"
    using year_of_day_bounds [of n] date_of_day_ok(6) [OF date] by simp_all
  have ends: "days_before_year 0 = 0" "days_before_year 10000 = 3652425" by (simp_all add: days_before_year_def)
  have "0 \<le> y"
  proof (rule ccontr)
    assume "\<not> 0 \<le> y"
    then have "days_before_year (y + 1) \<le> days_before_year 0" by (intro days_before_year_mono) simp
    with y(2) n(1) ends(1) show False by simp
  qed
  moreover have "y \<le> 9999"
  proof (rule ccontr)
    assume "\<not> y \<le> 9999"
    then have "days_before_year 10000 \<le> days_before_year y" by (intro days_before_year_mono) simp
    with y(1) n(2) ends(2) show False by simp
  qed
  moreover have "\<not> 24 \<le> \<bar>off\<bar> div 3600"
    using zdiv_mono1 [of "\<bar>off\<bar>" 86399 3600] assms(2) by simp
  ultimately show ?thesis using date by (simp add: format_rfc3339_def Let_def n_def)
qed

abbreviation ascii :: "string \<Rightarrow> bool" where
  "ascii s \<equiv> list_all (\<lambda>c. of_char c < (128 :: nat)) s"

lemma ascii_digits [simp]: "ascii (digits w n)"
  by (induction w arbitrary: n) (simp_all add: digit_char_def)

lemma ascii_fraction [simp]: "ascii (fraction ns)"
proof -
  have "ascii (rev (dropWhile P (rev (digits 9 ns))))" for P
    using ascii_digits [of 9 ns] by (auto simp only: list_all_iff set_rev dest!: set_dropWhileD)
  then show ?thesis by (simp add: fraction_def)
qed

lemma ascii_clock [simp]: "ascii (clock_text n)"
  by (simp add: clock_text_def)

lemma ascii_zone [simp]: "ascii (zone_text off)"
  by (simp add: zone_text_def Let_def)

lemma ascii_format:
  assumes "format_rfc3339 off t = Some s"
  shows "ascii s"
proof -
  have "ascii (digits 4 y @ ''-'' @ digits 2 m @ ''-'' @ digits 2 d @ ''T'' @ clock_text n @ fraction ns @ zone_text off)"
    for y m d n ns by simp
  then show ?thesis
    using assms by (auto simp: format_rfc3339_def Let_def simp del: list_all_append split: prod.splits if_splits)
qed

end
