(* ===== verification/Probe_Types.thy ===== *)
theory Probe_Types
  imports Go_Time
begin

text \<open>
  \<open>internal/pkg/probe/probe.go\<close>: the protocols, the target of a probe and its result.
  A \<open>Protocol\<close> is a Go string type; the four constants are the protocols the daemon knows,
  but any string of the configuration can become one.
\<close>

type_synonym protocol = string

definition ICMP :: protocol where "ICMP = ''icmp''"
definition TCP :: protocol where "TCP = ''tcp''"
definition UDP :: protocol where "UDP = ''udp''"
definition HTTPS :: protocol where "HTTPS = ''https''"

lemmas protocol_defs = ICMP_def TCP_def UDP_def HTTPS_def

record target =
  tgt_Name :: string
  tgt_Addr :: string
  tgt_TCPPort :: int
  tgt_UDPPort :: int
  tgt_HTTPSURL :: string

record result =
  Timestamp :: time
  Latency :: duration
  OK :: bool
  Err :: string

text \<open>The zero value of the struct, as \<open>make([]probe.Result, n)\<close> fills a buffer with it.\<close>

definition zero_result :: result where
  "zero_result = \<lparr>Timestamp = zero_time, Latency = 0, OK = False, Err = []\<rparr>"

section \<open>The interface of the probers\<close>

text \<open>
  \<open>probe.Prober\<close>: what a prober makes of a target in a world \<open>w\<close> (the answers of network,
  clock and randomness). The classifier counts \<open>OK\<close> and the views show the time of the last
  result: a result carries the start of its probe and a success carries no error.
\<close>

locale prober =
  fixes probe :: "'w \<Rightarrow> target \<Rightarrow> time \<Rightarrow> result"
  assumes probe_start: "Timestamp (probe w t start) = start"
    and probe_ok_no_err: "OK (probe w t start) \<Longrightarrow> Err (probe w t start) = []"
begin

text \<open>Probes started one after the other leave a log in the order of its time stamps.\<close>

lemma log_timestamps:
  "map Timestamp (map (\<lambda>(w, t, start). probe w t start) ps) = map (\<lambda>(w, t, start). start) ps"
  by (simp add: probe_start case_prod_unfold)

lemma log_sorted:
  "sorted (map (\<lambda>(w, t, start). start) ps) \<Longrightarrow>
     sorted (map Timestamp (map (\<lambda>(w, t, start). probe w t start) ps))"
  by (simp only: log_timestamps)

lemma err_not_ok: "Err (probe w t start) \<noteq> [] \<Longrightarrow> \<not> OK (probe w t start)"
  using probe_ok_no_err by blast

end

end
