(* ===== verification/Classifier.thy ===== *)
theory Classifier
  imports Probe_Types
begin

text \<open>
  \<open>internal/pkg/classifier/classifier.go\<close>: the state of a peer from the trailing window of
  its probe results, with the bounds check of the slice expression and the ordering of the
  states by severity.
\<close>

datatype state = Unknown | Up | Degraded | Down

text \<open>\<open>State\<close> is a string type; the classifier returns one of its four constants.\<close>

fun state_text :: "state \<Rightarrow> string" where
  "state_text Unknown = ''unknown''"
| "state_text Up = ''up''"
| "state_text Degraded = ''degraded''"
| "state_text Down = ''down''"

lemma state_text_inject [simp]: "state_text s = state_text t \<longleftrightarrow> s = t"
  by (cases s; cases t) simp_all

section \<open>The classifier\<close>

text \<open>The loop that counts the failed results.\<close>

fun count_fails :: "result list \<Rightarrow> int \<Rightarrow> int" where
  "count_fails [] fails = fails"
| "count_fails (r # rs) fails = count_fails rs (if \<not> OK r then fails + 1 else fails)"

definition Classify :: "result list \<Rightarrow> int \<Rightarrow> int \<Rightarrow> panic + state" where
  "Classify results window threshold =
     (if int (length results) < window then Inr Unknown
      else and_then (slice_from results (int (length results) - window)) (\<lambda>tail.
        let fails = count_fails tail 0
        in Inr (if fails \<ge> threshold then Down
                else if fails = 0 then Up
                else Degraded)))"

section \<open>Severity\<close>

instantiation state :: linorder
begin

fun severity :: "state \<Rightarrow> nat" where
  "severity Unknown = 0"
| "severity Up = 1"
| "severity Degraded = 2"
| "severity Down = 3"

definition less_eq_state :: "state \<Rightarrow> state \<Rightarrow> bool" where
  "less_eq_state s t \<longleftrightarrow> severity s \<le> severity t"

definition less_state :: "state \<Rightarrow> state \<Rightarrow> bool" where
  "less_state s t \<longleftrightarrow> severity s < severity t"

instance
proof
  fix s t u :: state
  show "s < t \<longleftrightarrow> s \<le> t \<and> \<not> t \<le> s" by (auto simp: less_eq_state_def less_state_def)
  show "s \<le> s" by (simp add: less_eq_state_def)
  show "s \<le> t \<Longrightarrow> t \<le> u \<Longrightarrow> s \<le> u" by (simp add: less_eq_state_def)
  show "s \<le> t \<Longrightarrow> t \<le> s \<Longrightarrow> s = t" by (cases s; cases t) (simp_all add: less_eq_state_def)
  show "s \<le> t \<or> t \<le> s" by (auto simp: less_eq_state_def)
qed

end

section \<open>Functional description\<close>

definition failures :: "nat \<Rightarrow> result list \<Rightarrow> nat" where
  "failures w rs = length (filter (\<lambda>r. \<not> OK r) (lastn w rs))"

lemma count_fails_eq: "count_fails rs n = n + int (length (filter (\<lambda>r. \<not> OK r) rs))"
  by (induction rs arbitrary: n) auto

lemma failures_le: "failures w rs \<le> w"
  using length_filter_le [of "\<lambda>r. \<not> OK r" "lastn w rs"] by (simp add: failures_def)

lemma failures_0_iff: "failures w rs = 0 \<longleftrightarrow> (\<forall>r \<in> set (lastn w rs). OK r)"
  by (simp add: failures_def filter_empty_conv)

lemma failures_lastn [simp]: "w \<le> n \<Longrightarrow> failures w (lastn n rs) = failures w rs"
  by (simp add: failures_def min_def)

lemma Classify_short: "int (length rs) < w \<Longrightarrow> Classify rs w th = Inr Unknown"
  by (simp add: Classify_def)

lemma Classify_full:
  assumes "0 \<le> w" "w \<le> int (length rs)"
  shows "Classify rs w th =
    Inr (if int (failures (nat w) rs) \<ge> th then Down
         else if failures (nat w) rs = 0 then Up else Degraded)"
proof -
  have "nat (int (length rs) - w) = length rs - nat w" using assms by arith
  with assms have "slice_from rs (int (length rs) - w) = Inr (lastn (nat w) rs)"
    by (simp add: slice_from_def lastn_def)
  with assms show ?thesis
    by (simp add: Classify_def count_fails_eq failures_def Let_def)
qed

lemma Classify_negative: "w < 0 \<Longrightarrow> Classify rs w th = Inl SliceBoundsOutOfRange"
  by (simp add: Classify_def slice_from_def)

lemma Classify_cases:
  obtains (short) "int (length rs) < w" "Classify rs w th = Inr Unknown"
  | (negative) "w < 0" "Classify rs w th = Inl SliceBoundsOutOfRange"
  | (full) "0 \<le> w" "w \<le> int (length rs)" "Classify rs w th =
      Inr (if int (failures (nat w) rs) \<ge> th then Down
         else if failures (nat w) rs = 0 then Up else Degraded)"
  using Classify_short Classify_negative Classify_full by (metis linorder_not_le)

text \<open>Only the trailing window matters: a log that keeps at least that much loses nothing.\<close>

lemma Classify_lastn:
  assumes "w \<le> int n"
  shows "Classify (lastn n rs) w th = Classify rs w th"
proof -
  have iff: "int (length (lastn n rs)) < w \<longleftrightarrow> int (length rs) < w"
    using assms by auto
  show ?thesis
  proof (cases rs w th rule: Classify_cases)
    case short
    with iff show ?thesis by (simp add: Classify_short)
  next
    case negative
    then show ?thesis by (simp add: Classify_negative)
  next
    case full
    with iff have "w \<le> int (length (lastn n rs))" by simp
    with full assms show ?thesis by (simp add: Classify_full nat_le_iff)
  qed
qed

lemma failures_snoc:
  assumes "w \<le> length rs"
  shows "OK r \<Longrightarrow> failures w (rs @ [r]) \<le> failures w rs"
    and "\<not> OK r \<Longrightarrow> failures w rs \<le> failures w (rs @ [r])"
proof -
  have tail: "lastn w rs = (rs ! (length rs - w)) # lastn (w - 1) rs" if "0 < w"
    using assms that by (simp add: lastn_def Suc_diff_le Cons_nth_drop_Suc flip: Suc_diff_Suc)
  show "OK r \<Longrightarrow> failures w (rs @ [r]) \<le> failures w rs"
    by (cases "w = 0") (auto simp: failures_def lastn_snoc tail)
  show "\<not> OK r \<Longrightarrow> failures w rs \<le> failures w (rs @ [r])"
    by (cases "w = 0") (auto simp: failures_def lastn_snoc tail)
qed

section \<open>Properties\<close>

text \<open>
  C3. With the thresholds the documentation intends (at least one failure, at most the window),
  the classifier never panics and each state means what the package comment says: Unknown
  exactly when there are too few results, Down exactly when the threshold of failures is reached
  in the window, Up exactly when the whole window succeeded, Degraded otherwise.
\<close>

theorem Classify_meaning:
  assumes "0 < th" and "th \<le> w"
  shows "\<exists>s. Classify rs w th = Inr s \<and>
    (s = Unknown \<longleftrightarrow> int (length rs) < w) \<and>
    (s = Down \<longleftrightarrow> w \<le> int (length rs) \<and> th \<le> int (failures (nat w) rs)) \<and>
    (s = Up \<longleftrightarrow> w \<le> int (length rs) \<and> (\<forall>r \<in> set (lastn (nat w) rs). OK r)) \<and>
    (s = Degraded \<longleftrightarrow> w \<le> int (length rs) \<and> 0 < failures (nat w) rs \<and> int (failures (nat w) rs) < th)"
  using assms by (cases rs w th rule: Classify_cases) (auto simp flip: failures_0_iff)

theorem Classify_meaning_witness:
  "\<exists>s. Classify [zero_result, zero_result\<lparr>OK := True\<rparr>] 2 1 = Inr s \<and> s = Down"
  using Classify_meaning [of 1 2 "[zero_result, zero_result\<lparr>OK := True\<rparr>]"]
  by (auto simp: failures_def lastn_def zero_result_def)

text \<open>
  On a full window one more success never worsens the state and one more failure never
  improves it, whatever falls out of the window.
\<close>

theorem Classify_monotone:
  assumes "w \<le> int (length rs)"
    and "Classify rs w th = Inr s" and "Classify (rs @ [r]) w th = Inr s'"
  shows "if OK r then s' \<le> s else s \<le> s'"
proof -
  have w: "0 \<le> w" using assms(2) Classify_negative [of w rs th] by fastforce
  then have "nat w \<le> length rs" using assms(1) by arith
  note mono = failures_snoc [OF this, of r]
  from assms w have "s = (if int (failures (nat w) rs) \<ge> th then Down
      else if failures (nat w) rs = 0 then Up else Degraded)"
    and "s' = (if int (failures (nat w) (rs @ [r])) \<ge> th then Down
      else if failures (nat w) (rs @ [r]) = 0 then Up else Degraded)"
    by (simp_all add: Classify_full)
  then show ?thesis
    by (cases "OK r") (use mono in \<open>simp_all add: less_eq_state_def\<close>)
qed

theorem Classify_monotone_witness:
  "Up \<le> Down \<and> Classify [zero_result\<lparr>OK := True\<rparr>, zero_result] 1 1 = Inr Down"
proof -
  have a: "Classify [zero_result\<lparr>OK := True\<rparr>] 1 1 = Inr Up"
    and b: "Classify ([zero_result\<lparr>OK := True\<rparr>] @ [zero_result]) 1 1 = Inr Down"
    by (simp_all add: Classify_def slice_from_def zero_result_def Let_def)
  show ?thesis
    using Classify_monotone [OF _ a b] b by (simp add: zero_result_def)
qed

end
