(* ===== verification/Store.thy ===== *)
theory Store
  imports Probe_Types
begin

text \<open>
  \<open>internal/pkg/store/store.go\<close>: the ring buffer of one (peer, protocol) key and the store
  that holds a ring per key. The mutex makes every operation one atomic step. The ring refines
  the log "the last \<open>n\<close> values pushed", an interface that is interpreted twice: by the ring
  itself and by the store at a fixed key.
\<close>

section \<open>The ring buffer\<close>

record 'a ring =
  buf :: "'a list"
  head :: nat
  full :: bool

text \<open>\<open>make([]probe.Result, n)\<close> panics for a negative length; the fields start at zero.\<close>

definition newRing :: "'a \<Rightarrow> int \<Rightarrow> panic + 'a ring" where
  "newRing zero n =
     (if n < 0 then Inl (InvalidArgument ''makeslice: len out of range'')
      else Inr \<lparr>buf = replicate (nat n) zero, head = 0, full = False\<rparr>)"

definition push :: "'a \<Rightarrow> 'a ring \<Rightarrow> panic + 'a ring" where
  "push v r =
     (if head r < length (buf r) then
        let r1 = r\<lparr>buf := (buf r)[head r := v]\<rparr>;
            r2 = r1\<lparr>head := (head r1 + 1) mod length (buf r1)\<rparr>
        in Inr (if head r2 = 0 then r2\<lparr>full := True\<rparr> else r2)
      else Inl IndexOutOfRange)"

definition snapshot :: "'a \<Rightarrow> 'a ring \<Rightarrow> panic + 'a list" where
  "snapshot zero r =
     (if \<not> full r then
        and_then (slice_to (buf r) (int (head r))) (\<lambda>src.
          Inr (copy (replicate (head r) zero) src))
      else
        let out = replicate (length (buf r)) zero
        in and_then (slice_from (buf r) (int (head r))) (\<lambda>src1.
             let out1 = copy out src1;
                 off = length (buf r) - head r
             in and_then (slice_to (buf r) (int (head r))) (\<lambda>src2.
                  Inr (take off out1 @ copy (drop off out1) src2))))"

text \<open>The invariant and the contents, oldest first.\<close>

definition ring_inv :: "'a ring \<Rightarrow> bool" where
  "ring_inv r \<longleftrightarrow> head r < length (buf r)"

definition ring_list :: "'a ring \<Rightarrow> 'a list" where
  "ring_list r = (if full r then drop (head r) (buf r) @ take (head r) (buf r) else take (head r) (buf r))"

lemma newRing_ok: "0 < n \<Longrightarrow> \<exists>r. newRing z n = Inr r \<and> ring_inv r \<and> length (buf r) = nat n \<and> ring_list r = []"
  by (simp add: newRing_def ring_inv_def ring_list_def)

lemma snapshot_ok: "ring_inv r \<Longrightarrow> snapshot z r = Inr (ring_list r)"
  by (simp add: snapshot_def ring_inv_def ring_list_def slice_to_def slice_from_def copy_def Let_def)

lemma push_ok:
  assumes "ring_inv r"
  shows "\<exists>r'. push v r = Inr r' \<and> ring_inv r' \<and> length (buf r') = length (buf r) \<and>
    ring_list r' = lastn (length (buf r)) (ring_list r @ [v])"
proof -
  let ?n = "length (buf r)" and ?h = "head r"
  from assms have h: "?h < ?n" by (simp add: ring_inv_def)
  then have n: "0 < ?n" by auto
  have upd: "(buf r)[?h := v] = take ?h (buf r) @ v # drop (Suc ?h) (buf r)"
    using h by (simp add: upd_conv_take_nth_drop)
  show ?thesis
  proof (cases "Suc ?h = ?n")
    case True
    have "ring_list r @ [v] = take ?h (buf r) @ [v]" if "\<not> full r"
      using that by (simp add: ring_list_def)
    moreover have "ring_list r @ [v] = (buf r ! ?h) # take ?h (buf r) @ [v]" if "full r"
      using that h True by (simp add: ring_list_def Cons_nth_drop_Suc [symmetric])
    ultimately show ?thesis
      using h True upd
      by (cases "full r") (auto simp: push_def Let_def ring_inv_def ring_list_def lastn_def)
  next
    case False
    with h have sh: "Suc ?h < ?n" by simp
    have "ring_list r @ [v] = (buf r ! ?h) # drop (Suc ?h) (buf r) @ take ?h (buf r) @ [v]" if "full r"
      using that h by (simp add: ring_list_def Cons_nth_drop_Suc [symmetric])
    moreover have "Suc (Suc (?n - Suc 0)) - ?n = 1" using n by arith
    ultimately show ?thesis using sh upd h
      by (cases "full r")
        (auto simp: push_def Let_def ring_inv_def ring_list_def lastn_def min_def)
  qed
qed

section \<open>The interface: a log that keeps the last values\<close>

text \<open>
  Pushing never fails on a well-formed log, keeps it well-formed and its capacity, and leaves the
  last \<open>capacity\<close> values, oldest first.
\<close>

locale bounded_log =
  fixes add :: "'v \<Rightarrow> 'l \<Rightarrow> panic + 'l"
    and items :: "'l \<Rightarrow> panic + 'v list"
    and inv :: "'l \<Rightarrow> bool"
    and capacity :: "'l \<Rightarrow> nat"
    and contents :: "'l \<Rightarrow> 'v list"
  assumes add_ok: "inv l \<Longrightarrow> \<exists>l'. add v l = Inr l' \<and> inv l' \<and> capacity l' = capacity l \<and>
      contents l' = lastn (capacity l) (contents l @ [v])"
    and items_ok: "inv l \<Longrightarrow> items l = Inr (contents l)"
    and contents_bound: "inv l \<Longrightarrow> length (contents l) \<le> capacity l"
begin

lemma add_all_ok:
  assumes "inv l"
  shows "\<exists>l'. run_all add vs l = Inr l' \<and> inv l' \<and> capacity l' = capacity l \<and>
    contents l' = lastn (capacity l) (contents l @ vs)"
  using assms
proof (induction vs arbitrary: l)
  case Nil
  then show ?case by (simp add: lastn_all contents_bound)
next
  case (Cons v vs)
  from add_ok [OF Cons.prems] obtain l1 where l1: "add v l = Inr l1" "inv l1"
    "capacity l1 = capacity l" "contents l1 = lastn (capacity l) (contents l @ [v])" by blast
  from Cons.IH [OF l1(2)] obtain l2 where l2: "run_all add vs l1 = Inr l2" "inv l2"
    "capacity l2 = capacity l1" "contents l2 = lastn (capacity l1) (contents l1 @ vs)" by blast
  have "contents l2 = lastn (capacity l) (contents l @ v # vs)"
    using l1 l2 lastn_lastn_append [of "capacity l" "contents l @ [v]" vs] by simp
  with l1 l2 show ?case by simp
qed

lemma items_add_all:
  assumes "inv l" "run_all add vs l = Inr l'"
  shows "items l' = Inr (lastn (capacity l) (contents l @ vs))"
  using add_all_ok [OF assms(1), of vs] assms(2) items_ok by fastforce

end

lemma ring_list_bound: "ring_inv r \<Longrightarrow> length (ring_list r) \<le> length (buf r)"
  by (auto simp: ring_list_def ring_inv_def)

interpretation ring: bounded_log push "snapshot z" ring_inv "\<lambda>r. length (buf r)" ring_list
  by unfold_locales (simp_all add: push_ok snapshot_ok ring_list_bound)

section \<open>The store\<close>

record key =
  Peer :: string
  Protocol :: protocol

record store =
  cap :: int
  bufs :: "key \<rightharpoonup> result ring"

definition New_store :: "int \<Rightarrow> store" where
  "New_store capacity = \<lparr>cap = (if capacity < 1 then 1 else capacity), bufs = Map.empty\<rparr>"

definition Append :: "string \<Rightarrow> protocol \<Rightarrow> result \<Rightarrow> store \<Rightarrow> panic + store" where
  "Append peer p r s =
     (let k = \<lparr>Peer = peer, Protocol = p\<rparr>
      in and_then (case bufs s k of
                     Some b \<Rightarrow> Inr (b, s)
                   | None \<Rightarrow> and_then (newRing zero_result (cap s)) (\<lambda>b.
                       Inr (b, s\<lparr>bufs := (bufs s)(k \<mapsto> b)\<rparr>)))
           (\<lambda>(b, s1). and_then (push r b) (\<lambda>b'.
              Inr (s1\<lparr>bufs := (bufs s1)(k \<mapsto> b')\<rparr>))))"

text \<open>\<open>nil\<close> for an unknown key.\<close>

definition Snapshot :: "string \<Rightarrow> protocol \<Rightarrow> store \<Rightarrow> panic + result list option" where
  "Snapshot peer p s =
     (let k = \<lparr>Peer = peer, Protocol = p\<rparr>
      in (case bufs s k of
            None \<Rightarrow> Inr None
          | Some b \<Rightarrow> and_then (snapshot zero_result b) (\<lambda>xs. Inr (Some xs))))"

text \<open>
  \<open>Keys\<close> appends every key in the iteration order of the Go map, which is any enumeration of
  the keys: it is the first argument.
\<close>

definition map_order :: "('k \<rightharpoonup> 'v) \<Rightarrow> 'k list \<Rightarrow> bool" where
  "map_order m ks \<longleftrightarrow> distinct ks \<and> set ks = dom m"

definition Keys :: "key list \<Rightarrow> store \<Rightarrow> key list" where
  "Keys order s = foldl (\<lambda>out k. out @ [k]) [] (filter (\<lambda>k. bufs s k \<noteq> None) order)"

definition store_inv :: "store \<Rightarrow> bool" where
  "store_inv s \<longleftrightarrow> 1 \<le> cap s \<and>
     (\<forall>k r. bufs s k = Some r \<longrightarrow> ring_inv r \<and> length (buf r) = nat (cap s))"

definition store_log :: "key \<Rightarrow> store \<Rightarrow> result list" where
  "store_log k s = (case bufs s k of None \<Rightarrow> [] | Some r \<Rightarrow> ring_list r)"

definition append_key :: "key \<times> result \<Rightarrow> store \<Rightarrow> panic + store" where
  "append_key kr s = Append (Peer (fst kr)) (Protocol (fst kr)) (snd kr) s"

definition snapshot_key :: "key \<Rightarrow> store \<Rightarrow> panic + result list option" where
  "snapshot_key k s = Snapshot (Peer k) (Protocol k) s"

lemma key_eta [simp]: "\<lparr>Peer = Peer k, Protocol = Protocol k\<rparr> = k"
  by (cases k) simp

lemma store_inv_New [simp]: "store_inv (New_store c)"
  by (simp add: store_inv_def New_store_def)

lemma store_log_New [simp]: "store_log k (New_store c) = []"
  by (simp add: store_log_def New_store_def)

lemma Append_ok:
  assumes "store_inv s"
  shows "\<exists>s'. append_key (k, v) s = Inr s' \<and> store_inv s' \<and> cap s' = cap s \<and>
    dom (bufs s') = insert k (dom (bufs s)) \<and>
    store_log k s' = lastn (nat (cap s)) (store_log k s @ [v]) \<and>
    (\<forall>k'. k' \<noteq> k \<longrightarrow> bufs s' k' = bufs s k')"
proof -
  from assms have c: "1 \<le> cap s" by (simp add: store_inv_def)
  obtain b where b: "ring_inv b" "length (buf b) = nat (cap s)" "ring_list b = store_log k s"
    and pick: "(bufs s k = Some b) \<or> (bufs s k = None \<and> newRing zero_result (cap s) = Inr b)"
  proof (cases "bufs s k")
    case None
    with newRing_ok [of "cap s" zero_result] c that show ?thesis
      by (auto simp: store_log_def)
  next
    case (Some b)
    with assms that show ?thesis by (auto simp: store_inv_def store_log_def)
  qed
  from ring.add_ok [OF b(1), of v] obtain b' where b': "push v b = Inr b'" "ring_inv b'"
    "length (buf b') = length (buf b)" "ring_list b' = lastn (length (buf b)) (ring_list b @ [v])"
    by blast
  have "append_key (k, v) s = Inr (s\<lparr>bufs := (bufs s)(k \<mapsto> b')\<rparr>)"
    using pick b'(1) by (auto simp: append_key_def Append_def Let_def)
  with assms b b' show ?thesis
    by (auto simp: store_inv_def store_log_def)
qed

lemma Snapshot_ok:
  "store_inv s \<Longrightarrow> snapshot_key k s = Inr (if bufs s k = None then None else Some (store_log k s))"
  by (auto simp: snapshot_key_def Snapshot_def store_inv_def store_log_def snapshot_ok
      split: option.splits)

lemma Keys_order:
  assumes "map_order (bufs s) order"
  shows "Keys order s = order"
proof -
  have "filter (\<lambda>k. bufs s k \<noteq> None) order = order"
    using assms by (auto simp: map_order_def filter_id_conv domIff)
  moreover have "foldl (\<lambda>out k. out @ [k]) acc xs = acc @ xs" for acc xs :: "key list"
    by (induction xs arbitrary: acc) auto
  ultimately show ?thesis by (simp add: Keys_def)
qed

text \<open>The store at one key is a bounded log.\<close>

definition snapshot_list :: "key \<Rightarrow> store \<Rightarrow> panic + result list" where
  "snapshot_list k s = and_then (snapshot_key k s) (\<lambda>found. Inr (case found of None \<Rightarrow> [] | Some xs \<Rightarrow> xs))"

lemma store_log_bound: "store_inv s \<Longrightarrow> length (store_log k s) \<le> nat (cap s)"
  using ring_list_bound by (fastforce simp: store_inv_def store_log_def split: option.splits)

interpretation slog: bounded_log "\<lambda>v. append_key (k, v)" "snapshot_list k" store_inv
    "\<lambda>s. nat (cap s)" "store_log k"
proof
  fix s v
  assume inv: "store_inv s"
  then show "\<exists>s'. append_key (k, v) s = Inr s' \<and> store_inv s' \<and> nat (cap s') = nat (cap s) \<and>
      store_log k s' = lastn (nat (cap s)) (store_log k s @ [v])"
    using Append_ok [OF inv, of k v] by auto
  show "snapshot_list k s = Inr (store_log k s)"
    using inv by (auto simp: snapshot_list_def Snapshot_ok store_log_def split: option.splits)
  show "length (store_log k s) \<le> nat (cap s)"
    using inv by (rule store_log_bound)
qed

text \<open>Appends to any keys, in any order: each key keeps the end of its own history.\<close>

definition history :: "key \<Rightarrow> (key \<times> result) list \<Rightarrow> result list" where
  "history k ops = map snd (filter (\<lambda>op. fst op = k) ops)"

lemma history_simps [simp]:
  "history k [] = []"
  "history k ((k', v) # ops) = (if k' = k then v # history k ops else history k ops)"
  by (simp_all add: history_def)

lemma store_run:
  assumes "store_inv s"
  shows "\<exists>s'. run_all append_key ops s = Inr s' \<and> store_inv s' \<and> cap s' = cap s \<and>
    dom (bufs s') = fst ` set ops \<union> dom (bufs s) \<and>
    (\<forall>k. store_log k s' = lastn (nat (cap s)) (store_log k s @ history k ops))"
  using assms
proof (induction ops arbitrary: s)
  case Nil
  then show ?case by (simp add: lastn_all store_log_bound)
next
  case (Cons op ops)
  obtain k v where op: "op = (k, v)" by (cases op)
  from Append_ok [OF Cons.prems, of k v] obtain s1 where s1: "append_key (k, v) s = Inr s1"
    "store_inv s1" "cap s1 = cap s" "dom (bufs s1) = insert k (dom (bufs s))"
    "store_log k s1 = lastn (nat (cap s)) (store_log k s @ [v])"
    "\<forall>k'. k' \<noteq> k \<longrightarrow> bufs s1 k' = bufs s k'" by blast
  from Cons.IH [OF s1(2)] obtain s2 where s2: "run_all append_key ops s1 = Inr s2" "store_inv s2"
    "cap s2 = cap s1" "dom (bufs s2) = fst ` set ops \<union> dom (bufs s1)"
    "\<forall>k'. store_log k' s2 = lastn (nat (cap s1)) (store_log k' s1 @ history k' ops)" by blast
  have "store_log k' s2 = lastn (nat (cap s)) (store_log k' s @ history k' (op # ops))" for k'
  proof (cases "k' = k")
    case True
    with s1 s2 op show ?thesis
      using lastn_lastn_append [of "nat (cap s)" "store_log k s @ [v]" "history k ops"] by simp
  next
    case False
    with s1 have "store_log k' s1 = store_log k' s" by (simp add: store_log_def)
    with False s1 s2 op show ?thesis by simp
  qed
  with s1 s2 op show ?case by auto
qed

section \<open>Properties\<close>

text \<open>
  C4. The functional behaviour of the whole store: after any sequence of appends to any keys it
  has not panicked, and the snapshot of a key is the last \<open>max(1, capacity)\<close> results
  appended to that key, oldest first (nil for a key never appended to).
\<close>

theorem store_keeps_last:
  "\<exists>s. run_all append_key ops (New_store c) = Inr s \<and>
     (\<forall>k. snapshot_key k s =
        Inr (if k \<in> fst ` set ops then Some (lastn (nat (max 1 c)) (history k ops)) else None))"
proof -
  from store_run [OF store_inv_New] obtain s where s: "run_all append_key ops (New_store c) = Inr s"
    "store_inv s" "dom (bufs s) = fst ` set ops \<union> dom (bufs (New_store c))"
    "\<forall>k. store_log k s = lastn (nat (cap (New_store c))) (store_log k (New_store c) @ history k ops)"
    by blast
  then have "bufs s k = None \<longleftrightarrow> k \<notin> fst ` set ops" for k
    by (auto simp: New_store_def)
  moreover have "cap (New_store c) = max 1 c" by (simp add: New_store_def)
  ultimately show ?thesis
    using s by (auto simp: Snapshot_ok)
qed

end
