(* ===== verification/Scheduler.thy ===== *)
theory Scheduler
  imports Store "HOL-Library.Multiset"
begin

text \<open>
  \<open>internal/pkg/scheduler/scheduler.go\<close> and \<open>internal/pkg/recoverwrap\<close>: one ticker
  goroutine per job sends the job into a bounded channel after each (jittered) interval, a pool of
  workers takes jobs, probes, and appends the results to the store. The goroutines are modelled as
  an interleaving of atomic steps, one per channel operation, \<open>select\<close> branch and probe;
  which step comes next is the trace. A goroutine that panics ends, as \<open>recoverwrap.Go\<close> makes it.
\<close>

section \<open>Jobs and configuration\<close>

record 'p job =
  J_Peer :: string
  J_Protocol :: protocol
  J_Target :: target
  J_Prober :: 'p

record sched_config =
  Interval :: duration
  Jitter :: int
  Workers :: int
  Timeout :: duration

record 'p scheduler =
  sch_cfg :: sched_config
  sch_jobs :: "'p job list"
  sch_store :: store

definition New_sched :: "sched_config \<Rightarrow> 'p job list \<Rightarrow> store \<Rightarrow> 'p scheduler" where
  "New_sched cfg jobs st =
     \<lparr>sch_cfg = (if Workers cfg < 1 then cfg\<lparr>Workers := 1\<rparr> else cfg), sch_jobs = jobs, sch_store = st\<rparr>"

text \<open>
  The next waiting time. \<open>rv\<close> is the random draw: \<open>rand.Int63n(n)\<close> is \<open>rv mod n\<close> and
  panics for \<open>n \<le> 0\<close>. All products and sums are 64-bit.
\<close>

definition next_delay :: "sched_config \<Rightarrow> nat \<Rightarrow> panic + duration" where
  "next_delay cfg rv =
     (let base = Interval cfg in
      if Jitter cfg \<le> 0 then Inr base
      else
        let delta = quot (wrap64 (base * Jitter cfg)) 100 in
        if delta = 0 then Inr base
        else
          let n = wrap64 (2 * delta + 1) in
          if n \<le> 0 then Inl (InvalidArgument ''invalid argument to Int63n'')
          else
            let jit = wrap64 (int rv mod n - delta)
            in Inr (wrap64 (base + jit)))"

section \<open>The running scheduler\<close>

text \<open>
  Where a ticker is: about to compute its delay, waiting for the timer, waiting to send, or ended;
  and where a worker is: waiting for a job, probing (with the probe's deadline), or ended.
\<close>

datatype ticker = TNext | TWait duration | TSend | TDone

datatype 'p worker = WIdle | WBusy "'p job" "duration option" | WExited | WPanicked panic

text \<open>\<open>st_fault\<close> is the last panic that ended a ticker.\<close>

record 'p sched =
  st_cancelled :: bool
  st_tickers :: "ticker list"
  st_queue :: "'p job list"
  st_closed :: bool
  st_workers :: "'p worker list"
  st_store :: store
  st_returned :: bool
  st_fault :: "panic option"

datatype 'p sched_event =
    Cancel
  | Tick nat nat
  | Fire nat
  | Send nat
  | TickerStop nat
  | CloseJobs
  | Take nat "'p job"
  | Finish nat "'p job" result
  | ProberPanic nat "'p job" panic
  | WorkerExit nat
  | RunReturn

definition sched_init :: "'p scheduler \<Rightarrow> 'p sched" where
  "sched_init sc =
     \<lparr>st_cancelled = False, st_tickers = replicate (length (sch_jobs sc)) TNext, st_queue = [],
      st_closed = False, st_workers = replicate (nat (Workers (sch_cfg sc))) WIdle,
      st_store = sch_store sc, st_returned = False, st_fault = None\<rparr>"

definition set_ticker :: "nat \<Rightarrow> ticker \<Rightarrow> 'p sched \<Rightarrow> 'p sched" where
  "set_ticker i t s = s\<lparr>st_tickers := (st_tickers s)[i := t]\<rparr>"

definition set_worker :: "nat \<Rightarrow> 'p worker \<Rightarrow> 'p sched \<Rightarrow> 'p sched" where
  "set_worker i w s = s\<lparr>st_workers := (st_workers s)[i := w]\<rparr>"

definition probe_deadline :: "sched_config \<Rightarrow> duration option" where
  "probe_deadline cfg = (if Timeout cfg > 0 then Some (Timeout cfg) else None)"

text \<open>One loop iteration of \<open>tickerLoop\<close>, step by step.\<close>

definition ticker_next :: "'p scheduler \<Rightarrow> nat \<Rightarrow> nat \<Rightarrow> 'p sched \<Rightarrow> 'p sched option" where
  "ticker_next sc i rv s =
     (if i < length (st_tickers s) \<and> st_tickers s ! i = TNext then
        (case next_delay (sch_cfg sc) rv of
           Inr d \<Rightarrow> Some (set_ticker i (TWait d) s)
         | Inl p \<Rightarrow> Some ((set_ticker i TDone s)\<lparr>st_fault := Some p\<rparr>))
      else None)"

definition ticker_fire :: "nat \<Rightarrow> 'p sched \<Rightarrow> 'p sched option" where
  "ticker_fire i s =
     (if i < length (st_tickers s) \<and> (case st_tickers s ! i of TWait d \<Rightarrow> True | _ \<Rightarrow> False)
      then Some (set_ticker i TSend s) else None)"

definition ticker_send :: "'p scheduler \<Rightarrow> nat \<Rightarrow> 'p sched \<Rightarrow> 'p sched option" where
  "ticker_send sc i s =
     (if i < length (st_tickers s) \<and> st_tickers s ! i = TSend then
        (if st_closed s then Some ((set_ticker i TDone s)\<lparr>st_fault := Some SendOnClosedChannel\<rparr>)
         else if length (st_queue s) < length (sch_jobs sc)
           then Some ((set_ticker i TNext s)\<lparr>st_queue := st_queue s @ [sch_jobs sc ! i]\<rparr>)
         else None)
      else None)"

definition ticker_stop :: "nat \<Rightarrow> 'p sched \<Rightarrow> 'p sched option" where
  "ticker_stop i s =
     (if i < length (st_tickers s) \<and> st_cancelled s \<and>
         (case st_tickers s ! i of TWait d \<Rightarrow> True | TSend \<Rightarrow> True | _ \<Rightarrow> False)
      then Some (set_ticker i TDone s) else None)"

text \<open>The loop of \<open>worker\<close>.\<close>

definition worker_take :: "'p scheduler \<Rightarrow> nat \<Rightarrow> 'p job \<Rightarrow> 'p sched \<Rightarrow> 'p sched option" where
  "worker_take sc i j s =
     (if i < length (st_workers s) \<and> st_workers s ! i = WIdle \<and> st_queue s \<noteq> [] \<and> hd (st_queue s) = j
      then Some ((set_worker i (WBusy j (probe_deadline (sch_cfg sc))) s)\<lparr>st_queue := tl (st_queue s)\<rparr>)
      else None)"

definition is_busy :: "'p job \<Rightarrow> 'p worker \<Rightarrow> bool" where
  "is_busy j w = (case w of WBusy j' _ \<Rightarrow> j' = j | _ \<Rightarrow> False)"

definition worker_finish :: "nat \<Rightarrow> 'p job \<Rightarrow> result \<Rightarrow> 'p sched \<Rightarrow> 'p sched option" where
  "worker_finish i j r s =
     (if i < length (st_workers s) \<and> is_busy j (st_workers s ! i) then
        (case Append (J_Peer j) (J_Protocol j) r (st_store s) of
           Inl p \<Rightarrow> Some (set_worker i (WPanicked p) s)
         | Inr st \<Rightarrow> Some ((set_worker i WIdle s)\<lparr>st_store := st\<rparr>))
      else None)"

definition worker_panic :: "nat \<Rightarrow> 'p job \<Rightarrow> panic \<Rightarrow> 'p sched \<Rightarrow> 'p sched option" where
  "worker_panic i j p s =
     (if i < length (st_workers s) \<and> is_busy j (st_workers s ! i)
      then Some (set_worker i (WPanicked p) s) else None)"

definition worker_exit :: "nat \<Rightarrow> 'p sched \<Rightarrow> 'p sched option" where
  "worker_exit i s =
     (if i < length (st_workers s) \<and> st_workers s ! i = WIdle \<and> st_queue s = [] \<and> st_closed s
      then Some (set_worker i WExited s) else None)"

definition worker_ended :: "'p worker \<Rightarrow> bool" where
  "worker_ended w = (case w of WExited \<Rightarrow> True | WPanicked _ \<Rightarrow> True | _ \<Rightarrow> False)"

text \<open>
  The calling goroutine of \<open>Run\<close> waits for the tickers, closes the channel, and waits for the workers.
\<close>

definition run_close :: "'p sched \<Rightarrow> 'p sched option" where
  "run_close s =
     (if list_all (\<lambda>t. t = TDone) (st_tickers s) \<and> \<not> st_closed s then Some (s\<lparr>st_closed := True\<rparr>) else None)"

definition run_return :: "'p sched \<Rightarrow> 'p sched option" where
  "run_return s =
     (if st_closed s \<and> list_all worker_ended (st_workers s) \<and> \<not> st_returned s
      then Some (s\<lparr>st_returned := True\<rparr>) else None)"

fun sched_step :: "'p scheduler \<Rightarrow> 'p sched_event \<Rightarrow> 'p sched \<Rightarrow> 'p sched option" where
  "sched_step sc Cancel s = Some (s\<lparr>st_cancelled := True\<rparr>)"
| "sched_step sc (Tick i rv) s = ticker_next sc i rv s"
| "sched_step sc (Fire i) s = ticker_fire i s"
| "sched_step sc (Send i) s = ticker_send sc i s"
| "sched_step sc (TickerStop i) s = ticker_stop i s"
| "sched_step sc CloseJobs s = run_close s"
| "sched_step sc (Take i j) s = worker_take sc i j s"
| "sched_step sc (Finish i j r) s = worker_finish i j r s"
| "sched_step sc (ProberPanic i j p) s = worker_panic i j p s"
| "sched_step sc (WorkerExit i) s = worker_exit i s"
| "sched_step sc RunReturn s = run_return s"

text \<open>The runs: a trace and the state it leads to.\<close>

inductive sched_run :: "'p scheduler \<Rightarrow> 'p sched_event list \<Rightarrow> 'p sched \<Rightarrow> bool" for sc where
  start: "sched_run sc [] (sched_init sc)"
| step: "sched_run sc es s \<Longrightarrow> sched_step sc e s = Some s' \<Longrightarrow> sched_run sc (es @ [e]) s'"

inductive_cases sched_run_snocE: "sched_run sc (es @ [e]) s"

section \<open>What a trace did\<close>

fun sent_by :: "'p scheduler \<Rightarrow> 'p sched_event \<Rightarrow> 'p job list" where
  "sent_by sc (Send i) = [sch_jobs sc ! i]"
| "sent_by sc _ = []"

fun taken_by :: "'p sched_event \<Rightarrow> 'p job list" where
  "taken_by (Take i j) = [j]"
| "taken_by _ = []"

fun finished_by :: "'p sched_event \<Rightarrow> ('p job \<times> result) list" where
  "finished_by (Finish i j r) = [(j, r)]"
| "finished_by _ = []"

fun panicked_by :: "'p sched_event \<Rightarrow> 'p job list" where
  "panicked_by (ProberPanic i j p) = [j]"
| "panicked_by _ = []"

definition sent :: "'p scheduler \<Rightarrow> 'p sched_event list \<Rightarrow> 'p job list" where
  "sent sc es = concat (map (sent_by sc) es)"

definition taken :: "'p sched_event list \<Rightarrow> 'p job list" where
  "taken es = concat (map taken_by es)"

definition finished :: "'p sched_event list \<Rightarrow> ('p job \<times> result) list" where
  "finished es = concat (map finished_by es)"

definition panicked :: "'p sched_event list \<Rightarrow> 'p job list" where
  "panicked es = concat (map panicked_by es)"

definition job_key :: "'p job \<Rightarrow> key" where
  "job_key j = \<lparr>Peer = J_Peer j, Protocol = J_Protocol j\<rparr>"

definition appends :: "'p sched_event list \<Rightarrow> (key \<times> result) list" where
  "appends es = map (\<lambda>jr. (job_key (fst jr), snd jr)) (finished es)"

lemma trace_simps [simp]:
  "sent sc [] = []" "taken [] = []" "finished [] = []" "panicked [] = []"
  "sent sc (es @ [e]) = sent sc es @ sent_by sc e" "taken (es @ [e]) = taken es @ taken_by e"
  "finished (es @ [e]) = finished es @ finished_by e" "panicked (es @ [e]) = panicked es @ panicked_by e"
  by (simp_all add: sent_def taken_def finished_def panicked_def)

fun busy_job :: "'p worker \<Rightarrow> 'p job multiset" where
  "busy_job (WBusy j d) = {#j#}"
| "busy_job _ = {#}"

definition busy :: "'p sched \<Rightarrow> 'p job multiset" where
  "busy s = sum_list (map busy_job (st_workers s))"

section \<open>Invariants\<close>

lemma is_busy_iff: "is_busy j w \<longleftrightarrow> (\<exists>d. w = WBusy j d)"
  by (cases w) (auto simp: is_busy_def)

lemma busy_set_worker:
  "i < length (st_workers s) \<Longrightarrow> busy (set_worker i w s) + busy_job (st_workers s ! i) = busy s + busy_job w"
  using sum_list_update_swap [of i "map busy_job (st_workers s)" "busy_job w"]
  by (simp add: busy_def set_worker_def map_update)

lemma sched_fields [simp]:
  "st_workers (set_ticker i t s) = st_workers s" "st_queue (set_ticker i t s) = st_queue s"
  "st_closed (set_ticker i t s) = st_closed s" "st_store (set_ticker i t s) = st_store s"
  "st_cancelled (set_ticker i t s) = st_cancelled s" "st_returned (set_ticker i t s) = st_returned s"
  "st_fault (set_ticker i t s) = st_fault s" "st_tickers (set_ticker i t s) = (st_tickers s)[i := t]"
  "st_tickers (set_worker i w s) = st_tickers s" "st_queue (set_worker i w s) = st_queue s"
  "st_closed (set_worker i w s) = st_closed s" "st_store (set_worker i w s) = st_store s"
  "st_cancelled (set_worker i w s) = st_cancelled s" "st_returned (set_worker i w s) = st_returned s"
  "st_fault (set_worker i w s) = st_fault s" "st_workers (set_worker i w s) = (st_workers s)[i := w]"
  by (simp_all add: set_ticker_def set_worker_def)

lemma busy_cong: "st_workers s = st_workers s' \<Longrightarrow> busy s = busy s'"
  by (simp add: busy_def)

lemmas step_defs = ticker_next_def ticker_fire_def ticker_send_def ticker_stop_def worker_take_def
  worker_finish_def worker_panic_def worker_exit_def run_close_def run_return_def

text \<open>The channel: first in, first out, nothing lost, never more than one slot per job.\<close>

lemma run_queue:
  "sched_run sc es s \<Longrightarrow> st_fault s \<noteq> Some SendOnClosedChannel \<and>
     length (st_tickers s) = length (sch_jobs sc) \<and>
     (st_closed s \<longrightarrow> list_all (\<lambda>t. t = TDone) (st_tickers s)) \<and>
     sent sc es = taken es @ st_queue s \<and> length (st_queue s) \<le> length (sch_jobs sc)"
proof (induction rule: sched_run.induct)
  case start
  then show ?case by (simp add: sched_init_def)
next
  case (step es s e s')
  have "t = TDone" if "st_closed s" "i < length (st_tickers s)" "st_tickers s ! i = t" for i t
    using that step.IH by (auto simp: list_all_length)
  with step show ?case
    by (cases e)
      (fastforce simp: step_defs next_delay_def Let_def split: if_splits option.splits sum.splits ticker.splits)+
qed

text \<open>Every job taken is being probed, was finished, or was lost to a panic of its prober.\<close>

lemma busy_simps [simp]:
  "busy (s\<lparr>st_cancelled := b\<rparr>) = busy s" "busy (s\<lparr>st_closed := b\<rparr>) = busy s"
  "busy (s\<lparr>st_queue := q\<rparr>) = busy s" "busy (s\<lparr>st_store := st\<rparr>) = busy s"
  "busy (s\<lparr>st_returned := b\<rparr>) = busy s" "busy (s\<lparr>st_fault := f\<rparr>) = busy s"
  "busy (set_ticker i t s) = busy s"
  by (simp_all add: busy_def set_ticker_def)

lemma busy_event:
  assumes "sched_step sc e s = Some s'"
  shows "busy s' + mset (map fst (finished_by e)) + mset (panicked_by e) = busy s + mset (taken_by e)"
proof (cases e)
  case (Take i j)
  with assms busy_set_worker [of i s "WBusy j (probe_deadline (sch_cfg sc))"] show ?thesis
    by (auto simp: worker_take_def split: if_splits)
next
  case (Finish i j r)
  with assms obtain d where i: "i < length (st_workers s)" "st_workers s ! i = WBusy j d"
    by (auto simp: worker_finish_def is_busy_iff split: if_splits)
  from Finish assms i show ?thesis
    using busy_set_worker [OF i(1), of WIdle] busy_set_worker [OF i(1)]
    by (auto simp: worker_finish_def is_busy_iff split: sum.splits)
next
  case (ProberPanic i j p)
  with assms obtain d where i: "i < length (st_workers s)" "st_workers s ! i = WBusy j d"
    by (auto simp: worker_panic_def is_busy_iff split: if_splits)
  from ProberPanic assms i show ?thesis
    using busy_set_worker [OF i(1), of "WPanicked p"]
    by (auto simp: worker_panic_def is_busy_iff)
next
  case (WorkerExit i)
  with assms busy_set_worker [of i s WExited] show ?thesis
    by (auto simp: worker_exit_def split: if_splits)
qed (use assms in \<open>auto simp: step_defs split: if_splits sum.splits\<close>)

lemma run_jobs:
  "sched_run sc es s \<Longrightarrow>
     mset (taken es) = mset (map fst (finished es)) + mset (panicked es) + busy s"
proof (induction rule: sched_run.induct)
  case start
  have "sum_list (replicate n {#}) = ({#} :: 'p job multiset)" for n by (induction n) auto
  then have "busy (sched_init sc) = {#}"
    by (simp add: busy_def sched_init_def)
  then show ?case by simp
next
  case (step es s e s')
  from step.IH busy_event [OF step.hyps(2)] show ?case
    by (simp add: ac_simps)
qed

text \<open>The store is exactly what appending the finished results, in order, makes of it.\<close>

lemma append_key_job: "append_key (job_key j, r) st = Append (J_Peer j) (J_Protocol j) r st"
  by (simp add: append_key_def job_key_def)

lemma store_event:
  assumes "sched_step sc e s = Some s'" "store_inv (st_store s)"
  shows "run_all append_key (appends [e]) (st_store s) = Inr (st_store s')"
proof (cases e)
  case (Finish i j r)
  from Append_ok [OF assms(2), of "job_key j" r] obtain st where
    "Append (J_Peer j) (J_Protocol j) r (st_store s) = Inr st"
    by (auto simp: append_key_job)
  with Finish assms show ?thesis
    by (auto simp: appends_def finished_def worker_finish_def append_key_job split: if_splits)
qed (use assms in \<open>auto simp: appends_def finished_def step_defs split: if_splits sum.splits\<close>)

lemma run_store:
  assumes "sched_run sc es s" "store_inv (sch_store sc)"
  shows "run_all append_key (appends es) (sch_store sc) = Inr (st_store s)"
    and "store_inv (st_store s)"
proof -
  have "run_all append_key (appends es) (sch_store sc) = Inr (st_store s) \<and> store_inv (st_store s)"
    using assms(1)
  proof (induction rule: sched_run.induct)
    case start
    then show ?case using assms(2) by (simp add: sched_init_def appends_def)
  next
    case (step es s e s')
    have e: "run_all append_key (appends [e]) (st_store s) = Inr (st_store s')"
      using store_event [OF step.hyps(2)] step.IH by blast
    have "appends (es @ [e]) = appends es @ appends [e]"
      by (simp add: appends_def finished_def)
    moreover have "store_inv (st_store s')"
      using store_run [of "st_store s" "appends [e]"] step.IH e by auto
    ultimately show ?case using e step.IH by (simp add: run_all_append)
  qed
  then show "run_all append_key (appends es) (sch_store sc) = Inr (st_store s)"
    and "store_inv (st_store s)" by auto
qed

text \<open>Why a goroutine ended, and what the return of \<open>Run\<close> means.\<close>

lemma in_set_updateE:
  assumes "x \<in> set (xs[i := y])"
  obtains "x = y" | "x \<in> set xs"
  using assms set_update_subset_insert [of xs i y] by blast

lemma run_ticker_ended:
  "sched_run sc es s \<Longrightarrow> TDone \<in> set (st_tickers s) \<Longrightarrow> st_cancelled s \<or> st_fault s \<noteq> None"
proof (induction rule: sched_run.induct)
  case start
  then show ?case by (auto simp: sched_init_def)
next
  case (step es s e s')
  then show ?case
    by (cases e) (auto simp: step_defs split: if_splits sum.splits elim!: in_set_updateE)
qed

lemma run_worker_exited:
  "sched_run sc es s \<Longrightarrow> WExited \<in> set (st_workers s) \<Longrightarrow> st_closed s \<and> st_queue s = []"
proof (induction rule: sched_run.induct)
  case start
  then show ?case by (auto simp: sched_init_def)
next
  case (step es s e s')
  have "st_tickers s ! i = TDone" if "st_closed s" "i < length (st_tickers s)" for i
    using run_queue [OF step.hyps(1)] that by (auto simp: list_all_length)
  with step show ?case
    by (cases e) (auto simp: step_defs split: if_splits sum.splits elim!: in_set_updateE)
qed

lemma worker_ended_stays:
  assumes "sched_step sc e s = Some s'" "list_all worker_ended (st_workers s)"
  shows "st_workers s' = st_workers s"
proof -
  have "st_workers s ! i \<noteq> WIdle" "\<not> is_busy j (st_workers s ! i)" if "i < length (st_workers s)" for i j
    using assms(2) that by (auto simp: list_all_length worker_ended_def is_busy_iff split: worker.splits)
  with assms(1) show ?thesis
    by (cases e) (auto simp: step_defs split: if_splits sum.splits)
qed

lemma closed_stays: "sched_step sc e s = Some s' \<Longrightarrow> st_closed s \<Longrightarrow> st_closed s'"
  by (cases e) (auto simp: step_defs split: if_splits sum.splits)

lemma returned_step: "sched_step sc e s = Some s' \<Longrightarrow> st_returned s' \<Longrightarrow> st_returned s \<or>
    st_closed s' \<and> list_all worker_ended (st_workers s')"
  by (cases e) (auto simp: step_defs split: if_splits sum.splits)

lemma run_returned:
  "sched_run sc es s \<Longrightarrow> st_returned s \<Longrightarrow> st_closed s \<and> list_all worker_ended (st_workers s)"
proof (induction rule: sched_run.induct)
  case start
  then show ?case by (simp add: sched_init_def)
next
  case (step es s e s')
  from returned_step [OF step.hyps(2) step.prems] step.IH worker_ended_stays [OF step.hyps(2)]
    closed_stays [OF step.hyps(2)] show ?case by auto
qed

text \<open>A worker that panicked was probing a job (a well-formed store never panics).\<close>

lemma run_worker_panicked:
  assumes "sched_run sc es s" "store_inv (sch_store sc)" "WPanicked p \<in> set (st_workers s)"
  shows "panicked es \<noteq> []"
  using assms(1,3)
proof (induction rule: sched_run.induct)
  case start
  then show ?case by (auto simp: sched_init_def)
next
  case (step es s e s')
  show ?case
  proof (cases e)
    case (Finish i j r)
    from Append_ok [OF run_store(2) [OF step.hyps(1) assms(2)], of "job_key j" r] obtain st where
      "Append (J_Peer j) (J_Protocol j) r (st_store s) = Inr st"
      by (auto simp: append_key_job)
    with step Finish show ?thesis
      by (auto simp: worker_finish_def split: if_splits elim!: in_set_updateE)
  qed (use step in \<open>auto simp: step_defs split: if_splits sum.splits elim!: in_set_updateE\<close>)
qed

text \<open>Only configured jobs travel through the channel.\<close>

lemma run_sent:
  "sched_run sc es s \<Longrightarrow> set (sent sc es) \<subseteq> set (sch_jobs sc)"
proof (induction rule: sched_run.induct)
  case (step es s e s')
  have "length (st_tickers s) = length (sch_jobs sc)" using run_queue [OF step.hyps(1)] by blast
  with step show ?case
    by (cases e) (auto simp: ticker_send_def split: if_splits)
qed simp

lemma run_finished:
  assumes "sched_run sc es s"
  shows "fst ` set (finished es) \<subseteq> set (sch_jobs sc)"
proof -
  have "set (taken es) \<subseteq> set (sent sc es)" using run_queue [OF assms] by auto
  moreover have "fst ` set (finished es) \<subseteq> set (taken es)"
    using run_jobs [OF assms, THEN arg_cong, of set_mset] by auto
  ultimately show ?thesis using run_sent [OF assms] by blast
qed

lemma run_worker_count:
  "sched_run sc es s \<Longrightarrow> length (st_workers s) = nat (Workers (sch_cfg sc))"
proof (induction rule: sched_run.induct)
  case start
  then show ?case by (simp add: sched_init_def)
next
  case (step es s e s')
  then show ?case by (cases e) (auto simp: step_defs split: if_splits sum.splits)
qed

text \<open>With the store in good order, a return without a prober's panic leaves no job behind.\<close>

lemma returned_complete:
  assumes "sched_run sc es s" "st_returned s" "store_inv (sch_store sc)" "0 < Workers (sch_cfg sc)"
    and "panicked es = []"
  shows "st_queue s = []" and "busy s = {#}"
proof -
  from run_returned [OF assms(1,2)] have ended: "list_all worker_ended (st_workers s)" by blast
  have "w = WExited" if "w \<in> set (st_workers s)" for w
    using ended that run_worker_panicked [OF assms(1,3)] assms(5)
    by (cases w) (auto simp: list_all_iff worker_ended_def)
  moreover have "st_workers s \<noteq> []"
    using run_worker_count [OF assms(1)] assms(4) by auto
  ultimately have all: "\<forall>w \<in> set (st_workers s). w = WExited" "WExited \<in> set (st_workers s)"
    by (blast, metis list.set_intros(1) neq_Nil_conv)
  from run_worker_exited [OF assms(1) all(2)] show "st_queue s = []" by blast
  have "sum_list (map busy_job ws) = {#}" if "\<forall>w \<in> set ws. w = WExited" for ws :: "'a worker list"
    using that by (induction ws) auto
  with all(1) show "busy s = {#}" by (simp add: busy_def)
qed

lemma New_sched_simps [simp]:
  "sch_jobs (New_sched cfg jobs st) = jobs" "sch_store (New_sched cfg jobs st) = st"
  "0 < Workers (sch_cfg (New_sched cfg jobs st))"
  "next_delay (sch_cfg (New_sched cfg jobs st)) = next_delay cfg"
  by (auto simp: New_sched_def next_delay_def [abs_def] Let_def)

text \<open>A scheduler whose delay always panics sends nothing.\<close>

lemma run_no_delay:
  assumes "\<And>rv. \<exists>p. next_delay (sch_cfg sc) rv = Inl p"
  shows "sched_run sc es s \<Longrightarrow> sent sc es = [] \<and> set (st_tickers s) \<subseteq> {TNext, TDone}"
proof (induction rule: sched_run.induct)
  case start
  then show ?case by (auto simp: sched_init_def)
next
  case (step es s e s')
  then have at: "st_tickers s ! i = TNext \<or> st_tickers s ! i = TDone" if "i < length (st_tickers s)" for i
    using that nth_mem [OF that] by blast
  show ?case
  proof (cases e)
    case (Tick i rv)
    obtain p where "next_delay (sch_cfg sc) rv = Inl p" using assms by blast
    with Tick step show ?thesis
      by (auto simp: ticker_next_def split: if_splits elim!: in_set_updateE)
  next
    case (Fire i)
    with step at [of i] show ?thesis by (auto simp: ticker_fire_def split: if_splits)
  next
    case (Send i)
    with step at [of i] show ?thesis by (auto simp: ticker_send_def split: if_splits)
  next
    case (TickerStop i)
    with step at [of i] show ?thesis by (auto simp: ticker_stop_def split: if_splits)
  qed (use step in \<open>auto simp: step_defs split: if_splits sum.splits\<close>)
qed

section \<open>The delay\<close>

definition jitter_span :: "sched_config \<Rightarrow> int" where
  "jitter_span cfg = (if Jitter cfg \<le> 0 then 0 else Interval cfg * Jitter cfg div 100)"

lemma next_delay_value:
  assumes "0 \<le> Interval cfg" "Jitter cfg \<le> 100" "Interval cfg * 100 \<le> max_int64"
  shows "next_delay cfg rv =
    Inr (Interval cfg + (int rv mod (2 * jitter_span cfg + 1) - jitter_span cfg))"
proof (cases "Jitter cfg \<le> 0")
  case True
  then show ?thesis by (simp add: next_delay_def jitter_span_def)
next
  case False
  let ?b = "Interval cfg" and ?p = "Interval cfg * Jitter cfg" and ?D = "jitter_span cfg"
  have p: "0 \<le> ?p" "?p \<le> ?b * 100"
    using False assms by (auto intro: mult_left_mono)
  have quot: "quot (wrap64 ?p) 100 = ?D"
  proof -
    have "is_int64 ?p" using p assms(3) by (simp add: is_int64_def min_int64_def)
    then have "quot (wrap64 ?p) 100 = sgn ?p * (?p div 100)"
      using p(1) by (simp add: quot_def wrap64_id)
    also have "sgn x * (x div 100) = x div 100" if "0 \<le> x" for x :: int
      using that by (simp add: sgn_if)
    then have "sgn ?p * (?p div 100) = ?p div 100" using p(1) by blast
    finally show ?thesis using False by (simp add: jitter_span_def)
  qed
  have D: "0 \<le> ?D" "?D \<le> ?b"
    using p False by (auto simp: jitter_span_def intro: zdiv_mono1 [of ?p "?b * 100" 100, simplified])
  let ?j = "int rv mod (2 * ?D + 1) - ?D"
  have j: "- ?D \<le> ?j" "?j \<le> ?D"
    using D(1) pos_mod_bound [of "2 * ?D + 1" "int rv"] pos_mod_sign [of "2 * ?D + 1" "int rv"] by auto
  have b: "?b * 100 \<le> 9223372036854775807" using assms(3) by (simp add: max_int64_def)
  have fits: "is_int64 (2 * ?D + 1)" "is_int64 ?j" "is_int64 (?b + ?j)"
    by (rule is_int64I; use j D b in linarith)+
  show ?thesis
    using False quot D fits
    by (simp add: next_delay_def Let_def wrap64_id del: mult_2 mult_2_right)
qed

lemma next_delay_range:
  assumes "0 \<le> Interval cfg" "Jitter cfg \<le> 100" "Interval cfg * 100 \<le> max_int64"
  shows "{d. \<exists>rv. next_delay cfg rv = Inr d} =
    {Interval cfg - jitter_span cfg .. Interval cfg + jitter_span cfg}"
proof -
  let ?D = "jitter_span cfg"
  have D: "0 \<le> ?D"
    using assms(1) by (auto simp: jitter_span_def intro!: pos_imp_zdiv_nonneg_iff [THEN iffD2] mult_nonneg_nonneg)
  have "\<exists>rv. next_delay cfg rv = Inr d"
    if "Interval cfg - ?D \<le> d" "d \<le> Interval cfg + ?D" for d
    using that D
    by (intro exI [of _ "nat (d - Interval cfg + ?D)"])
      (simp add: next_delay_value [OF assms] mod_pos_pos_trivial)
  moreover have "Interval cfg - ?D \<le> d \<and> d \<le> Interval cfg + ?D" if "next_delay cfg rv = Inr d" for d rv
    using that D pos_mod_bound [of "2 * ?D + 1" "int rv"] pos_mod_sign [of "2 * ?D + 1" "int rv"]
    by (auto simp: next_delay_value [OF assms])
  ultimately show ?thesis by auto
qed

section \<open>Shutdown\<close>

text \<open>What is left to do after cancellation.\<close>

fun ticker_work :: "ticker \<Rightarrow> nat" where
  "ticker_work TNext = 2"
| "ticker_work (TWait d) = 1"
| "ticker_work TSend = 1"
| "ticker_work TDone = 0"

fun worker_work :: "'p worker \<Rightarrow> nat" where
  "worker_work (WBusy j d) = 2"
| "worker_work WIdle = 1"
| "worker_work _ = 0"

definition work_left :: "'p sched \<Rightarrow> nat" where
  "work_left s = sum_list (map ticker_work (st_tickers s)) + sum_list (map worker_work (st_workers s)) +
     2 * length (st_queue s) + (if st_closed s then 0 else 1) + (if st_returned s then 0 else 1)"

lemma ticker_work_update:
  "i < length ts \<Longrightarrow> sum_list (map ticker_work (ts[i := t])) + ticker_work (ts ! i) =
     sum_list (map ticker_work ts) + ticker_work t"
  using sum_list_update_swap [of i "map ticker_work ts" "ticker_work t"] by (simp add: map_update)

lemma worker_work_update:
  "i < length ws \<Longrightarrow> sum_list (map worker_work (ws[i := w])) + worker_work (ws ! i) =
     sum_list (map worker_work ws) + worker_work w"
  using sum_list_update_swap [of i "map worker_work ws" "worker_work w"] by (simp add: map_update)

text \<open>After cancellation something can always be done, and brings \<open>Run\<close> closer to its return.\<close>

lemma progress_ticker:
  assumes "st_cancelled s" "i < length (st_tickers s)" "st_tickers s ! i \<noteq> TDone"
  shows "\<exists>e s'. sched_step sc e s = Some s' \<and> panicked_by e = [] \<and> st_cancelled s' \<and>
    work_left s' < work_left s"
proof (cases "st_tickers s ! i")
  case TNext
  note upd = ticker_work_update [OF assms(2), unfolded TNext]
  show ?thesis
  proof (cases "next_delay (sch_cfg sc) 0")
    case (Inl p)
    with assms TNext upd [of TDone] show ?thesis
      by (intro exI [of _ "Tick i 0"]) (simp add: ticker_next_def work_left_def)
  next
    case (Inr d)
    with assms TNext upd [of "TWait d"] show ?thesis
      by (intro exI [of _ "Tick i 0"]) (simp add: ticker_next_def work_left_def)
  qed
next
  case (TWait d)
  with assms ticker_work_update [OF assms(2), of TDone] show ?thesis
    by (intro exI [of _ "TickerStop i"]) (simp add: ticker_stop_def work_left_def)
next
  case TSend
  with assms ticker_work_update [OF assms(2), of TDone] show ?thesis
    by (intro exI [of _ "TickerStop i"]) (simp add: ticker_stop_def work_left_def)
qed (use assms in simp)

lemma progress_worker:
  assumes "st_cancelled s" "st_closed s" "store_inv (st_store s)" "i < length (st_workers s)"
    and "\<not> worker_ended (st_workers s ! i)"
  shows "\<exists>e s'. sched_step sc e s = Some s' \<and> panicked_by e = [] \<and> st_cancelled s' \<and>
    work_left s' < work_left s"
proof (cases "st_workers s ! i")
  case WIdle
  note upd = worker_work_update [OF assms(4), unfolded WIdle]
  show ?thesis
  proof (cases "st_queue s")
    case Nil
    with assms WIdle upd [of WExited] show ?thesis
      by (intro exI [of _ "WorkerExit i"]) (simp add: worker_exit_def work_left_def)
  next
    case (Cons j q)
    with assms WIdle upd [of "WBusy j (probe_deadline (sch_cfg sc))"] show ?thesis
      by (intro exI [of _ "Take i j"]) (simp add: worker_take_def work_left_def)
  qed
next
  case (WBusy j d)
  from Append_ok [OF assms(3), of "job_key j" zero_result] obtain st where
    "Append (J_Peer j) (J_Protocol j) zero_result (st_store s) = Inr st"
    by (auto simp: append_key_job)
  with assms WBusy worker_work_update [OF assms(4), of WIdle] show ?thesis
    by (intro exI [of _ "Finish i j zero_result"])
      (simp add: worker_finish_def is_busy_def work_left_def)
qed (use assms in \<open>simp_all add: worker_ended_def\<close>)

lemma progress:
  assumes "sched_run sc es s" "st_cancelled s" "\<not> st_returned s" "store_inv (sch_store sc)"
  shows "\<exists>e s'. sched_step sc e s = Some s' \<and> panicked_by e = [] \<and> st_cancelled s' \<and>
    work_left s' < work_left s"
proof (cases "list_all (\<lambda>t. t = TDone) (st_tickers s)")
  case False
  then obtain i where i: "i < length (st_tickers s)" "st_tickers s ! i \<noteq> TDone"
    by (auto simp: list_all_length)
  show ?thesis by (rule progress_ticker [OF assms(2) i])
next
  case tickers: True
  show ?thesis
  proof (cases "st_closed s")
    case False
    with tickers assms show ?thesis
      by (intro exI [of _ CloseJobs]) (simp add: run_close_def work_left_def)
  next
    case closed: True
    show ?thesis
    proof (cases "list_all worker_ended (st_workers s)")
      case False
      then obtain i where i: "i < length (st_workers s)" "\<not> worker_ended (st_workers s ! i)"
        by (auto simp: list_all_length)
      show ?thesis
        by (rule progress_worker [OF assms(2) closed run_store(2) [OF assms(1,4)] i])
    next
      case True
      with closed assms show ?thesis
        by (intro exI [of _ RunReturn]) (simp add: run_return_def work_left_def)
    qed
  qed
qed

lemma shutdown:
  assumes "sched_run sc es s" "st_cancelled s" "store_inv (sch_store sc)"
  shows "\<exists>es' s'. sched_run sc (es @ es') s' \<and> panicked es' = [] \<and> st_returned s'"
  using assms
proof (induction "work_left s" arbitrary: es s rule: less_induct)
  case less
  show ?case
  proof (cases "st_returned s")
    case True
    with less.prems show ?thesis by (intro exI [of _ "[]"]) auto
  next
    case False
    from progress [OF less.prems(1,2) False less.prems(3)] obtain e s1 where
      e: "sched_step sc e s = Some s1" "panicked_by e = []" "st_cancelled s1" "work_left s1 < work_left s"
      by blast
    from less.hyps [OF e(4) sched_run.step [OF less.prems(1) e(1)] e(3) less.prems(3)]
    obtain es' s' where "sched_run sc ((es @ [e]) @ es') s'" "panicked es' = []" "st_returned s'" by blast
    with e(2) show ?thesis
      by (intro exI [of _ "e # es'"]) (auto simp: panicked_def)
  qed
qed

section \<open>Properties\<close>

text \<open>
  Jitter: for an interval that is not negative (and no longer than 2.9 years) and a jitter of at
  most 100 percent the computation of the delay never panics, and the delays it can produce are
  exactly the integers from \<open>interval - s\<close> to \<open>interval + s\<close> with \<open>s\<close> the jitter
  percentage of the interval, rounded down.
\<close>

theorem sched_delay_range:
  assumes "0 \<le> Interval cfg" "Jitter cfg \<le> 100" "Interval cfg * 100 \<le> max_int64"
  shows "(\<forall>rv. \<exists>d. next_delay cfg rv = Inr d) \<and>
    {d. \<exists>rv. next_delay cfg rv = Inr d} =
      {Interval cfg - jitter_span cfg .. Interval cfg + jitter_span cfg}"
  using next_delay_value [OF assms] next_delay_range [OF assms] by blast

theorem sched_delay_range_witness:
  "{d. \<exists>rv. next_delay \<lparr>Interval = 10 * second, Jitter = 20, Workers = 1, Timeout = 0\<rparr> rv = Inr d} =
     {8 * second .. 12 * second}"
proof -
  let ?cfg = "\<lparr>Interval = 10 * second, Jitter = 20, Workers = 1, Timeout = 0\<rparr>"
  have "0 \<le> Interval ?cfg" "Jitter ?cfg \<le> 100" "Interval ?cfg * 100 \<le> max_int64"
    by (simp_all add: second_def max_int64_def)
  from sched_delay_range [OF this] show ?thesis by (simp add: jitter_span_def second_def)
qed

text \<open>
  C5. The job channel: in every run of the scheduler, whatever the interleaving, nothing is ever sent
  on the closed channel, the jobs the workers took followed by the jobs still queued are exactly the
  jobs the tickers sent, in order, and the queue never holds more than one slot per job.
\<close>

theorem sched_channel:
  assumes "sched_run sc es s"
  shows "st_fault s \<noteq> Some SendOnClosedChannel \<and> sent sc es = taken es @ st_queue s \<and>
    length (st_queue s) \<le> length (sch_jobs sc)"
  using run_queue [OF assms] by blast

definition sample_job :: "nat job" where
  "sample_job = \<lparr>J_Peer = ''b'', J_Protocol = TCP,
     J_Target = \<lparr>tgt_Name = ''b'', tgt_Addr = ''10.0.0.2'', tgt_TCPPort = 1, tgt_UDPPort = 0, tgt_HTTPSURL = []\<rparr>,
     J_Prober = 0\<rparr>"

definition sample_sched :: "nat scheduler" where
  "sample_sched = New_sched \<lparr>Interval = 10 * second, Jitter = 0, Workers = 0, Timeout = second\<rparr>
     [sample_job] (New_store 4)"

definition sample_trace :: "nat sched_event list" where
  "sample_trace = [Tick 0 0, Fire 0, Send 0, Take 0 sample_job]"

fun sched_exec :: "'p scheduler \<Rightarrow> 'p sched_event list \<Rightarrow> 'p sched \<Rightarrow> 'p sched option" where
  "sched_exec sc [] s = Some s"
| "sched_exec sc (e # es) s = (case sched_step sc e s of None \<Rightarrow> None | Some s' \<Rightarrow> sched_exec sc es s')"

lemma sched_exec_run:
  "sched_run sc es0 s \<Longrightarrow> sched_exec sc es s = Some s' \<Longrightarrow> sched_run sc (es0 @ es) s'"
proof (induction es arbitrary: es0 s)
  case (Cons e es)
  then obtain s1 where "sched_step sc e s = Some s1" "sched_exec sc es s1 = Some s'"
    by (auto split: option.splits)
  with Cons.IH [OF sched_run.step [OF Cons.prems(1)]] show ?case by fastforce
qed simp

lemma sched_exec_from_start: "sched_exec sc es (sched_init sc) = Some s \<Longrightarrow> sched_run sc es s"
  using sched_exec_run [OF sched_run.start] by fastforce

lemmas sample_defs = sample_sched_def sample_trace_def New_sched_def sched_init_def step_defs
  next_delay_def set_ticker_def set_worker_def

theorem sched_channel_witness:
  "\<exists>s. sched_exec sample_sched sample_trace (sched_init sample_sched) = Some s \<and>
     sent sample_sched sample_trace = [sample_job] \<and> st_queue s = []"
proof -
  obtain s where s: "sched_exec sample_sched sample_trace (sched_init sample_sched) = Some s"
    by (auto simp: sample_defs)
  have "taken sample_trace = [sample_job]" "sent sample_sched sample_trace = [sample_job]"
    by (simp_all add: sample_trace_def taken_def sent_def sample_sched_def New_sched_def)
  with sched_channel [OF sched_exec_from_start [OF s]] s show ?thesis by auto
qed

text \<open>
  C6. The store and the accounting of jobs: in every run on a well-formed store, the store is what
  appending the finished results in order makes of the initial one (so no append ever panicked),
  every result belongs to a configured job, and every job taken is either finished, lost to a panic
  of its prober, or still being probed.
\<close>

theorem sched_results:
  assumes "sched_run sc es s" "store_inv (sch_store sc)"
  shows "run_all append_key (appends es) (sch_store sc) = Inr (st_store s) \<and>
    fst ` set (finished es) \<subseteq> set (sch_jobs sc) \<and>
    mset (taken es) = mset (map fst (finished es)) + mset (panicked es) + busy s"
  using run_store(1) [OF assms] run_finished [OF assms(1)] run_jobs [OF assms(1)] by blast

theorem sched_results_witness:
  "\<exists>s. sched_exec sample_sched (sample_trace @ [Finish 0 sample_job zero_result]) (sched_init sample_sched) = Some s \<and>
     append_key (job_key sample_job, zero_result) (New_store 4) = Inr (st_store s)"
proof -
  from Append_ok [OF store_inv_New, of "job_key sample_job" zero_result 4] obtain st where
    st: "Append (J_Peer sample_job) (J_Protocol sample_job) zero_result (New_store 4) = Inr st"
    by (auto simp: append_key_job)
  then obtain s where s: "sched_exec sample_sched (sample_trace @ [Finish 0 sample_job zero_result])
      (sched_init sample_sched) = Some s"
    by (auto simp: sample_defs is_busy_def)
  have "store_inv (sch_store sample_sched)" by (simp add: sample_sched_def)
  from sched_results [OF sched_exec_from_start [OF s] this]
  have "run_all append_key (appends (sample_trace @ [Finish 0 sample_job zero_result]))
      (sch_store sample_sched) = Inr (st_store s)" by blast
  moreover have "appends (sample_trace @ [Finish 0 sample_job zero_result]) = [(job_key sample_job, zero_result)]"
    by (simp add: appends_def finished_def sample_trace_def)
  moreover have "sch_store sample_sched = New_store 4" by (simp add: sample_sched_def)
  ultimately show ?thesis using s by (auto simp: ok_iff)
qed

text \<open>
  C7. What the return of \<open>Run\<close> means: if the scheduler made by \<open>New\<close> returns and no prober
  panicked then every job sent was probed and its result stored, exactly once; and it returned
  because the context was cancelled, unless there were no jobs or the computation of a delay panicked.
\<close>

theorem sched_return_complete:
  assumes "sched_run (New_sched cfg jobs st) es s" "st_returned s" "store_inv st" "panicked es = []"
  shows "mset (sent (New_sched cfg jobs st) es) = mset (map fst (finished es)) \<and>
    run_all append_key (appends es) st = Inr (st_store s) \<and>
    (st_cancelled s \<or> jobs = [] \<or> st_fault s \<noteq> None)"
proof -
  let ?sc = "New_sched cfg jobs st"
  have inv: "store_inv (sch_store ?sc)" using assms(3) by simp
  note left = returned_complete [OF assms(1,2) inv New_sched_simps(3) assms(4)]
  from run_queue [OF assms(1)] run_returned [OF assms(1,2)] left(1) have
    sent: "sent ?sc es = taken es" and tickers: "length (st_tickers s) = length jobs"
    "list_all (\<lambda>t. t = TDone) (st_tickers s)" by auto
  have "st_cancelled s \<or> jobs = [] \<or> st_fault s \<noteq> None"
  proof (cases jobs)
    case (Cons j js)
    with tickers have "TDone \<in> set (st_tickers s)" by (auto simp: list_all_iff length_Suc_conv)
    from run_ticker_ended [OF assms(1) this] show ?thesis by blast
  qed simp
  with sent left(2) run_jobs [OF assms(1)] run_store(1) [OF assms(1) inv] assms(4)
  show ?thesis by simp
qed

text \<open>
  C8. Graceful shutdown: from every state a run can reach, once the context is cancelled there is a
  continuation, in which no prober panics, that ends with \<open>Run\<close> returning: no interleaving
  leads to a deadlock of tickers, workers and channel.
\<close>

theorem sched_shutdown:
  assumes "sched_run sc es s" "st_cancelled s" "store_inv (sch_store sc)"
  shows "\<exists>es' s'. sched_run sc (es @ es') s' \<and> panicked es' = [] \<and> st_returned s'"
  by (rule shutdown [OF assms])

lemma sample_cancel:
  "\<exists>s. sched_exec sample_sched (sample_trace @ [Cancel]) (sched_init sample_sched) = Some s \<and> st_cancelled s"
  by (auto simp: sample_defs)

theorem sched_shutdown_witness:
  "\<exists>es s. sched_run sample_sched (sample_trace @ [Cancel] @ es) s \<and> st_returned s"
proof -
  obtain s where s: "sched_exec sample_sched (sample_trace @ [Cancel]) (sched_init sample_sched) = Some s"
    "st_cancelled s" using sample_cancel by blast
  have "store_inv (sch_store sample_sched)" by (simp add: sample_sched_def)
  from sched_shutdown [OF sched_exec_from_start [OF s(1)] s(2) this] show ?thesis by auto
qed

theorem sched_return_complete_witness:
  "\<exists>es s. sched_run sample_sched es s \<and> st_returned s \<and>
     mset (sent sample_sched es) = mset (map fst (finished es))"
proof -
  obtain s where s: "sched_exec sample_sched [Cancel] (sched_init sample_sched) = Some s" "st_cancelled s"
    by (auto simp: sample_defs)
  have inv: "store_inv (sch_store sample_sched)" by (simp add: sample_sched_def)
  from shutdown [OF sched_exec_from_start [OF s(1)] s(2) inv] obtain es' s' where
    r: "sched_run sample_sched ([Cancel] @ es') s'" "panicked es' = []" "st_returned s'" by blast
  have "panicked ([Cancel] @ es') = []" using r(2) by (simp add: panicked_def)
  with sched_return_complete [OF r(1) [unfolded sample_sched_def] r(3) store_inv_New] r
  show ?thesis unfolding sample_sched_def by blast
qed

text \<open>
  Without jobs \<open>Run\<close> does not block until its context is cancelled: it can return at once.
\<close>

theorem sched_no_jobs_returns:
  "\<exists>es s. sched_run (New_sched cfg ([] :: 'p job list) st) es s \<and> st_returned s \<and> \<not> st_cancelled s"
proof -
  let ?sc = "New_sched cfg ([] :: 'p job list) st"
  have ex: "\<exists>es s. sched_run ?sc es s \<and> st_tickers s = [] \<and> st_closed s \<and> \<not> st_cancelled s \<and>
      \<not> st_returned s \<and> st_queue s = [] \<and> n \<le> length (st_workers s) \<and>
      length (st_workers s) = nat (Workers (sch_cfg ?sc)) \<and>
      (\<forall>i < length (st_workers s). st_workers s ! i = (if i < n then WExited else WIdle))"
    if "n \<le> nat (Workers (sch_cfg ?sc))" for n
    using that
  proof (induction n)
    case 0
    have "sched_step ?sc CloseJobs (sched_init ?sc) = Some ((sched_init ?sc)\<lparr>st_closed := True\<rparr>)"
      by (simp add: run_close_def sched_init_def)
    from sched_run.step [OF sched_run.start this] show ?case
      by (intro exI [of _ "[] @ [CloseJobs]"] exI [of _ "(sched_init ?sc)\<lparr>st_closed := True\<rparr>"])
        (auto simp: sched_init_def)
  next
    case (Suc n)
    then obtain es s where s: "sched_run ?sc es s" "st_tickers s = []" "st_closed s" "\<not> st_cancelled s"
      "\<not> st_returned s" "st_queue s = []" "length (st_workers s) = nat (Workers (sch_cfg ?sc))"
      "\<forall>i < length (st_workers s). st_workers s ! i = (if i < n then WExited else WIdle)" by auto
    have "sched_step ?sc (WorkerExit n) s = Some (set_worker n WExited s)"
      using s Suc.prems by (simp add: worker_exit_def)
    from sched_run.step [OF s(1) this] s Suc.prems show ?case
      by (intro exI [of _ "es @ [WorkerExit n]"] exI [of _ "set_worker n WExited s"])
        (auto simp: nth_list_update)
  qed
  from ex [OF order.refl] obtain es s where s: "sched_run ?sc es s" "st_closed s" "\<not> st_cancelled s"
    "\<not> st_returned s" "\<forall>i < length (st_workers s). st_workers s ! i = WExited" by auto
  have "sched_step ?sc RunReturn s = Some (s\<lparr>st_returned := True\<rparr>)"
    using s by (simp add: run_return_def list_all_length worker_ended_def)
  from sched_run.step [OF s(1) this] s show ?thesis by (intro exI conjI) (assumption | simp)+
qed

text \<open>
  An interval and jitter whose \<open>Int63n\<close> argument is not positive, for example a negative
  interval, which the configuration check accepts, kill every ticker at its first delay: no run ever
  sends a job.
\<close>

theorem sched_bad_interval:
  assumes "Jitter cfg > 0" "quot (wrap64 (Interval cfg * Jitter cfg)) 100 \<noteq> 0"
    and "wrap64 (2 * quot (wrap64 (Interval cfg * Jitter cfg)) 100 + 1) \<le> 0"
    and "sched_run (New_sched cfg jobs st) es s"
  shows "sent (New_sched cfg jobs st) es = []"
proof -
  have "\<exists>p. next_delay (sch_cfg (New_sched cfg jobs st)) rv = Inl p" for rv
    using assms(1-3) by (simp add: next_delay_def)
  from run_no_delay [OF this assms(4)] show ?thesis by blast
qed

theorem sched_bad_interval_witness:
  "sent (New_sched \<lparr>Interval = - 10 * second, Jitter = 20, Workers = 1, Timeout = 0\<rparr> [sample_job] (New_store 4)) [] = []"
proof -
  let ?cfg = "\<lparr>Interval = - 10 * second, Jitter = 20, Workers = 1, Timeout = 0\<rparr>"
  have "quot (wrap64 (Interval ?cfg * Jitter ?cfg)) 100 = - 2000000000"
    by (simp add: quot_def wrap64_def second_def)
  then have "Jitter ?cfg > 0" "quot (wrap64 (Interval ?cfg * Jitter ?cfg)) 100 \<noteq> 0"
    "wrap64 (2 * quot (wrap64 (Interval ?cfg * Jitter ?cfg)) 100 + 1) \<le> 0"
    by (simp_all add: wrap64_def)
  from sched_bad_interval [OF this sched_run.start] show ?thesis .
qed

text \<open>
  A worker does not survive a panic of its prober: once every worker has panicked no later step
  of any run changes the store.
\<close>

theorem sched_dead_workers:
  assumes "list_all worker_ended (st_workers s)" "sched_exec sc es s = Some s'"
  shows "st_store s' = st_store s"
proof -
  have "st_store s' = st_store s" if "sched_step sc e s = Some s'" "list_all worker_ended (st_workers s)" for e s s'
  proof -
    have "\<not> is_busy j (st_workers s ! i)" if "i < length (st_workers s)" for i j
      using \<open>list_all worker_ended (st_workers s)\<close> that
      by (auto simp: list_all_length worker_ended_def is_busy_iff split: worker.splits)
    with \<open>sched_step sc e s = Some s'\<close> show ?thesis
      by (cases e) (auto simp: step_defs split: if_splits sum.splits)
  qed
  with assms show ?thesis
  proof (induction es arbitrary: s)
    case (Cons e es)
    then obtain s1 where "sched_step sc e s = Some s1" "sched_exec sc es s1 = Some s'"
      by (auto split: option.splits)
    with Cons worker_ended_stays [of sc e s s1] show ?case by metis
  qed simp
qed

theorem sched_dead_workers_witness:
  "\<exists>s s'. sched_exec sample_sched (sample_trace @ [ProberPanic 0 sample_job IndexOutOfRange])
       (sched_init sample_sched) = Some s \<and>
     sched_exec sample_sched [Tick 0 0, Fire 0, Send 0] s = Some s' \<and> st_store s' = st_store s"
proof -
  obtain s s' where s: "sched_exec sample_sched (sample_trace @ [ProberPanic 0 sample_job IndexOutOfRange])
       (sched_init sample_sched) = Some s" "list_all worker_ended (st_workers s)"
     "sched_exec sample_sched [Tick 0 0, Fire 0, Send 0] s = Some s'"
    by (auto simp: sample_defs is_busy_def worker_ended_def)
  from sched_dead_workers [OF s(2,3)] s show ?thesis by blast
qed

end
