(* ===== verification/Tcp_Prober.thy ===== *)
theory Tcp_Prober
  imports Probe_Types Go_Net Go_Text
begin

text \<open>
  \<open>internal/pkg/probe/tcp/tcp.go\<close>: a TCP connect that is closed at once. The outcome of
  \<open>DialContext\<close> for an address and the clock after it are arguments.
\<close>

record tcp_prober =
  TCP_Timeout :: duration

definition New_tcp :: "duration \<Rightarrow> tcp_prober" where
  "New_tcp t = \<lparr>TCP_Timeout = t\<rparr>"

text \<open>The world of one probe: the dialler (with its deadline) and the clock when it returned.\<close>

record tcp_world =
  tcp_dial :: "duration \<Rightarrow> string \<Rightarrow> string + unit"
  tcp_after :: time

definition tcp_addr :: "target \<Rightarrow> string" where
  "tcp_addr tgt = join_host_port (tgt_Addr tgt) (itoa (tgt_TCPPort tgt))"

definition Probe_tcp :: "tcp_prober \<Rightarrow> tcp_world \<Rightarrow> target \<Rightarrow> time \<Rightarrow> result" where
  "Probe_tcp p w tgt start =
     (let conn = tcp_dial w (TCP_Timeout p) (tcp_addr tgt);
          r = \<lparr>Timestamp = start, Latency = time_sub (tcp_after w) start, OK = False, Err = []\<rparr>
      in case conn of
           Inl e \<Rightarrow> r\<lparr>Err := e\<rparr>
         | Inr _ \<Rightarrow> r\<lparr>OK := True\<rparr>)"

interpretation tcp: prober "Probe_tcp p" for p
  by unfold_locales (auto simp: Probe_tcp_def Let_def split: sum.splits)

lemma tcp_addr_split:
  assumes "set (tgt_Addr tgt) \<inter> {CHR ''['', CHR '']''} = {}"
  shows "split_host_port (tcp_addr tgt) = Inr (tgt_Addr tgt, itoa (tgt_TCPPort tgt))"
  unfolding tcp_addr_def by (rule split_join_host_port [OF assms itoa_no_punctuation])

section \<open>Properties\<close>

text \<open>
  A TCP probe succeeds exactly when the dialler, given the prober's deadline, reaches the
  address of the target, and that address is the target's host and port for every host without
  brackets, IPv6 hosts included.
\<close>

theorem tcp_probe_ok_iff:
  assumes "set (tgt_Addr tgt) \<inter> {CHR ''['', CHR '']''} = {}"
  shows "split_host_port (tcp_addr tgt) = Inr (tgt_Addr tgt, itoa (tgt_TCPPort tgt)) \<and>
    (OK (Probe_tcp p w tgt start) \<longleftrightarrow> tcp_dial w (TCP_Timeout p) (tcp_addr tgt) = Inr ())"
  using tcp_addr_split [OF assms] by (simp add: Probe_tcp_def Let_def split: sum.splits)

theorem tcp_probe_ok_iff_witness:
  "OK (Probe_tcp (New_tcp 5) \<lparr>tcp_dial = (\<lambda>_ a. if a = ''[::1]:80'' then Inr () else Inl ''refused''), tcp_after = 7\<rparr>
     \<lparr>tgt_Name = ''b'', tgt_Addr = ''::1'', tgt_TCPPort = 80, tgt_UDPPort = 0, tgt_HTTPSURL = []\<rparr> 3)"
proof -
  let ?t = "\<lparr>tgt_Name = ''b'', tgt_Addr = ''::1'', tgt_TCPPort = 80, tgt_UDPPort = 0, tgt_HTTPSURL = []\<rparr>"
  let ?w = "\<lparr>tcp_dial = (\<lambda>_ a. if a = ''[::1]:80'' then Inr () else Inl ''refused''), tcp_after = 7\<rparr>"
  have plain: "set (tgt_Addr ?t) \<inter> {CHR ''['', CHR '']''} = {}" by simp
  have "itoa 80 = ''80''" by code_simp
  then have "tcp_addr ?t = ''[::1]:80''" by (simp add: tcp_addr_def join_host_port_def)
  with tcp_probe_ok_iff [OF plain, of "New_tcp 5" ?w 3] show ?thesis by simp
qed

end
