(* ===== verification/Probe_Server.thy ===== *)
theory Probe_Server
  imports Go_Http
begin

text \<open>
  \<open>internal/pkg/server/probe/server.go\<close>: the HTTP handler behind \<open>/probe\<close>, the target of
  the peers' HTTPS probes. \<open>version\<close> is the variable of \<open>internal/pkg/version\<close>, which the
  linker may override; \<open>redirect\<close> is the mux's redirect response.
\<close>

text \<open>\<open>version.String()\<close> of an unstamped build.\<close>

definition version_dev :: string where "version_dev = ''dev''"

definition probe_page :: "string \<Rightarrow> handler" where
  "probe_page ver now r w =
     write_body (''mesh-checker '' @ ver @ newline)
       (set_header ''Content-Type'' ''text/plain; charset=utf-8''
         (set_header ''Cache-Control'' ''no-store'' w))"

definition NewHTTPHandler :: "(string \<Rightarrow> response \<Rightarrow> response) \<Rightarrow> string \<Rightarrow> handler" where
  "NewHTTPHandler redirect ver = mux_serve redirect [(''/probe'', probe_page ver)]"

lemma clean_path_probe [simp]: "clean_path ''/probe'' = ''/probe''"
  by (simp add: clean_path_def clean_step_def)

lemma NewHTTPHandler_probe [simp]:
  "URLPath r = ''/probe'' \<Longrightarrow> NewHTTPHandler redirect ver now r w = probe_page ver now r w"
  by (simp add: NewHTTPHandler_def mux_serve_def mux_route_def)

text \<open>Every other clean path is answered 404.\<close>

lemma NewHTTPHandler_other:
  assumes "clean_path (URLPath r) = URLPath r" "URLPath r \<noteq> ''/probe''"
  shows "NewHTTPHandler redirect ver now r w = http_not_found w"
proof -
  have "last ''/probe'' \<noteq> CHR ''/''" by simp
  moreover have "URLPath r @ ''/'' \<noteq> ''/probe''"
  proof
    assume "URLPath r @ ''/'' = ''/probe''"
    then have "last (URLPath r @ ''/'') = last ''/probe''" by (rule arg_cong)
    then show False by simp
  qed
  ultimately show ?thesis
    using assms by (simp add: NewHTTPHandler_def mux_serve_def mux_route_def best_prefix_def)
qed

end
