(* ===== verification/Http_Prober.thy ===== *)
theory Http_Prober
  imports Probe_Types Probe_Server
begin

text \<open>
  \<open>internal/pkg/probe/http/http.go\<close>: one HTTPS probe. The transport (whose TLS settings
  \<open>New\<close> fixes to the mesh CA) and the clock are arguments.
\<close>

definition bodyMarker :: string where "bodyMarker = ''mesh-checker''"

text \<open>The TLS settings and the timeout of the client; \<open>'pool\<close> is a certificate pool.\<close>

record 'pool http_prober =
  HP_RootCAs :: 'pool
  HP_MinVersion :: nat
  DisableKeepAlives :: bool
  HP_Timeout :: duration

definition New_http :: "'pool \<Rightarrow> duration \<Rightarrow> 'pool http_prober" where
  "New_http meshCA timeout =
     \<lparr>HP_RootCAs = meshCA, HP_MinVersion = 771, DisableKeepAlives = True, HP_Timeout = timeout\<rparr>"

text \<open>
  \<open>new_request\<close> is the error of building a request for a URL, if any; \<open>http_do\<close> the outcome
  of \<open>Client.Do\<close>: an error, or the status and the bytes of the body that can be read.
\<close>

record 'pool http_world =
  http_new_request :: "string \<Rightarrow> string option"
  http_do :: "'pool http_prober \<Rightarrow> string \<Rightarrow> string + (int \<times> string)"
  http_after :: time

definition Probe_http :: "'pool http_prober \<Rightarrow> 'pool http_world \<Rightarrow> target \<Rightarrow> time \<Rightarrow> result" where
  "Probe_http p w tgt start =
     (case http_new_request w (tgt_HTTPSURL tgt) of
        Some e \<Rightarrow> \<lparr>Timestamp = start, Latency = 0, OK = False, Err = e\<rparr>
      | None \<Rightarrow>
        let r = \<lparr>Timestamp = start, Latency = time_sub (http_after w) start, OK = False, Err = []\<rparr>
        in (case http_do w p (tgt_HTTPSURL tgt) of
              Inl e \<Rightarrow> r\<lparr>Err := e\<rparr>
            | Inr resp \<Rightarrow>
              if fst resp \<noteq> 200 then r\<lparr>Err := ''status '' @ itoa (fst resp)\<rparr>
              else
                let body = take 1024 (snd resp)
                in if \<not> contains body bodyMarker then r\<lparr>Err := ''body marker missing''\<rparr>
                   else r\<lparr>OK := True\<rparr>))"

interpretation https: prober "Probe_http p" for p
  by unfold_locales (auto simp: Probe_http_def Let_def split: sum.splits option.splits if_splits)

lemma Probe_http_ok_iff [ok_iff]:
  "OK (Probe_http p w tgt start) \<longleftrightarrow>
     http_new_request w (tgt_HTTPSURL tgt) = None \<and>
     (\<exists>body. http_do w p (tgt_HTTPSURL tgt) = Inr (200, body) \<and> contains (take 1024 body) bodyMarker)"
  by (auto simp: Probe_http_def Let_def split: sum.splits option.splits if_splits)

section \<open>Properties\<close>

text \<open>
  An HTTPS probe succeeds exactly when the request could be built, the answer over the mesh CA
  has status 200, and the marker occurs within the first 1024 bytes of the body.
\<close>

theorem http_probe_ok_iff:
  "OK (Probe_http p w tgt start) \<longleftrightarrow>
     http_new_request w (tgt_HTTPSURL tgt) = None \<and>
     (\<exists>body pre post. http_do w p (tgt_HTTPSURL tgt) = Inr (200, body) \<and>
        take 1024 body = pre @ ''mesh-checker'' @ post)"
  by (auto simp: Probe_http_ok_iff contains_iff bodyMarker_def)

text \<open>
  Prober and target agree: a node's own \<open>/probe\<close> handler, whatever its version string, gives
  an answer that the HTTPS prober accepts.
\<close>

theorem http_probe_page_accepted:
  assumes "http_new_request w (tgt_HTTPSURL tgt) = None" "URLPath r = ''/probe''"
    and "http_do w p (tgt_HTTPSURL tgt) =
      (let a = NewHTTPHandler redirect ver now r new_response
       in Inr (case Status a of None \<Rightarrow> 200 | Some s \<Rightarrow> s, Body a))"
  shows "OK (Probe_http p w tgt start)"
proof -
  have "http_do w p (tgt_HTTPSURL tgt) = Inr (200, ''mesh-checker'' @ '' '' @ ver @ newline)"
    using assms(2,3)
    by (simp add: probe_page_def new_response_def set_header_def write_body_def write_header_def)
  moreover have "contains (take 1024 (''mesh-checker'' @ '' '' @ ver @ newline)) bodyMarker"
    by (auto simp: contains_iff bodyMarker_def)
  ultimately show ?thesis
    using assms(1) by (simp add: Probe_http_ok_iff)
qed

definition probe_get :: http_request where
  "probe_get = \<lparr>Method = ''GET'', URLPath = ''/probe'', ReqHeader = Map.empty, Cookies = [],
     Form = Some [], TLSChains = None\<rparr>"

theorem http_probe_page_accepted_witness:
  "OK (Probe_http (New_http () 5)
     \<lparr>http_new_request = (\<lambda>_. None),
      http_do = (\<lambda>_ _. let a = NewHTTPHandler (\<lambda>_ w. w) ''dev'' 0 probe_get new_response
        in Inr (case Status a of None \<Rightarrow> 200 | Some s \<Rightarrow> s, Body a)),
      http_after = 7\<rparr>
     \<lparr>tgt_Name = ''b'', tgt_Addr = [], tgt_TCPPort = 0, tgt_UDPPort = 0, tgt_HTTPSURL = ''https://b/probe''\<rparr> 3)"
  by (rule http_probe_page_accepted [where r = probe_get and redirect = "\<lambda>_ w. w" and ver = "''dev''" and now = 0])
    (simp_all add: probe_get_def)

end
