(* ===== verification/Icmp_Prober.thy ===== *)
theory Icmp_Prober
  imports Probe_Types Go_Time
begin

text \<open>
  \<open>internal/pkg/probe/icmp/icmp.go\<close>: the ICMP prober, one raw socket shared by all probes. A
  read loop hands each echo message to the pending probe with its sequence number through a channel
  of capacity one. Reader and probes are modelled as an interleaving of atomic steps (a critical
  section, a channel operation, a \<open>select\<close> branch). Marshalling and parsing of ICMP messages
  (\<open>golang.org/x/net/icmp\<close>) are parameters.
\<close>

section \<open>Messages\<close>

datatype icmp_body =
    EchoBody int int "byte list"
  | OtherBody

record icmp_message =
  icmp_type :: int
  icmp_code :: int
  icmp_body :: icmp_body

text \<open>\<open>ipv4.ICMPTypeEcho\<close>, and the protocol number of ICMP for IPv4.\<close>

definition ICMPTypeEcho :: int where "ICMPTypeEcho = 8"
definition ICMPTypeEchoReply :: int where "ICMPTypeEchoReply = 0"
definition protocolICMP :: int where "protocolICMP = 1"

definition buildEcho ::
    "(icmp_message \<Rightarrow> string + byte list) \<Rightarrow> int \<Rightarrow> int \<Rightarrow> byte list \<Rightarrow> string + byte list" where
  "buildEcho marshal i seq payload =
     marshal \<lparr>icmp_type = ICMPTypeEcho, icmp_code = 0, icmp_body = EchoBody i seq payload\<rparr>"

definition parseEchoReply ::
    "(int \<Rightarrow> byte list \<Rightarrow> string + icmp_message) \<Rightarrow> byte list \<Rightarrow> string + (int \<times> int \<times> byte list)" where
  "parseEchoReply parse b =
     and_then (case parse protocolICMP b of Inl _ \<Rightarrow> parse 1 b | Inr m \<Rightarrow> Inr m) (\<lambda>m.
       case icmp_body m of
         EchoBody i seq d \<Rightarrow> Inr (i, seq, d)
       | OtherBody \<Rightarrow> Inl ''icmp: not an echo body'')"

section \<open>The prober\<close>

text \<open>
  Where a probe is (with its start and sequence number): about to send, waiting in the
  \<open>select\<close>, in the timeout branch before the entry is deleted, or returned. A channel is named by
  the probe that made it.
\<close>

datatype icmp_probe =
    PSend time int
  | PWait time int
  | PTimedOut time int
  | PReturned result

datatype reader = RRead | RDeliver nat | RStopped

record icmp_prober =
  nextSeq :: int
  pending :: "int \<rightharpoonup> nat"
  chans :: "nat \<Rightarrow> result list"
  probes :: "nat \<rightharpoonup> icmp_probe"
  reader :: reader

definition New_icmp :: icmp_prober where
  "New_icmp = \<lparr>nextSeq = 0, pending = Map.empty, chans = (\<lambda>_. []), probes = Map.empty, reader = RRead\<rparr>"

datatype icmp_event =
    ProbeStart nat time
  | SendFailed nat string
  | SendOk nat
  | Receive "byte list"
  | Deliver time
  | ReadFailed
  | GotReply nat time
  | TimerFired nat
  | TimeoutReturn nat time
  | CtxDone nat string

text \<open>\<open>(p.nextSeq + 1) & 0xffff\<close>.\<close>

definition next_seq :: "int \<Rightarrow> int" where
  "next_seq n = (n + 1) mod 65536"

definition icmp_result :: "time \<Rightarrow> duration \<Rightarrow> bool \<Rightarrow> string \<Rightarrow> result" where
  "icmp_result start lat k e = \<lparr>Timestamp = start, Latency = lat, OK = k, Err = e\<rparr>"

text \<open>The first critical section of \<open>Probe\<close>: a number, a channel, an entry.\<close>

definition probe_start :: "nat \<Rightarrow> time \<Rightarrow> icmp_prober \<Rightarrow> icmp_prober option" where
  "probe_start i start s =
     (if probes s i = None then
        let seq = next_seq (nextSeq s)
        in Some (s\<lparr>nextSeq := seq, pending := (pending s)(seq \<mapsto> i), chans := (chans s)(i := []),
                   probes := (probes s)(i \<mapsto> PSend start seq)\<rparr>)
      else None)"

text \<open>Building the packet or writing it failed: the probe returns, its entry stays.\<close>

definition send_failed :: "nat \<Rightarrow> string \<Rightarrow> icmp_prober \<Rightarrow> icmp_prober option" where
  "send_failed i e s =
     (case probes s i of
        Some (PSend start seq) \<Rightarrow>
          Some (s\<lparr>probes := (probes s)(i \<mapsto> PReturned (icmp_result start 0 False e))\<rparr>)
      | _ \<Rightarrow> None)"

definition send_ok :: "nat \<Rightarrow> icmp_prober \<Rightarrow> icmp_prober option" where
  "send_ok i s =
     (case probes s i of
        Some (PSend start seq) \<Rightarrow> Some (s\<lparr>probes := (probes s)(i \<mapsto> PWait start seq)\<rparr>)
      | _ \<Rightarrow> None)"

text \<open>The read loop: a datagram (cut to the 1500 bytes of the buffer), then the channel send.\<close>

definition receive ::
    "(int \<Rightarrow> byte list \<Rightarrow> string + icmp_message) \<Rightarrow> byte list \<Rightarrow> icmp_prober \<Rightarrow> icmp_prober option" where
  "receive parse b s =
     (if reader s \<noteq> RRead then None
      else
        (case parseEchoReply parse (take 1500 b) of
           Inl _ \<Rightarrow> Some s
         | Inr (_, seq, _) \<Rightarrow>
           (case pending s seq of
              None \<Rightarrow> Some s
            | Some ch \<Rightarrow> Some (s\<lparr>pending := (pending s)(seq := None), reader := RDeliver ch\<rparr>))))"

definition deliver :: "time \<Rightarrow> icmp_prober \<Rightarrow> icmp_prober option" where
  "deliver now s =
     (case reader s of
        RDeliver ch \<Rightarrow>
          if length (chans s ch) < 1
          then Some (s\<lparr>chans := (chans s)(ch := chans s ch @ [icmp_result now 0 True []]), reader := RRead\<rparr>)
          else None
      | _ \<Rightarrow> None)"

definition read_failed :: "icmp_prober \<Rightarrow> icmp_prober option" where
  "read_failed s = (if reader s = RRead then Some (s\<lparr>reader := RStopped\<rparr>) else None)"

text \<open>The three branches of the \<open>select\<close>.\<close>

definition got_reply :: "nat \<Rightarrow> time \<Rightarrow> icmp_prober \<Rightarrow> icmp_prober option" where
  "got_reply i now s =
     (case probes s i of
        Some (PWait start seq) \<Rightarrow>
          (case chans s i of
             r # rest \<Rightarrow>
               Some (s\<lparr>chans := (chans s)(i := rest),
                       probes := (probes s)(i \<mapsto>
                         PReturned (r\<lparr>Latency := time_sub now start, Timestamp := start\<rparr>))\<rparr>)
           | [] \<Rightarrow> None)
      | _ \<Rightarrow> None)"

definition timer_fired :: "nat \<Rightarrow> icmp_prober \<Rightarrow> icmp_prober option" where
  "timer_fired i s =
     (case probes s i of
        Some (PWait start seq) \<Rightarrow> Some (s\<lparr>probes := (probes s)(i \<mapsto> PTimedOut start seq)\<rparr>)
      | _ \<Rightarrow> None)"

definition timeout_return :: "nat \<Rightarrow> time \<Rightarrow> icmp_prober \<Rightarrow> icmp_prober option" where
  "timeout_return i now s =
     (case probes s i of
        Some (PTimedOut start seq) \<Rightarrow>
          Some (s\<lparr>pending := (pending s)(seq := None),
                  probes := (probes s)(i \<mapsto>
                    PReturned (icmp_result start (time_sub now start) False ''timeout''))\<rparr>)
      | _ \<Rightarrow> None)"

definition ctx_done :: "nat \<Rightarrow> string \<Rightarrow> icmp_prober \<Rightarrow> icmp_prober option" where
  "ctx_done i e s =
     (case probes s i of
        Some (PWait start seq) \<Rightarrow>
          Some (s\<lparr>probes := (probes s)(i \<mapsto> PReturned (icmp_result start 0 False e))\<rparr>)
      | _ \<Rightarrow> None)"

fun icmp_step ::
    "(int \<Rightarrow> byte list \<Rightarrow> string + icmp_message) \<Rightarrow> icmp_event \<Rightarrow> icmp_prober \<Rightarrow> icmp_prober option" where
  "icmp_step parse (ProbeStart i t) s = probe_start i t s"
| "icmp_step parse (SendFailed i e) s = send_failed i e s"
| "icmp_step parse (SendOk i) s = send_ok i s"
| "icmp_step parse (Receive b) s = receive parse b s"
| "icmp_step parse (Deliver now) s = deliver now s"
| "icmp_step parse ReadFailed s = read_failed s"
| "icmp_step parse (GotReply i now) s = got_reply i now s"
| "icmp_step parse (TimerFired i) s = timer_fired i s"
| "icmp_step parse (TimeoutReturn i now) s = timeout_return i now s"
| "icmp_step parse (CtxDone i e) s = ctx_done i e s"

inductive icmp_run :: "(int \<Rightarrow> byte list \<Rightarrow> string + icmp_message) \<Rightarrow> icmp_event list \<Rightarrow> icmp_prober \<Rightarrow> bool"
  for parse where
  start: "icmp_run parse [] New_icmp"
| step: "icmp_run parse es s \<Longrightarrow> icmp_step parse e s = Some s' \<Longrightarrow> icmp_run parse (es @ [e]) s'"

inductive_simps icmp_run_Nil: "icmp_run parse [] s"

lemmas icmp_step_defs = probe_start_def send_failed_def send_ok_def receive_def deliver_def
  read_failed_def got_reply_def timer_fired_def timeout_return_def ctx_done_def

section \<open>Invariants\<close>

text \<open>
  A channel is in at most one of three places at any time: in the map of pending probes (under one
  number), in the hands of the reader, or filled; and only if its probe has started.
\<close>

definition icmp_inv :: "icmp_prober \<Rightarrow> bool" where
  "icmp_inv s \<longleftrightarrow>
     (\<forall>q i. pending s q = Some i \<longrightarrow>
        probes s i \<noteq> None \<and> chans s i = [] \<and> reader s \<noteq> RDeliver i \<and> q \<in> {0..<65536}) \<and>
     (\<forall>q q' i. pending s q = Some i \<longrightarrow> pending s q' = Some i \<longrightarrow> q' = q) \<and>
     (\<forall>i. reader s = RDeliver i \<longrightarrow> probes s i \<noteq> None \<and> chans s i = []) \<and>
     (\<forall>i. length (chans s i) \<le> 1) \<and>
     (\<forall>i. probes s i = None \<longrightarrow> chans s i = [])"

lemma next_seq_range: "next_seq n \<in> {0..<65536}"
  by (simp add: next_seq_def)

text \<open>The updates the steps are made of.\<close>

lemma icmp_inv_probes: "icmp_inv s \<Longrightarrow> probes s i \<noteq> None \<Longrightarrow> icmp_inv (s\<lparr>probes := (probes s)(i \<mapsto> p)\<rparr>)"
  by (simp add: icmp_inv_def)

lemma icmp_inv_delete: "icmp_inv s \<Longrightarrow> icmp_inv (s\<lparr>pending := (pending s)(q := None)\<rparr>)"
  by (simp add: icmp_inv_def)

lemma icmp_inv_stop: "icmp_inv s \<Longrightarrow> icmp_inv (s\<lparr>reader := RStopped\<rparr>)"
  by (simp add: icmp_inv_def)

lemma icmp_inv_drain: "icmp_inv s \<Longrightarrow> chans s i = r # rest \<Longrightarrow> icmp_inv (s\<lparr>chans := (chans s)(i := rest)\<rparr>)"
proof -
  assume s: "icmp_inv s" "chans s i = r # rest"
  then have "length (r # rest) \<le> 1" unfolding icmp_inv_def by metis
  then have "rest = []" by simp
  with s(1) show ?thesis unfolding icmp_inv_def by simp
qed

lemma icmp_inv_hand:
  assumes "icmp_inv s" "pending s q = Some i"
  shows "icmp_inv (s\<lparr>pending := (pending s)(q := None), reader := RDeliver i\<rparr>)"
proof -
  have "q' = q" if "pending s q' = Some i" for q'
    using assms that unfolding icmp_inv_def by metis
  moreover have "probes s i \<noteq> None" "chans s i = []"
    using assms unfolding icmp_inv_def by metis+
  ultimately show ?thesis
    using assms(1) unfolding icmp_inv_def by auto
qed

lemma icmp_inv_fill:
  assumes "icmp_inv s" "reader s = RDeliver i"
  shows "icmp_inv (s\<lparr>chans := (chans s)(i := [r]), reader := RRead\<rparr>)"
  using assms unfolding icmp_inv_def by auto

lemma icmp_inv_new:
  assumes "icmp_inv s" "probes s i = None"
  shows "icmp_inv (s\<lparr>nextSeq := q, pending := (pending s)(next_seq n \<mapsto> i), chans := (chans s)(i := []),
    probes := (probes s)(i \<mapsto> p)\<rparr>)"
proof -
  have "pending s q \<noteq> Some i" "reader s \<noteq> RDeliver i" for q
    using assms unfolding icmp_inv_def by metis+
  with assms next_seq_range [of n] show ?thesis
    unfolding icmp_inv_def by auto
qed

lemma icmp_inv_step:
  assumes "icmp_inv s" "icmp_step parse e s = Some s'"
  shows "icmp_inv s'"
proof (cases e)
  case (ProbeStart i t)
  with assms icmp_inv_new [OF assms(1)] show ?thesis
    by (auto simp: probe_start_def Let_def split: if_splits)
next
  case (Receive b)
  with assms icmp_inv_hand [OF assms(1)] show ?thesis
    by (auto simp: receive_def split: if_splits option.splits sum.splits)
next
  case (Deliver t)
  with assms obtain i where i: "reader s = RDeliver i" "chans s i = []"
    "s' = s\<lparr>chans := (chans s)(i := [icmp_result t 0 True []]), reader := RRead\<rparr>"
    by (auto simp: deliver_def split: if_splits reader.splits)
  show ?thesis unfolding i(3) by (rule icmp_inv_fill [OF assms(1) i(1)])
next
  case (GotReply i t)
  with assms obtain start seq r rest where i: "probes s i = Some (PWait start seq)" "chans s i = r # rest"
    "s' = s\<lparr>chans := (chans s)(i := rest),
      probes := (probes s)(i \<mapsto> PReturned (r\<lparr>Latency := time_sub t start, Timestamp := start\<rparr>))\<rparr>"
    by (auto simp: got_reply_def split: option.splits icmp_probe.splits list.splits)
  have "probes (s\<lparr>chans := (chans s)(i := rest)\<rparr>) i \<noteq> None" using i(1) by simp
  from icmp_inv_probes [OF icmp_inv_drain [OF assms(1) i(2)] this] i(3) show ?thesis by simp
next
  case (TimeoutReturn i t)
  with assms obtain start seq where i: "probes s i = Some (PTimedOut start seq)"
    "s' = s\<lparr>pending := (pending s)(seq := None), probes := (probes s)(i \<mapsto>
       PReturned (icmp_result start (time_sub t start) False ''timeout''))\<rparr>"
    by (auto simp: timeout_return_def split: option.splits icmp_probe.splits)
  have "probes (s\<lparr>pending := (pending s)(seq := None)\<rparr>) i \<noteq> None" using i(1) by simp
  from icmp_inv_probes [OF icmp_inv_delete [OF assms(1)] this] i(2) show ?thesis by simp
next
  case ReadFailed
  with assms icmp_inv_stop [OF assms(1)] show ?thesis by (auto simp: read_failed_def split: if_splits)
qed (use assms icmp_inv_probes [OF assms(1)] in
  \<open>auto simp: send_failed_def send_ok_def timer_fired_def ctx_done_def split: option.splits icmp_probe.splits\<close>)

lemma icmp_run_inv: "icmp_run parse es s \<Longrightarrow> icmp_inv s"
proof (induction rule: icmp_run.induct)
  case start
  then show ?case by (simp add: icmp_inv_def New_icmp_def)
qed (rule icmp_inv_step)

section \<open>What a trace says of a probe\<close>

fun started_by :: "icmp_event \<Rightarrow> nat list" where
  "started_by (ProbeStart i t) = [i]"
| "started_by _ = []"

definition starts :: "icmp_event list \<Rightarrow> nat list" where
  "starts es = concat (map started_by es)"

text \<open>The probe has the number \<open>q\<close>: it is the \<open>k\<close>-th to start, and \<open>q\<close> is \<open>k\<close> modulo \<open>2^16\<close>.\<close>

definition numbered :: "icmp_event list \<Rightarrow> nat \<Rightarrow> int \<Rightarrow> bool" where
  "numbered es i q \<longleftrightarrow> (\<exists>k. index_of i (starts es) = Some k \<and> q = (int k + 1) mod 65536)"

text \<open>After the probe started, a datagram with an echo message of number \<open>q\<close> was received.\<close>

definition answered ::
    "(int \<Rightarrow> byte list \<Rightarrow> string + icmp_message) \<Rightarrow> icmp_event list \<Rightarrow> nat \<Rightarrow> int \<Rightarrow> bool" where
  "answered parse es i q \<longleftrightarrow>
     (\<exists>es1 es2 b n d. es = es1 @ Receive b # es2 \<and> i \<in> set (starts es1) \<and>
        parseEchoReply parse (take 1500 b) = Inr (n, q, d))"

lemma starts_simps [simp]: "starts [] = []" "starts (es @ [e]) = starts es @ started_by e"
  by (simp_all add: starts_def)

lemma numbered_snoc: "numbered es i q \<Longrightarrow> numbered (es @ [e]) i q"
proof -
  have "index_of i (xs @ ys) = Some k" if "index_of i xs = Some k" for xs ys :: "nat list" and k
    using that by (induction xs arbitrary: k) (auto split: if_splits)
  then show "numbered es i q \<Longrightarrow> numbered (es @ [e]) i q"
    unfolding numbered_def by (metis starts_simps(2))
qed

lemma answered_snoc: "answered parse es i q \<Longrightarrow> answered parse (es @ [e]) i q"
  unfolding answered_def by (metis append_Cons append_assoc)

lemma answered_now:
  "i \<in> set (starts es) \<Longrightarrow> parseEchoReply parse (take 1500 b) = Inr (n, q, d) \<Longrightarrow>
     answered parse (es @ [Receive b]) i q"
  unfolding answered_def by blast

lemma numbered_new:
  "i \<notin> set (starts es) \<Longrightarrow>
     numbered (es @ [ProbeStart i t]) i (next_seq (int (length (starts es)) mod 65536))"
  unfolding numbered_def next_seq_def
  by (auto intro!: exI [of _ "length (starts es)"] simp: index_of_append mod_add_left_eq)

definition confirmed ::
    "(int \<Rightarrow> byte list \<Rightarrow> string + icmp_message) \<Rightarrow> icmp_event list \<Rightarrow> nat \<Rightarrow> bool" where
  "confirmed parse es i \<longleftrightarrow> (\<exists>q. numbered es i q \<and> answered parse es i q)"

lemma confirmed_snoc: "confirmed parse es i \<Longrightarrow> confirmed parse (es @ [e]) i"
  unfolding confirmed_def using numbered_snoc answered_snoc by blast

definition trace_inv ::
    "(int \<Rightarrow> byte list \<Rightarrow> string + icmp_message) \<Rightarrow> icmp_event list \<Rightarrow> icmp_prober \<Rightarrow> bool" where
  "trace_inv parse es s \<longleftrightarrow>
     nextSeq s = int (length (starts es)) mod 65536 \<and>
     (\<forall>i. probes s i \<noteq> None \<longleftrightarrow> i \<in> set (starts es)) \<and>
     (\<forall>q i. pending s q = Some i \<longrightarrow> numbered es i q) \<and>
     (\<forall>i. reader s = RDeliver i \<longrightarrow> confirmed parse es i) \<and>
     (\<forall>i. chans s i \<noteq> [] \<longrightarrow> confirmed parse es i) \<and>
     (\<forall>i r. probes s i = Some (PReturned r) \<longrightarrow> OK r \<longrightarrow> confirmed parse es i)"

lemma trace_inv_step:
  assumes "icmp_inv s" "trace_inv parse es s" "icmp_step parse e s = Some s'"
  shows "trace_inv parse (es @ [e]) s'"
proof -
  note inv = assms(2) [unfolded trace_inv_def]
  note mono = numbered_snoc confirmed_snoc
  show ?thesis
  proof (cases e)
    case (ProbeStart i t)
    then have i: "probes s i = None" and s': "s' = s\<lparr>nextSeq := next_seq (nextSeq s),
        pending := (pending s)(next_seq (nextSeq s) \<mapsto> i), chans := (chans s)(i := []),
        probes := (probes s)(i \<mapsto> PSend t (next_seq (nextSeq s)))\<rparr>"
      using assms(3) by (auto simp: probe_start_def Let_def split: if_splits)
    have new: "i \<notin> set (starts es)" using inv i by blast
    have "next_seq (nextSeq s) = int (length (starts (es @ [e]))) mod 65536"
      using inv ProbeStart by (simp add: next_seq_def mod_add_right_eq add.commute)
    with inv mono numbered_new [OF new, of t] ProbeStart show ?thesis
      unfolding trace_inv_def s' by auto
  next
    case (Receive b)
    show ?thesis
    proof (cases "s' = s")
      case True
      with inv mono Receive show ?thesis unfolding trace_inv_def by auto
    next
      case False
      with Receive assms(3) obtain n q d i where b: "parseEchoReply parse (take 1500 b) = Inr (n, q, d)"
        and p: "pending s q = Some i"
        and s': "s' = s\<lparr>pending := (pending s)(q := None), reader := RDeliver i\<rparr>"
        by (auto simp: receive_def split: if_splits sum.splits option.splits)
      have i: "numbered es i q" "i \<in> set (starts es)"
        using inv p assms(1) [unfolded icmp_inv_def] by blast+
      have "confirmed parse (es @ [e]) i"
        using numbered_snoc [OF i(1)] answered_now [OF i(2) b] Receive unfolding confirmed_def by blast
      with inv mono Receive show ?thesis unfolding trace_inv_def s' by auto
    qed
  next
    case (Deliver t)
    with assms(3) obtain i where i: "reader s = RDeliver i"
      "s' = s\<lparr>chans := (chans s)(i := chans s i @ [icmp_result t 0 True []]), reader := RRead\<rparr>"
      by (auto simp: deliver_def split: if_splits reader.splits)
    with inv mono Deliver show ?thesis unfolding trace_inv_def i(2) by auto
  next
    case ReadFailed
    with assms(3) inv mono show ?thesis unfolding trace_inv_def by (auto simp: read_failed_def split: if_splits)
  next
    case (GotReply i t)
    with assms(3) obtain start seq r rest where i: "probes s i = Some (PWait start seq)" "chans s i = r # rest"
      "s' = s\<lparr>chans := (chans s)(i := rest),
        probes := (probes s)(i \<mapsto> PReturned (r\<lparr>Latency := time_sub t start, Timestamp := start\<rparr>))\<rparr>"
      by (auto simp: got_reply_def split: option.splits icmp_probe.splits list.splits)
    have "confirmed parse es i" "i \<in> set (starts es)" using inv i by auto
    with inv mono GotReply show ?thesis unfolding trace_inv_def i(3) by auto
  next
    case (TimeoutReturn i t)
    with assms(3) obtain start seq where i: "probes s i = Some (PTimedOut start seq)"
      "s' = s\<lparr>pending := (pending s)(seq := None), probes := (probes s)(i \<mapsto>
         PReturned (icmp_result start (time_sub t start) False ''timeout''))\<rparr>"
      by (auto simp: timeout_return_def split: option.splits icmp_probe.splits)
    have "i \<in> set (starts es)" using inv i(1) by auto
    with inv mono TimeoutReturn show ?thesis unfolding trace_inv_def i(2) by (auto simp: icmp_result_def)
  next
    case (SendFailed i x)
    with assms(3) obtain start seq where i: "probes s i = Some (PSend start seq)"
      "s' = s\<lparr>probes := (probes s)(i \<mapsto> PReturned (icmp_result start 0 False x))\<rparr>"
      by (auto simp: send_failed_def split: option.splits icmp_probe.splits)
    have "i \<in> set (starts es)" using inv i(1) by auto
    with inv mono SendFailed show ?thesis unfolding trace_inv_def i(2) by (auto simp: icmp_result_def)
  next
    case (SendOk i)
    with assms(3) obtain start seq where i: "probes s i = Some (PSend start seq)"
      "s' = s\<lparr>probes := (probes s)(i \<mapsto> PWait start seq)\<rparr>"
      by (auto simp: send_ok_def split: option.splits icmp_probe.splits)
    have "i \<in> set (starts es)" using inv i(1) by auto
    with inv mono SendOk show ?thesis unfolding trace_inv_def i(2) by auto
  next
    case (TimerFired i)
    with assms(3) obtain start seq where i: "probes s i = Some (PWait start seq)"
      "s' = s\<lparr>probes := (probes s)(i \<mapsto> PTimedOut start seq)\<rparr>"
      by (auto simp: timer_fired_def split: option.splits icmp_probe.splits)
    have "i \<in> set (starts es)" using inv i(1) by auto
    with inv mono TimerFired show ?thesis unfolding trace_inv_def i(2) by auto
  next
    case (CtxDone i x)
    with assms(3) obtain start seq where i: "probes s i = Some (PWait start seq)"
      "s' = s\<lparr>probes := (probes s)(i \<mapsto> PReturned (icmp_result start 0 False x))\<rparr>"
      by (auto simp: ctx_done_def split: option.splits icmp_probe.splits)
    have "i \<in> set (starts es)" using inv i(1) by auto
    with inv mono CtxDone show ?thesis unfolding trace_inv_def i(2) by (auto simp: icmp_result_def)
  qed
qed

lemma icmp_run_trace: "icmp_run parse es s \<Longrightarrow> trace_inv parse es s"
proof (induction rule: icmp_run.induct)
  case start
  then show ?case by (simp add: trace_inv_def New_icmp_def)
next
  case (step es s e s')
  then show ?case using trace_inv_step icmp_run_inv by blast
qed

section \<open>Properties\<close>

text \<open>
  C29. The read loop never blocks on a probe: in every reachable state in which it has taken a channel
  from the map, the channel has a free slot, so the send goes through; no timeout, cancellation or
  duplicate reply can stall the demultiplexing for the other probes.
\<close>

theorem icmp_reader_never_blocks:
  assumes "icmp_run parse es s" "reader s = RDeliver i"
  shows "\<exists>s'. icmp_step parse (Deliver now) s = Some s' \<and> reader s' = RRead"
proof -
  have "chans s i = []" using icmp_run_inv [OF assms(1)] assms(2) unfolding icmp_inv_def by blast
  with assms(2) show ?thesis by (simp add: deliver_def)
qed

definition echo_parser :: "int \<Rightarrow> byte list \<Rightarrow> string + icmp_message" where
  "echo_parser proto b =
     (case b of
        t # q # _ \<Rightarrow> Inr \<lparr>icmp_type = uint t, icmp_code = 0, icmp_body = EchoBody 0 (uint q) []\<rparr>
      | _ \<Rightarrow> Inl ''short'')"

fun icmp_exec ::
    "(int \<Rightarrow> byte list \<Rightarrow> string + icmp_message) \<Rightarrow> icmp_event list \<Rightarrow> icmp_prober \<Rightarrow> icmp_prober option" where
  "icmp_exec parse [] s = Some s"
| "icmp_exec parse (e # es) s =
     (case icmp_step parse e s of None \<Rightarrow> None | Some s' \<Rightarrow> icmp_exec parse es s')"

lemma icmp_exec_run:
  "icmp_run parse es0 s \<Longrightarrow> icmp_exec parse es s = Some s' \<Longrightarrow> icmp_run parse (es0 @ es) s'"
proof (induction es arbitrary: es0 s)
  case (Cons e es)
  then obtain s1 where "icmp_step parse e s = Some s1" "icmp_exec parse es s1 = Some s'"
    by (auto split: option.splits)
  with Cons.IH [OF icmp_run.step [OF Cons.prems(1)]] show ?case by fastforce
qed simp

lemma icmp_exec_from_start: "icmp_exec parse es New_icmp = Some s \<Longrightarrow> icmp_run parse es s"
  using icmp_exec_run [OF icmp_run.start] by fastforce

lemmas icmp_sample_defs = New_icmp_def probe_start_def send_ok_def receive_def deliver_def got_reply_def
  next_seq_def parseEchoReply_def echo_parser_def icmp_result_def

theorem icmp_reader_never_blocks_witness:
  "\<exists>s s'. icmp_exec echo_parser [ProbeStart 7 100, SendOk 7, Receive [0, 1]] New_icmp = Some s \<and>
     icmp_step echo_parser (Deliver 105) s = Some s'"
proof -
  obtain s where s: "icmp_exec echo_parser [ProbeStart 7 100, SendOk 7, Receive [0, 1]] New_icmp = Some s"
    "reader s = RDeliver 7"
    by (simp add: icmp_sample_defs)
  from icmp_reader_never_blocks [OF icmp_exec_from_start [OF s(1)] s(2), of 105] s(1) show ?thesis by blast
qed

text \<open>
  C30. Where a success comes from: if a probe returned a successful result then, after it started, the
  socket received a datagram holding an echo message with the probe's own number, which is the count
  of probes started up to it, modulo \<open>2^16\<close>.
\<close>

theorem icmp_ok_confirmed:
  assumes "icmp_run parse es s" "probes s i = Some (PReturned r)" "OK r"
  shows "\<exists>k es1 es2 b n d. index_of i (starts es) = Some k \<and>
    es = es1 @ Receive b # es2 \<and> i \<in> set (starts es1) \<and>
    parseEchoReply parse (take 1500 b) = Inr (n, (int k + 1) mod 65536, d)"
proof -
  from icmp_run_trace [OF assms(1)] assms(2,3) have "confirmed parse es i"
    unfolding trace_inv_def by blast
  then show ?thesis unfolding confirmed_def numbered_def answered_def by blast
qed

text \<open>The run in which one datagram, whatever it is beyond its number, answers a probe.\<close>

lemma icmp_one_datagram:
  assumes "parseEchoReply parse (take 1500 b) = Inr (n, 1, d)"
  shows "\<exists>s. icmp_exec parse [ProbeStart i t, SendOk i, Receive b, Deliver t', GotReply i t''] New_icmp = Some s \<and>
    probes s i = Some (PReturned (icmp_result t (time_sub t'' t) True []))"
  using assms by (simp add: New_icmp_def probe_start_def send_ok_def receive_def deliver_def got_reply_def
      next_seq_def icmp_result_def)

theorem icmp_ok_confirmed_witness:
  "\<exists>k es1 es2 b n d.
     index_of 7 (starts [ProbeStart 7 100, SendOk 7, Receive [0, 1], Deliver 104, GotReply 7 105]) = Some k \<and>
     [ProbeStart 7 100, SendOk 7, Receive [0, 1], Deliver 104, GotReply 7 105] = es1 @ Receive b # es2 \<and>
     7 \<in> set (starts es1) \<and>
     parseEchoReply echo_parser (take 1500 b) = Inr (n, (int k + 1) mod 65536, d)"
proof -
  have "parseEchoReply echo_parser (take 1500 [0, 1]) = Inr (0, 1, [])"
    by (simp add: parseEchoReply_def echo_parser_def)
  from icmp_one_datagram [OF this, of 7 100 104 105] obtain s where
    s: "icmp_exec echo_parser [ProbeStart 7 100, SendOk 7, Receive [0, 1], Deliver 104, GotReply 7 105] New_icmp = Some s"
    "probes s 7 = Some (PReturned (icmp_result 100 (time_sub 105 100) True []))" by blast
  have "OK (icmp_result 100 (time_sub 105 100) True [])" by (simp add: icmp_result_def)
  from icmp_ok_confirmed [OF icmp_exec_from_start [OF s(1)] s(2) this] show ?thesis .
qed

text \<open>
  Replies are matched by their number alone: any received echo message with the probe's number
  makes the probe succeed, whatever its identifier, its type (an echo request too), its payload and
  its sender.
\<close>

theorem icmp_matches_number_only:
  assumes "parse protocolICMP (take 1500 b) = Inr \<lparr>icmp_type = ty, icmp_code = co, icmp_body = EchoBody n 1 d\<rparr>"
  shows "\<exists>es s r. icmp_run parse es s \<and> probes s i = Some (PReturned r) \<and> OK r \<and>
    (\<forall>b'. Receive b' \<in> set es \<longrightarrow> b' = b)"
proof -
  have "parseEchoReply parse (take 1500 b) = Inr (n, 1, d)"
    using assms by (simp add: parseEchoReply_def)
  from icmp_one_datagram [OF this, of i 0 0 0] obtain s where
    s: "icmp_exec parse [ProbeStart i 0, SendOk i, Receive b, Deliver 0, GotReply i 0] New_icmp = Some s"
    "probes s i = Some (PReturned (icmp_result 0 (time_sub 0 0) True []))" by blast
  show ?thesis
    by (rule exI, rule exI, rule exI, rule conjI [OF icmp_exec_from_start [OF s(1)]])
      (use s(2) in \<open>auto simp: icmp_result_def\<close>)
qed

theorem icmp_matches_number_only_witness:
  "\<exists>es s r. icmp_run echo_parser es s \<and> probes s 7 = Some (PReturned r) \<and> OK r \<and>
    (\<forall>b'. Receive b' \<in> set es \<longrightarrow> b' = [8, 1])"
proof (rule icmp_matches_number_only)
  show "echo_parser protocolICMP (take 1500 [8, 1]) =
    Inr \<lparr>icmp_type = ICMPTypeEcho, icmp_code = 0, icmp_body = EchoBody 0 1 []\<rparr>"
    by (simp add: echo_parser_def ICMPTypeEcho_def)
qed

end
