(* ===== verification/Aggregator.thy ===== *)
theory Aggregator
  imports Classifier Store "HOL-Library.Multiset"
begin

text \<open>
  \<open>internal/pkg/aggregator/aggregator.go\<close>: this node's own view (the classified state of
  every key of the store) and the merged mesh view (the own view and one fetch per peer, written
  into one map in the order the fetches complete).
\<close>

section \<open>Data\<close>

record sample =
  State :: string
  LastTS :: time

text \<open>A nil map of samples and an empty one are different values.\<close>

record observer_view =
  Host :: string
  Samples :: "(string \<rightharpoonup> (protocol \<rightharpoonup> sample)) option"
  Reachable :: bool
  Reason :: string

record mesh_view =
  GeneratedAt :: time
  Observers :: "string \<rightharpoonup> observer_view"

record aggregator =
  localHost :: string
  peers :: "string list"
  agg_window :: int
  agg_threshold :: int
  agg_timeout :: duration

section \<open>The local view\<close>

text \<open>
  One iteration of the loop over the keys. Between the call of \<open>Keys\<close> and the
  \<open>Snapshot\<close> of a key the workers may append to the store, so an iteration comes with the
  store it reads.
\<close>

definition view_step :: "aggregator \<Rightarrow> key \<times> store \<Rightarrow> observer_view \<Rightarrow> panic + observer_view" where
  "view_step a ks v =
     (let k = fst ks in
      and_then (Snapshot (Peer k) (Protocol k) (snd ks)) (\<lambda>snap.
        let samples = (case snap of None \<Rightarrow> [] | Some xs \<Rightarrow> xs) in
        and_then (Classify samples (agg_window a) (agg_threshold a)) (\<lambda>st.
          let lastTS = (if length samples > 0 then Timestamp (samples ! (length samples - 1)) else zero_time);
              m = (case Samples v of None \<Rightarrow> Map.empty | Some m \<Rightarrow> m);
              inner = (case m (Peer k) of None \<Rightarrow> Map.empty | Some i \<Rightarrow> i)
          in Inr (v\<lparr>Samples := Some (m(Peer k \<mapsto> inner(Protocol k \<mapsto> \<lparr>State = state_text st, LastTS = lastTS\<rparr>)))\<rparr>))))"

definition view_init :: "aggregator \<Rightarrow> observer_view" where
  "view_init a = \<lparr>Host = localHost a, Samples = Some Map.empty, Reachable = True, Reason = []\<rparr>"

definition localView_at :: "aggregator \<Rightarrow> (key \<times> store) list \<Rightarrow> panic + observer_view" where
  "localView_at a reads = run_all (view_step a) reads (view_init a)"

text \<open>The same with no append during the loop.\<close>

definition localView :: "aggregator \<Rightarrow> key list \<Rightarrow> store \<Rightarrow> panic + observer_view" where
  "localView a order st = localView_at a (map (\<lambda>k. (k, st)) (Keys order st))"

section \<open>The mesh view\<close>

text \<open>What one fetch goroutine ends with; a panic is recovered and leaves no entry.\<close>

datatype fetch_outcome =
    Fetched observer_view
  | FetchErr string
  | FetchPanic panic

definition merge_step :: "mesh_view \<Rightarrow> string \<times> fetch_outcome \<Rightarrow> mesh_view" where
  "merge_step mv po =
     (let p = fst po in
      case snd po of
        FetchErr e \<Rightarrow>
          mv\<lparr>Observers := (Observers mv)(p \<mapsto> \<lparr>Host = p, Samples = None, Reachable = False, Reason = e\<rparr>)\<rparr>
      | Fetched v \<Rightarrow> mv\<lparr>Observers := (Observers mv)(p \<mapsto> v\<lparr>Reachable := True\<rparr>)\<rparr>
      | FetchPanic _ \<Rightarrow> mv)"

text \<open>
  \<open>completions\<close> lists the goroutines' outcomes in the order in which they take the lock: any
  order of the peers.
\<close>

definition Aggregate ::
    "aggregator \<Rightarrow> time \<Rightarrow> key list \<Rightarrow> store \<Rightarrow> (string \<times> fetch_outcome) list \<Rightarrow> panic + mesh_view" where
  "Aggregate a now order st completions =
     and_then (localView a order st) (\<lambda>lv.
       Inr (foldl merge_step \<lparr>GeneratedAt = now, Observers = [localHost a \<mapsto> lv]\<rparr> completions))"

definition all_peers_complete :: "aggregator \<Rightarrow> (string \<times> fetch_outcome) list \<Rightarrow> bool" where
  "all_peers_complete a completions \<longleftrightarrow> mset (map fst completions) = mset (peers a)"

section \<open>Lemmas on the local view\<close>

definition sample_at :: "observer_view \<Rightarrow> key \<Rightarrow> sample option" where
  "sample_at v k =
     (case Samples v of
        None \<Rightarrow> None
      | Some m \<Rightarrow> (case m (Peer k) of None \<Rightarrow> None | Some i \<Rightarrow> i (Protocol k)))"

definition last_ts :: "result list \<Rightarrow> time" where
  "last_ts rs = (if rs = [] then zero_time else Timestamp (last rs))"

lemma view_init_simps [simp]:
  "Host (view_init a) = localHost a" "Reachable (view_init a)" "Reason (view_init a) = []"
  "Samples (view_init a) \<noteq> None"
  by (simp_all add: view_init_def)

lemma sample_at_init [simp]: "sample_at (view_init a) k = None"
  by (simp add: sample_at_def view_init_def)

lemma Classify_total: "0 \<le> w \<Longrightarrow> \<exists>s. Classify rs w th = Inr s"
  by (cases rs w th rule: Classify_cases) auto

text \<open>One iteration writes the sample of its key and nothing else.\<close>

lemma view_step_ok:
  assumes "store_inv st" "0 \<le> agg_window a" "Samples v \<noteq> None"
  shows "\<exists>s v'. Classify (store_log k st) (agg_window a) (agg_threshold a) = Inr s \<and>
    view_step a (k, st) v = Inr v' \<and>
    Samples v' \<noteq> None \<and> Host v' = Host v \<and> Reachable v' = Reachable v \<and> Reason v' = Reason v \<and>
    sample_at v' = (sample_at v)(k \<mapsto> \<lparr>State = state_text s, LastTS = last_ts (store_log k st)\<rparr>)"
proof -
  obtain s where s: "Classify (store_log k st) (agg_window a) (agg_threshold a) = Inr s"
    using Classify_total [OF assms(2)] by blast
  have snap: "Snapshot (Peer k) (Protocol k) st =
      Inr (if bufs st k = None then None else Some (store_log k st))"
    using Snapshot_ok [OF assms(1), of k] by (simp add: snapshot_key_def)
  have log: "(case (if bufs st k = None then None else Some (store_log k st)) of
      None \<Rightarrow> [] | Some xs \<Rightarrow> xs) = store_log k st"
    by (simp add: store_log_def)
  from assms(3) obtain m where m: "Samples v = Some m" by blast
  have "sample_at (v\<lparr>Samples := Some (m(Peer k \<mapsto> i(Protocol k \<mapsto> x)))\<rparr>) = (sample_at v)(k \<mapsto> x)"
    if "i = (case m (Peer k) of None \<Rightarrow> Map.empty | Some i \<Rightarrow> i)" for i x
  proof
    fix k'
    show "sample_at (v\<lparr>Samples := Some (m(Peer k \<mapsto> i(Protocol k \<mapsto> x)))\<rparr>) k' =
        ((sample_at v)(k \<mapsto> x)) k'"
      by (cases k; cases k') (auto simp: sample_at_def m that split: option.splits)
  qed
  then show ?thesis
    using s m by (simp add: view_step_def snap log last_ts_def last_conv_nth Let_def)
qed

lemma view_run_ok:
  assumes "\<And>k. k \<in> set ks \<Longrightarrow> store_inv (st k)" "0 \<le> agg_window a" "Samples v \<noteq> None"
  shows "\<exists>v'. run_all (view_step a) (map (\<lambda>k. (k, st k)) ks) v = Inr v' \<and>
    Samples v' \<noteq> None \<and> Host v' = Host v \<and> Reachable v' = Reachable v \<and> Reason v' = Reason v \<and>
    (\<forall>k. if k \<in> set ks
         then \<exists>s. Classify (store_log k (st k)) (agg_window a) (agg_threshold a) = Inr s \<and>
                  sample_at v' k = Some \<lparr>State = state_text s, LastTS = last_ts (store_log k (st k))\<rparr>
         else sample_at v' k = sample_at v k)"
  using assms(1,3)
proof (induction ks arbitrary: v)
  case Nil
  then show ?case by simp
next
  case (Cons k ks)
  have "store_inv (st k)" by (rule Cons.prems(1)) simp
  from view_step_ok [OF this assms(2) Cons.prems(2), of k] obtain s v1 where
    s: "Classify (store_log k (st k)) (agg_window a) (agg_threshold a) = Inr s"
    and v1: "view_step a (k, st k) v = Inr v1" "Samples v1 \<noteq> None" "Host v1 = Host v"
      "Reachable v1 = Reachable v" "Reason v1 = Reason v"
      "sample_at v1 = (sample_at v)(k \<mapsto> \<lparr>State = state_text s, LastTS = last_ts (store_log k (st k))\<rparr>)" by blast
  have "\<And>k'. k' \<in> set ks \<Longrightarrow> store_inv (st k')" by (rule Cons.prems(1)) simp
  from Cons.IH [OF this v1(2)] obtain v2 where
    v2: "run_all (view_step a) (map (\<lambda>k. (k, st k)) ks) v1 = Inr v2" "Samples v2 \<noteq> None"
      "Host v2 = Host v1" "Reachable v2 = Reachable v1" "Reason v2 = Reason v1"
    and rest: "\<forall>k. if k \<in> set ks
         then \<exists>s. Classify (store_log k (st k)) (agg_window a) (agg_threshold a) = Inr s \<and>
                  sample_at v2 k = Some \<lparr>State = state_text s, LastTS = last_ts (store_log k (st k))\<rparr>
         else sample_at v2 k = sample_at v1 k" by blast
  have "if k' \<in> set (k # ks)
         then \<exists>s. Classify (store_log k' (st k')) (agg_window a) (agg_threshold a) = Inr s \<and>
                  sample_at v2 k' = Some \<lparr>State = state_text s, LastTS = last_ts (store_log k' (st k'))\<rparr>
         else sample_at v2 k' = sample_at v k'" for k'
    using rest [rule_format, of k'] v1(6) s by (cases "k' = k") (auto split: if_splits)
  with v1 v2 show ?case by simp
qed

text \<open>The loop over the keys of one store, each snapshot taken from a store of its own.\<close>

lemma localView_at_ok:
  assumes "map_order (bufs st0) order" "\<And>k. k \<in> set order \<Longrightarrow> store_inv (st k)" "0 \<le> agg_window a"
  shows "\<exists>v. localView_at a (map (\<lambda>k. (k, st k)) (Keys order st0)) = Inr v \<and>
    Host v = localHost a \<and> Reachable v \<and> Reason v = [] \<and>
    (\<forall>k. if bufs st0 k = None then sample_at v k = None
         else \<exists>s. Classify (store_log k (st k)) (agg_window a) (agg_threshold a) = Inr s \<and>
                  sample_at v k = Some \<lparr>State = state_text s, LastTS = last_ts (store_log k (st k))\<rparr>)"
proof -
  have set: "k \<in> set order \<longleftrightarrow> bufs st0 k \<noteq> None" for k
    using assms(1) by (auto simp: map_order_def)
  from view_run_ok [where ks = order and st = st, OF assms(2,3) view_init_simps(4) [of a]] obtain v
    where "run_all (view_step a) (map (\<lambda>k. (k, st k)) order) (view_init a) = Inr v"
      "Host v = localHost a" "Reachable v" "Reason v = []"
      "\<forall>k. if bufs st0 k \<noteq> None
         then \<exists>s. Classify (store_log k (st k)) (agg_window a) (agg_threshold a) = Inr s \<and>
                  sample_at v k = Some \<lparr>State = state_text s, LastTS = last_ts (store_log k (st k))\<rparr>
         else sample_at v k = None"
    unfolding set by auto
  then show ?thesis
    unfolding localView_at_def Keys_order [OF assms(1)]
    by (intro exI [of _ v]) (simp split: if_splits)
qed

lemma localView_ok:
  assumes "store_inv st" "map_order (bufs st) order" "0 \<le> agg_window a"
  shows "\<exists>v. localView a order st = Inr v \<and> Host v = localHost a \<and> Reachable v \<and> Reason v = [] \<and>
    (\<forall>k. if bufs st k = None then sample_at v k = None
         else \<exists>s. Classify (store_log k st) (agg_window a) (agg_threshold a) = Inr s \<and>
                  sample_at v k = Some \<lparr>State = state_text s, LastTS = last_ts (store_log k st)\<rparr>)"
  using localView_at_ok [OF assms(2) assms(1) assms(3)] unfolding localView_def by simp

text \<open>The outer map of a view has the peers of the visited keys.\<close>

lemma view_step_dom:
  "view_step a ks v = Inr v' \<Longrightarrow> Samples v = Some m \<Longrightarrow>
     \<exists>m'. Samples v' = Some m' \<and> dom m' = insert (Peer (fst ks)) (dom m)"
  by (auto simp: view_step_def Let_def ok_iff)

lemma view_run_dom:
  assumes "run_all (view_step a) reads v = Inr v'" "Samples v = Some m"
  shows "\<exists>m'. Samples v' = Some m' \<and> dom m' = dom m \<union> (Peer \<circ> fst) ` set reads"
  using assms
proof (induction reads arbitrary: v m)
  case (Cons ks reads)
  then obtain v1 where v1: "view_step a ks v = Inr v1" "run_all (view_step a) reads v1 = Inr v'"
    by (auto simp: ok_iff)
  from view_step_dom [OF v1(1) Cons.prems(2)] obtain m1 where
    "Samples v1 = Some m1" "dom m1 = insert (Peer (fst ks)) (dom m)" by blast
  with Cons.IH [OF v1(2)] show ?case by auto
qed simp

lemma localView_Host:
  assumes "localView a order st = Inr v"
  shows "Host v = localHost a"
proof -
  have "Host u' = Host u" if "run_all (view_step a) reads u = Inr u'" for reads u u'
    using that by (induction reads arbitrary: u) (auto simp: ok_iff view_step_def Let_def)
  from this [OF assms [unfolded localView_def localView_at_def]] show ?thesis by simp
qed

lemma localView_Reason:
  assumes "localView a order st = Inr v"
  shows "Reason v = []"
proof -
  have "Reason u' = Reason u" if "run_all (view_step a) reads u = Inr u'" for reads u u'
    using that by (induction reads arbitrary: u) (auto simp: ok_iff view_step_def Let_def)
  from this [OF assms [unfolded localView_def localView_at_def]] show ?thesis by simp
qed

lemma localView_dom:
  assumes "localView a order st = Inr v" "map_order (bufs st) order"
  shows "\<exists>m. Samples v = Some m \<and> dom m = Peer ` dom (bufs st)"
proof -
  have "set order = dom (bufs st)" using assms(2) by (simp add: map_order_def)
  moreover have "Samples (view_init a) = Some Map.empty" by (simp add: view_init_def)
  ultimately show ?thesis
    using view_run_dom [OF assms(1) [unfolded localView_def localView_at_def Keys_order [OF assms(2)]]]
    by (force simp: image_comp)
qed

section \<open>Lemmas on the merge\<close>

text \<open>What a completed fetch leaves under its peer's name.\<close>

fun outcome_entry :: "string \<Rightarrow> fetch_outcome \<Rightarrow> observer_view option" where
  "outcome_entry p (Fetched v) = Some (v\<lparr>Reachable := True\<rparr>)"
| "outcome_entry p (FetchErr e) = Some \<lparr>Host = p, Samples = None, Reachable = False, Reason = e\<rparr>"
| "outcome_entry p (FetchPanic x) = None"

lemma merge_step_Observers:
  "Observers (merge_step mv (p, out)) q =
     (if q = p \<and> outcome_entry p out \<noteq> None then outcome_entry p out else Observers mv q)"
  by (cases out) (auto simp: merge_step_def Let_def)

lemma merge_step_GeneratedAt [simp]: "GeneratedAt (merge_step mv po) = GeneratedAt mv"
  by (simp add: merge_step_def Let_def split: fetch_outcome.split)

lemma merge_Observers:
  assumes "distinct (map fst cs)"
  shows "Observers (foldl merge_step mv cs) q =
    (case map_of cs q of
       Some out \<Rightarrow> (case outcome_entry q out of Some e \<Rightarrow> Some e | None \<Rightarrow> Observers mv q)
     | None \<Rightarrow> Observers mv q)"
  using assms
proof (induction cs arbitrary: mv)
  case Nil
  then show ?case by simp
next
  case (Cons c cs)
  obtain p out where c: "c = (p, out)" by (cases c)
  show ?case
  proof (cases "q = p")
    case True
    with Cons c have "map_of cs q = None" by (auto simp: map_of_eq_None_iff)
    with Cons c True show ?thesis
      by (auto simp: merge_step_Observers split: option.splits)
  next
    case False
    with Cons c show ?thesis
      by (auto simp: merge_step_Observers split: option.splits)
  qed
qed

lemma merge_GeneratedAt: "GeneratedAt (foldl merge_step mv cs) = GeneratedAt mv"
  by (induction cs arbitrary: mv) simp_all

lemma map_of_eqI_mset:
  assumes "distinct (map fst xs)" "distinct (map fst ys)" "mset xs = mset ys"
  shows "map_of xs = map_of ys"
proof -
  have "set xs = set ys" using assms(3) by (rule mset_eq_setD)
  then show ?thesis using assms(1,2) by (simp add: map_of_inject_set)
qed

lemma all_peers_complete_distinct:
  "all_peers_complete a cs \<Longrightarrow> distinct (peers a) \<Longrightarrow> distinct (map fst cs)"
  by (metis all_peers_complete_def mset_eq_imp_distinct_iff)

lemma all_peers_complete_set: "all_peers_complete a cs \<Longrightarrow> fst ` set cs = set (peers a)"
  by (metis all_peers_complete_def mset_eq_setD set_map)

section \<open>Properties\<close>

lemma New_run:
  assumes "run_all append_key ops (New_store c) = Inr st"
  shows "store_inv st" and "bufs st k = None \<longleftrightarrow> k \<notin> fst ` set ops"
    and "store_log k st = lastn (nat (max 1 c)) (history k ops)"
proof -
  have "cap (New_store c) = max 1 c" by (simp add: New_store_def)
  then show "store_inv st" "store_log k st = lastn (nat (max 1 c)) (history k ops)"
    using store_run [OF store_inv_New, of ops c] assms by auto
  have "dom (bufs st) = fst ` set ops"
    using store_run [OF store_inv_New, of ops c] assms by (auto simp: New_store_def)
  then show "bufs st k = None \<longleftrightarrow> k \<notin> fst ` set ops" by auto
qed

lemma history_Nil_iff: "history k ops = [] \<longleftrightarrow> k \<notin> fst ` set ops"
  by (auto simp: history_def filter_empty_conv)

lemma localView_history:
  assumes "run_all append_key ops (New_store c) = Inr st" and "map_order (bufs st) order"
    and "0 \<le> agg_window a" and "agg_window a \<le> max 1 c"
  shows "\<exists>v. localView a order st = Inr v \<and> Host v = localHost a \<and> Reachable v \<and>
    (\<forall>k. if k \<in> fst ` set ops
         then \<exists>s. Classify (history k ops) (agg_window a) (agg_threshold a) = Inr s \<and>
                sample_at v k = Some \<lparr>State = state_text s, LastTS = Timestamp (last (history k ops))\<rparr>
         else sample_at v k = None)"
proof -
  note st = New_run [OF assms(1)]
  have cl: "Classify (store_log k st) w th = Classify (history k ops) w th" if "w \<le> max 1 c" for k w th
    unfolding st(3) by (rule Classify_lastn) (use that in simp)
  have ts: "last_ts (store_log k st) = Timestamp (last (history k ops))" if "k \<in> fst ` set ops" for k
  proof -
    from that have "history k ops \<noteq> []" by (simp add: history_Nil_iff)
    then show ?thesis by (simp add: st(3) last_ts_def last_lastn lastn_eq_Nil_iff)
  qed
  from localView_ok [OF st(1) assms(2,3)] obtain v where v: "localView a order st = Inr v"
    "Host v = localHost a" "Reachable v"
    "\<forall>k. if bufs st k = None then sample_at v k = None
      else \<exists>s. Classify (store_log k st) (agg_window a) (agg_threshold a) = Inr s \<and>
        sample_at v k = Some \<lparr>State = state_text s, LastTS = last_ts (store_log k st)\<rparr>" by blast
  with assms(4) show ?thesis
    by (intro exI [of _ v]) (auto simp: st(2) cl ts split: if_splits)
qed

lemma localView_appends:
  assumes "\<And>n. run_all append_key (take n ops) (New_store c) = Inr (st n)"
    and "map_order (bufs (st n0)) order" and "\<And>k. n0 \<le> moment k"
    and "0 \<le> agg_window a" and "agg_window a \<le> max 1 c"
  shows "\<exists>v. localView_at a (map (\<lambda>k. (k, st (moment k))) (Keys order (st n0))) = Inr v \<and>
    Host v = localHost a \<and> Reachable v \<and>
    (\<forall>k. if k \<in> fst ` set (take n0 ops)
         then \<exists>s. Classify (history k (take (moment k) ops)) (agg_window a) (agg_threshold a) = Inr s \<and>
                sample_at v k = Some \<lparr>State = state_text s,
                                        LastTS = Timestamp (last (history k (take (moment k) ops)))\<rparr>
         else sample_at v k = None)"
proof -
  note st = New_run [OF assms(1)]
  have cl: "Classify (store_log k (st n)) (agg_window a) (agg_threshold a) =
      Classify (history k (take n ops)) (agg_window a) (agg_threshold a)" for k n
    unfolding st(3) by (rule Classify_lastn) (use assms(5) in simp)
  have ts: "last_ts (store_log k (st (moment k))) = Timestamp (last (history k (take (moment k) ops)))"
    if "k \<in> fst ` set (take n0 ops)" for k
  proof -
    from that have "k \<in> fst ` set (take (moment k) ops)"
      using set_take_subset_set_take [OF assms(3), of ops k] by blast
    then have "history k (take (moment k) ops) \<noteq> []" by (simp add: history_Nil_iff)
    then show ?thesis by (simp add: st(3) last_ts_def last_lastn lastn_eq_Nil_iff)
  qed
  from localView_at_ok [OF assms(2) st(1) assms(4), of moment] obtain v where
    v: "localView_at a (map (\<lambda>k. (k, st (moment k))) (Keys order (st n0))) = Inr v"
      "Host v = localHost a" "Reachable v"
    "\<forall>k. if bufs (st n0) k = None then sample_at v k = None
      else \<exists>s. Classify (store_log k (st (moment k))) (agg_window a) (agg_threshold a) = Inr s \<and>
        sample_at v k = Some \<lparr>State = state_text s, LastTS = last_ts (store_log k (st (moment k)))\<rparr>" by blast
  then show ?thesis
    by (intro exI [of _ v]) (auto simp: st(2) cl ts split: if_splits)
qed

text \<open>
  The ring buffers lose nothing the view needs: whatever sequence of results was appended to
  a store whose capacity is at least the failure window, in whatever order the keys are visited,
  the view has exactly one entry per key that was ever appended to, its state is the
  classification of that key's entire history, and its time stamp is that of the newest result.
\<close>

theorem localView_classifies_history:
  assumes "run_all append_key ops (New_store c) = Inr st" and "map_order (bufs st) order"
    and "0 \<le> agg_window a" and "agg_window a \<le> max 1 c"
  shows "\<exists>v. localView a order st = Inr v \<and> Host v = localHost a \<and> Reachable v \<and>
    (\<forall>k. if k \<in> fst ` set ops
         then \<exists>s. Classify (history k ops) (agg_window a) (agg_threshold a) = Inr s \<and>
                sample_at v k = Some \<lparr>State = state_text s, LastTS = Timestamp (last (history k ops))\<rparr>
         else sample_at v k = None)"
  using assms by (rule localView_history)

text \<open>
  C26. The local view while the workers keep appending: the keys are those of the store after
  \<open>n0\<close> appends, and the snapshot of a key is taken after some later number
  \<open>moment k\<close> of appends. If the ring buffer is at least as long as the failure window, the
  view still has exactly one entry per key that had been appended to when the keys were listed, and
  each entry is the classification, with the newest time stamp, of that key's whole history up to
  the moment its own snapshot was taken: no entry mixes moments and none is missing.
\<close>

theorem localView_during_appends:
  assumes "\<And>n. run_all append_key (take n ops) (New_store c) = Inr (st n)"
    and "map_order (bufs (st n0)) order" and "\<And>k. n0 \<le> moment k"
    and "0 \<le> agg_window a" and "agg_window a \<le> max 1 c"
  shows "\<exists>v. localView_at a (map (\<lambda>k. (k, st (moment k))) (Keys order (st n0))) = Inr v \<and>
    Host v = localHost a \<and> Reachable v \<and>
    (\<forall>k. if k \<in> fst ` set (take n0 ops)
         then \<exists>s. Classify (history k (take (moment k) ops)) (agg_window a) (agg_threshold a) = Inr s \<and>
                sample_at v k = Some \<lparr>State = state_text s,
                                        LastTS = Timestamp (last (history k (take (moment k) ops)))\<rparr>
         else sample_at v k = None)"
  using assms by (rule localView_appends)

text \<open>
  A ring buffer smaller than the failure window (which the configuration check accepts) makes
  every state of the view Unknown, whatever was measured.
\<close>

theorem small_ring_always_unknown:
  assumes "run_all append_key ops (New_store c) = Inr st" and "map_order (bufs st) order"
    and "max 1 c < agg_window a"
  shows "\<exists>v. localView a order st = Inr v \<and>
    (\<forall>k. if k \<in> fst ` set ops then map_option State (sample_at v k) = Some (state_text Unknown)
         else sample_at v k = None)"
proof -
  note st = New_run [OF assms(1)]
  have "int (length (store_log k st)) < agg_window a" for k
  proof -
    have "length (store_log k st) \<le> nat (max 1 c)" by (simp add: st(3))
    with assms(3) show ?thesis by linarith
  qed
  then have cl: "Classify (store_log k st) (agg_window a) th = Inr Unknown" for k th
    by (rule Classify_short)
  have "0 \<le> agg_window a" using assms(3) by simp
  from localView_ok [OF st(1) assms(2) this] show ?thesis
    by (auto simp: st(2) cl split: if_splits)
qed

text \<open>
  C27. The merged view, once every peer's fetch has completed: under a peer's name stands exactly
  what that peer's own fetch gave, namely the view it returned, marked reachable; or, after an error,
  an unreachable entry without samples that carries the error's text; or, after a panic of the fetch,
  nothing (this node's own view if the node lists itself as a peer). This node's own view stands
  under its own name unless it lists itself, and no other name has an entry.
\<close>

theorem Aggregate_entries:
  assumes "distinct (peers a)" and "all_peers_complete a cs"
    and "localView a order st = Inr lv"
  shows "\<exists>mv. Aggregate a now order st cs = Inr mv \<and> GeneratedAt mv = now \<and>
    (\<forall>p v. (p, Fetched v) \<in> set cs \<longrightarrow> Observers mv p = Some (v\<lparr>Reachable := True\<rparr>)) \<and>
    (\<forall>p e. (p, FetchErr e) \<in> set cs \<longrightarrow>
       Observers mv p = Some \<lparr>Host = p, Samples = None, Reachable = False, Reason = e\<rparr>) \<and>
    (\<forall>p x. (p, FetchPanic x) \<in> set cs \<longrightarrow>
       Observers mv p = (if p = localHost a then Some lv else None)) \<and>
    (\<forall>q. q \<notin> set (peers a) \<longrightarrow> Observers mv q = (if q = localHost a then Some lv else None))"
proof -
  define mv where "mv = foldl merge_step \<lparr>GeneratedAt = now, Observers = [localHost a \<mapsto> lv]\<rparr> cs"
  have dist: "distinct (map fst cs)" using all_peers_complete_distinct [OF assms(2,1)] .
  have entry: "Observers mv p = (case outcome_entry p out of Some e \<Rightarrow> Some e
      | None \<Rightarrow> if p = localHost a then Some lv else None)" if "(p, out) \<in> set cs" for p out
    using map_of_is_SomeI [OF dist that]
    by (simp add: mv_def merge_Observers [OF dist] cong: option.case_cong)
  have "Observers mv q = (if q = localHost a then Some lv else None)" if "q \<notin> set (peers a)" for q
  proof -
    have "map_of cs q = None"
      using all_peers_complete_set [OF assms(2)] that by (simp add: map_of_eq_None_iff)
    then show ?thesis by (simp add: mv_def merge_Observers [OF dist])
  qed
  moreover have "Aggregate a now order st cs = Inr mv" "GeneratedAt mv = now"
    using assms(3) by (simp_all add: Aggregate_def mv_def merge_GeneratedAt)
  ultimately show ?thesis by (auto simp: entry)
qed

text \<open>
  C28. The merged view does not depend on the order in which the concurrent fetches complete.
\<close>

theorem Aggregate_order_irrelevant:
  assumes "distinct (peers a)" and "all_peers_complete a cs" and "mset cs = mset cs'"
  shows "Aggregate a now order st cs = Aggregate a now order st cs'"
proof -
  have dist: "distinct (map fst cs)" "distinct (map fst cs')"
    using all_peers_complete_distinct [OF assms(2,1)] assms(3)
    by (simp_all) (metis mset_eq_imp_distinct_iff mset_map)
  have "map_of cs = map_of cs'"
    using dist assms(3) by (intro map_of_eqI_mset)
  then have "foldl merge_step mv cs = foldl merge_step mv cs'" for mv
    by (intro mesh_view.equality) (simp_all add: fun_eq_iff merge_Observers [OF dist(1)]
        merge_Observers [OF dist(2)] merge_GeneratedAt)
  then show ?thesis by (simp add: Aggregate_def)
qed

text \<open>A node with one peer whose only probe failed, for the witnesses.\<close>

definition ex_key :: key where
  "ex_key = \<lparr>Peer = ''b'', Protocol = TCP\<rparr>"

definition ex_agg :: "int \<Rightarrow> aggregator" where
  "ex_agg w = \<lparr>localHost = ''a'', peers = [''b'', ''c''], agg_window = w, agg_threshold = 1,
     agg_timeout = 2 * second\<rparr>"

lemma ex_store: "\<exists>st. run_all append_key [(ex_key, zero_result)] (New_store 1) = Inr st \<and>
    map_order (bufs st) [ex_key]"
  using store_run [OF store_inv_New, of "[(ex_key, zero_result)]" 1]
  by (auto simp: map_order_def New_store_def)

theorem localView_classifies_history_witness:
  "\<exists>st v. localView (ex_agg 1) [ex_key] st = Inr v \<and>
     sample_at v ex_key = Some \<lparr>State = state_text Down, LastTS = zero_time\<rparr>"
proof -
  obtain st where st: "run_all append_key [(ex_key, zero_result)] (New_store 1) = Inr st"
    "map_order (bufs st) [ex_key]" using ex_store by blast
  have "0 \<le> agg_window (ex_agg 1)" "agg_window (ex_agg 1) \<le> max 1 1" by (simp_all add: ex_agg_def)
  from localView_classifies_history [OF st this] obtain v where
    v: "localView (ex_agg 1) [ex_key] st = Inr v"
    and all: "\<forall>k. if k \<in> fst ` set [(ex_key, zero_result)]
      then \<exists>s. Classify (history k [(ex_key, zero_result)]) (agg_window (ex_agg 1))
             (agg_threshold (ex_agg 1)) = Inr s \<and>
           sample_at v k = Some \<lparr>State = state_text s, LastTS = Timestamp (last (history k [(ex_key, zero_result)]))\<rparr>
      else sample_at v k = None" by blast
  have "Classify [zero_result] 1 1 = Inr Down"
    by (simp add: Classify_def slice_from_def zero_result_def)
  with spec [OF all, of ex_key] v show ?thesis
    by (auto simp: ex_agg_def zero_result_def)
qed

text \<open>A success that arrives after the keys were listed and before the snapshot is in the view.\<close>

theorem localView_during_appends_witness:
  "\<exists>st1 st2 v. run_all append_key [(ex_key, zero_result)] (New_store 1) = Inr st1 \<and>
     run_all append_key [(ex_key, zero_result), (ex_key, zero_result\<lparr>OK := True, Timestamp := 9\<rparr>)]
       (New_store 1) = Inr st2 \<and>
     localView_at (ex_agg 1) (map (\<lambda>k. (k, st2)) (Keys [ex_key] st1)) = Inr v \<and>
     sample_at v ex_key = Some \<lparr>State = state_text Up, LastTS = 9\<rparr>"
proof -
  let ?r = "zero_result\<lparr>OK := True, Timestamp := 9\<rparr>"
  let ?ops = "[(ex_key, zero_result), (ex_key, ?r)]"
  have "\<forall>n. \<exists>s. run_all append_key (take n ?ops) (New_store 1) = Inr s"
    using store_run [OF store_inv_New] by blast
  then obtain st where st: "\<And>n::nat. run_all append_key (take n ?ops) (New_store 1) = Inr (st n)"
    by metis
  have st1: "run_all append_key [(ex_key, zero_result)] (New_store 1) = Inr (st 1)"
    and st2: "run_all append_key ?ops (New_store 1) = Inr (st 2)" using st [of 1] st [of 2] by simp_all
  have keys: "map_order (bufs (st 1)) [ex_key]" using ex_store st1 by auto
  have "0 \<le> agg_window (ex_agg 1)" "agg_window (ex_agg 1) \<le> max 1 1" by (simp_all add: ex_agg_def)
  from localView_during_appends [OF st keys, of "\<lambda>_. 2", OF _ this] obtain v where
    v: "localView_at (ex_agg 1) (map (\<lambda>k. (k, st 2)) (Keys [ex_key] (st 1))) = Inr v"
    and all: "\<forall>k. if k \<in> fst ` set (take 1 ?ops)
      then \<exists>s. Classify (history k (take 2 ?ops)) (agg_window (ex_agg 1)) (agg_threshold (ex_agg 1)) = Inr s \<and>
           sample_at v k = Some \<lparr>State = state_text s, LastTS = Timestamp (last (history k (take 2 ?ops)))\<rparr>
      else sample_at v k = None" by auto
  have "history ex_key ?ops = [zero_result, ?r]" by (simp add: history_def)
  moreover have "Classify [zero_result, ?r] 1 1 = Inr Up"
    by (simp add: Classify_def slice_from_def zero_result_def)
  ultimately have "sample_at v ex_key = Some \<lparr>State = state_text Up, LastTS = 9\<rparr>"
    using spec [OF all, of ex_key] by (auto simp: ex_agg_def)
  with st1 st2 v show ?thesis by blast
qed

theorem small_ring_always_unknown_witness:
  "\<exists>st v. localView (ex_agg 5) [ex_key] st = Inr v \<and> map_option State (sample_at v ex_key) = Some (state_text Unknown)"
proof -
  obtain st where st: "run_all append_key [(ex_key, zero_result)] (New_store 1) = Inr st"
    "map_order (bufs st) [ex_key]" using ex_store by blast
  have "max 1 1 < agg_window (ex_agg 5)" by (simp add: ex_agg_def)
  from small_ring_always_unknown [OF st this] obtain v where
    v: "localView (ex_agg 5) [ex_key] st = Inr v"
    and all: "\<forall>k. if k \<in> fst ` set [(ex_key, zero_result)]
      then map_option State (sample_at v k) = Some (state_text Unknown) else sample_at v k = None" by blast
  have "map_option State (sample_at v ex_key) = Some (state_text Unknown)"
    using spec [OF all, of ex_key] by simp
  with v show ?thesis by blast
qed

lemma ex_complete: "all_peers_complete (ex_agg w) [(''c'', FetchErr ''timeout''), (''b'', Fetched (view_init (ex_agg w)))]"
  by (simp add: all_peers_complete_def ex_agg_def add_mset_commute)

theorem Aggregate_entries_witness:
  "\<exists>mv. Aggregate (ex_agg 1) 7 [] (New_store 1)
      [(''c'', FetchErr ''timeout''), (''b'', Fetched (view_init (ex_agg 1)))] = Inr mv \<and>
     Observers mv ''c'' = Some \<lparr>Host = ''c'', Samples = None, Reachable = False, Reason = ''timeout''\<rparr> \<and>
     Observers mv ''b'' = Some (view_init (ex_agg 1)) \<and>
     Observers mv ''a'' = Some (view_init (ex_agg 1)) \<and> Observers mv ''d'' = None"
proof -
  let ?cs = "[(''c'', FetchErr ''timeout''), (''b'', Fetched (view_init (ex_agg 1)))]"
  have "distinct (peers (ex_agg 1))" by (simp add: ex_agg_def)
  moreover have "localView (ex_agg 1) [] (New_store 1) = Inr (view_init (ex_agg 1))"
    by (simp add: localView_def localView_at_def Keys_def)
  ultimately obtain mv where mv: "Aggregate (ex_agg 1) 7 [] (New_store 1) ?cs = Inr mv"
    and own: "\<forall>p v. (p, Fetched v) \<in> set ?cs \<longrightarrow> Observers mv p = Some (v\<lparr>Reachable := True\<rparr>)"
    and err: "\<forall>p e. (p, FetchErr e) \<in> set ?cs \<longrightarrow>
       Observers mv p = Some \<lparr>Host = p, Samples = None, Reachable = False, Reason = e\<rparr>"
    and rest: "\<forall>q. q \<notin> set (peers (ex_agg 1)) \<longrightarrow>
       Observers mv q = (if q = localHost (ex_agg 1) then Some (view_init (ex_agg 1)) else None)"
    using Aggregate_entries [OF _ ex_complete [of 1]] by blast
  have "Observers mv ''b'' = Some (view_init (ex_agg 1))"
    using own [rule_format, of "''b''" "view_init (ex_agg 1)"] by (simp add: view_init_def)
  moreover have "Observers mv ''a'' = Some (view_init (ex_agg 1))" "Observers mv ''d'' = None"
    using rest [rule_format, of "''a''"] rest [rule_format, of "''d''"] by (simp_all add: ex_agg_def)
  ultimately show ?thesis using mv err [rule_format, of "''c''" "''timeout''"] by simp
qed

theorem Aggregate_order_irrelevant_witness:
  "Aggregate (ex_agg 1) 7 [] (New_store 1)
      [(''c'', FetchErr ''timeout''), (''b'', Fetched (view_init (ex_agg 1)))] =
   Aggregate (ex_agg 1) 7 [] (New_store 1)
      [(''b'', Fetched (view_init (ex_agg 1))), (''c'', FetchErr ''timeout'')]"
  by (rule Aggregate_order_irrelevant [OF _ ex_complete]) (simp_all add: ex_agg_def add_mset_commute)

end
