(* ===== verification/Udp_Payload.thy ===== *)
theory Udp_Payload
  imports Go_Hmac Go_Time
begin

text \<open>
  \<open>internal/pkg/probe/udp/payload.go\<close>: the wire format of the UDP probe (requests carry a
  nonce, a time stamp, the sender's host name and a tag; responses the nonce, a time stamp and a
  tag) and the cache that rejects replayed nonces. The two codecs are instances of one interface:
  a decoder that accepts exactly the encodings.
\<close>

section \<open>Constants and data\<close>

definition nonceLen :: nat where "nonceLen = 16"
definition tsLen :: nat where "tsLen = 8"
definition hmacLen :: nat where "hmacLen = 32"

lemmas len_defs = nonceLen_def tsLen_def hmacLen_def

text \<open>A nonce is a \<open>[16]byte\<close>: a list of 16 bytes.\<close>

type_synonym nonce = "byte list"

definition is_nonce :: "nonce \<Rightarrow> bool" where
  "is_nonce n \<longleftrightarrow> length n = nonceLen"

record request =
  Nonce :: nonce
  ReqTime :: time
  HostName :: string

datatype udp_error =
    EmptyHostName
  | RequestTooShort
  | HmacMismatch
  | ResponseWrongLength
  | ResponseHmacMismatch

fun udp_error_text :: "udp_error \<Rightarrow> string" where
  "udp_error_text EmptyHostName = ''udp: hostName must not be empty''"
| "udp_error_text RequestTooShort = ''udp: request too short''"
| "udp_error_text HmacMismatch = ''udp: hmac mismatch''"
| "udp_error_text ResponseWrongLength = ''udp: response wrong length''"
| "udp_error_text ResponseHmacMismatch = ''udp: response hmac mismatch''"

text \<open>\<open>NewNonce\<close> fills a zeroed array from the system's random source, which may fail.\<close>

definition NewNonce :: "string + byte list \<Rightarrow> string + nonce" where
  "NewNonce random = and_then random (\<lambda>bs. Inr (copy (replicate nonceLen 0) bs))"

section \<open>The codecs\<close>

definition EncodeRequest :: "byte list \<Rightarrow> nonce \<Rightarrow> time \<Rightarrow> string \<Rightarrow> udp_error + byte list" where
  "EncodeRequest secret n ts hostName =
     (if length hostName = 0 then Inl EmptyHostName
      else let body = n @ be_put64 (unix_nano ts) @ bytes_of hostName
           in Inr (body @ hmac_sha256 secret body))"

definition DecodeRequest :: "byte list \<Rightarrow> byte list \<Rightarrow> udp_error + request" where
  "DecodeRequest secret bs =
     (if length bs < nonceLen + tsLen + 1 + hmacLen then Inl RequestTooShort
      else let macStart = length bs - hmacLen
           in if hmac_sha256 secret (take macStart bs) \<noteq> drop macStart bs then Inl HmacMismatch
              else Inr \<lparr>Nonce = take nonceLen bs,
                        ReqTime = time_of_nano (be_uint64 (take tsLen (drop nonceLen bs))),
                        HostName = string_of (drop (nonceLen + tsLen) (take macStart bs))\<rparr>)"

definition EncodeResponse :: "byte list \<Rightarrow> nonce \<Rightarrow> time \<Rightarrow> udp_error + byte list" where
  "EncodeResponse secret n ts =
     (let body = n @ be_put64 (unix_nano ts)
      in Inr (body @ hmac_sha256 secret body))"

definition DecodeResponse :: "byte list \<Rightarrow> byte list \<Rightarrow> udp_error + (nonce \<times> time)" where
  "DecodeResponse secret bs =
     (if length bs \<noteq> nonceLen + tsLen + hmacLen then Inl ResponseWrongLength
      else let macStart = length bs - hmacLen
           in if hmac_sha256 secret (take macStart bs) \<noteq> drop macStart bs then Inl ResponseHmacMismatch
              else Inr (take nonceLen bs,
                        time_of_nano (be_uint64 (take tsLen (drop nonceLen bs)))))"

section \<open>The interface of a codec\<close>

text \<open>
  \<open>enc\<close> fails or gives the one message that decodes to its argument; \<open>dec\<close> accepts
  nothing but the encodings of the values it returns.
\<close>

locale codec =
  fixes enc :: "'v \<Rightarrow> 'e + byte list"
    and dec :: "byte list \<Rightarrow> 'e + 'v"
    and wf :: "'v \<Rightarrow> bool"
  assumes enc_ok: "wf v \<Longrightarrow> \<exists>bs. enc v = Inr bs"
    and dec_enc: "wf v \<Longrightarrow> enc v = Inr bs \<Longrightarrow> dec bs = Inr v"
    and enc_dec: "dec bs = Inr v \<Longrightarrow> wf v \<and> enc v = Inr bs"
begin

lemma accepts_iff: "(\<exists>v. dec bs = Inr v) \<longleftrightarrow> (\<exists>v. wf v \<and> enc v = Inr bs)"
  using dec_enc enc_dec by blast

lemma dec_iff: "dec bs = Inr v \<longleftrightarrow> wf v \<and> enc v = Inr bs"
  using dec_enc enc_dec by blast

lemma enc_inject: "wf v \<Longrightarrow> wf w \<Longrightarrow> enc v = enc w \<Longrightarrow> v = w"
  by (metis dec_enc enc_ok sum.inject(2))

lemma roundtrip: "wf v \<Longrightarrow> and_then (enc v) dec = Inr v"
  using enc_ok dec_enc by fastforce

end

section \<open>The codecs implement it\<close>

definition wf_request :: "request \<Rightarrow> bool" where
  "wf_request r \<longleftrightarrow> is_nonce (Nonce r) \<and> is_int64 (ReqTime r) \<and> HostName r \<noteq> []"

definition wf_response :: "nonce \<times> time \<Rightarrow> bool" where
  "wf_response r \<longleftrightarrow> is_nonce (fst r) \<and> is_int64 (snd r)"

definition enc_request :: "byte list \<Rightarrow> request \<Rightarrow> udp_error + byte list" where
  "enc_request secret r = EncodeRequest secret (Nonce r) (ReqTime r) (HostName r)"

definition enc_response :: "byte list \<Rightarrow> nonce \<times> time \<Rightarrow> udp_error + byte list" where
  "enc_response secret r = EncodeResponse secret (fst r) (snd r)"

text \<open>A body splits into its fields by length.\<close>

lemma split_body:
  assumes "nonceLen + tsLen \<le> length body"
  shows "take nonceLen body @ take tsLen (drop nonceLen body) @ drop (nonceLen + tsLen) body = body"
  by (metis append_take_drop_id drop_drop add.commute)

lemma take_sealed: "k \<le> length body \<Longrightarrow> take k (body @ tag) = take k body"
  by simp

interpretation req: codec "enc_request secret" "DecodeRequest secret" wf_request
proof
  fix r bs
  assume wf: "wf_request r"
  then show "\<exists>bs. enc_request secret r = Inr bs"
    by (simp add: enc_request_def EncodeRequest_def wf_request_def Let_def)
  assume "enc_request secret r = Inr bs"
  with wf have bs: "bs = (Nonce r @ be_put64 (unix_nano (ReqTime r)) @ bytes_of (HostName r)) @
      hmac_sha256 secret (Nonce r @ be_put64 (unix_nano (ReqTime r)) @ bytes_of (HostName r))"
    by (simp add: enc_request_def EncodeRequest_def wf_request_def Let_def)
  from wf have "length (Nonce r) = 16" "0 < length (HostName r)" "is_int64 (ReqTime r)"
    by (simp_all add: wf_request_def is_nonce_def len_defs)
  then show "DecodeRequest secret bs = Inr r"
    unfolding bs DecodeRequest_def
    by (simp add: Let_def len_defs time_of_unix_nano)
next
  fix bs r
  assume dec: "DecodeRequest secret bs = Inr r"
  define body where "body = take (length bs - hmacLen) bs"
  from dec have len: "nonceLen + tsLen + 1 + hmacLen \<le> length bs"
    by (simp add: DecodeRequest_def split: if_splits)
  with dec have "hmac_sha256 secret body = drop (length bs - hmacLen) bs"
    by (simp add: DecodeRequest_def body_def Let_def split: if_splits)
  then have bs: "bs = body @ hmac_sha256 secret body"
    by (simp add: body_def)
  from len have lenb: "nonceLen + tsLen + 1 \<le> length body"
    by (simp add: body_def)
  from dec len have r: "r = \<lparr>Nonce = take nonceLen body,
      ReqTime = time_of_nano (be_uint64 (take tsLen (drop nonceLen body))),
      HostName = string_of (drop (nonceLen + tsLen) body)\<rparr>"
    using lenb by (simp add: DecodeRequest_def Let_def bs len_defs split: if_splits)
  have "be_put64 (be_uint64 (take tsLen (drop nonceLen body))) = take tsLen (drop nonceLen body)"
    by (rule be_put64_uint64) (use lenb in \<open>simp add: len_defs\<close>)
  with r lenb split_body [of body] show "wf_request r \<and> enc_request secret r = Inr bs"
    by (simp add: wf_request_def is_nonce_def is_int64_time_of_nano enc_request_def
        EncodeRequest_def Let_def bs)
qed

interpretation resp: codec "enc_response secret" "DecodeResponse secret" wf_response
proof
  fix r :: "nonce \<times> time" and bs
  assume wf: "wf_response r"
  then show "\<exists>bs. enc_response secret r = Inr bs"
    by (simp add: enc_response_def EncodeResponse_def Let_def)
  assume "enc_response secret r = Inr bs"
  with wf have bs: "bs = (fst r @ be_put64 (unix_nano (snd r))) @
      hmac_sha256 secret (fst r @ be_put64 (unix_nano (snd r)))"
    by (simp add: enc_response_def EncodeResponse_def Let_def)
  from wf have "length (fst r) = 16" "is_int64 (snd r)"
    by (simp_all add: wf_response_def is_nonce_def len_defs)
  then show "DecodeResponse secret bs = Inr r"
    unfolding bs DecodeResponse_def
    by (simp add: Let_def len_defs time_of_unix_nano)
next
  fix bs and r :: "nonce \<times> time"
  assume dec: "DecodeResponse secret bs = Inr r"
  define body where "body = take (length bs - hmacLen) bs"
  from dec have len: "length bs = nonceLen + tsLen + hmacLen"
    by (simp add: DecodeResponse_def split: if_splits)
  with dec have "hmac_sha256 secret body = drop (length bs - hmacLen) bs"
    by (simp add: DecodeResponse_def body_def Let_def split: if_splits)
  then have bs: "bs = body @ hmac_sha256 secret body"
    by (simp add: body_def)
  from len have lenb: "length body = nonceLen + tsLen"
    by (simp add: body_def)
  from dec len have r: "r = (take nonceLen body,
      time_of_nano (be_uint64 (take tsLen (drop nonceLen body))))"
    using lenb by (simp add: DecodeResponse_def Let_def bs len_defs split: if_splits)
  have "be_put64 (be_uint64 (take tsLen (drop nonceLen body))) = take tsLen (drop nonceLen body)"
    by (rule be_put64_uint64) (use lenb in \<open>simp add: len_defs\<close>)
  with r lenb split_body [of body] show "wf_response r \<and> enc_response secret r = Inr bs"
    by (simp add: wf_response_def is_nonce_def is_int64_time_of_nano enc_response_def
        EncodeResponse_def Let_def bs)
qed

lemma DecodeRequest_iff:
  "DecodeRequest secret bs = Inr r \<longleftrightarrow>
     is_nonce (Nonce r) \<and> is_int64 (ReqTime r) \<and> HostName r \<noteq> [] \<and>
     EncodeRequest secret (Nonce r) (ReqTime r) (HostName r) = Inr bs"
  using req.dec_iff [of secret bs r] by (auto simp: wf_request_def enc_request_def)

lemma DecodeResponse_iff:
  "DecodeResponse secret bs = Inr (n, ts) \<longleftrightarrow>
     is_nonce n \<and> is_int64 ts \<and> EncodeResponse secret n ts = Inr bs"
  using resp.dec_iff [of secret bs "(n, ts)"] by (auto simp: wf_response_def enc_response_def)

lemma EncodeRequest_length:
  "EncodeRequest secret n ts h = Inr bs \<Longrightarrow> is_nonce n \<Longrightarrow> length bs = nonceLen + tsLen + length h + hmacLen"
  by (auto simp: EncodeRequest_def Let_def is_nonce_def len_defs split: if_splits)

lemma EncodeResponse_length:
  "EncodeResponse secret n ts = Inr bs \<Longrightarrow> is_nonce n \<Longrightarrow> length bs = nonceLen + tsLen + hmacLen"
  by (auto simp: EncodeResponse_def Let_def is_nonce_def len_defs)

lemma DecodeRequest_length: "DecodeRequest secret bs = Inr r \<Longrightarrow> nonceLen + tsLen + 1 + hmacLen \<le> length bs"
  by (simp add: DecodeRequest_def split: if_splits)

lemma DecodeRequest_nonce: "DecodeRequest secret bs = Inr r \<Longrightarrow> is_nonce (Nonce r)"
  using req.enc_dec by (auto simp: wf_request_def)

section \<open>The replay cache\<close>

record replay_cache =
  ttl :: duration
  seen :: "nonce \<rightharpoonup> time"

definition NewReplayCache :: "duration \<Rightarrow> replay_cache" where
  "NewReplayCache d = \<lparr>ttl = d, seen = Map.empty\<rparr>"

text \<open>
  The eviction loop deletes every entry older than the cutoff while it iterates over the map:
  whatever the order, the entries that stay are the same.
\<close>

definition evict :: "time \<Rightarrow> (nonce \<rightharpoonup> time) \<Rightarrow> (nonce \<rightharpoonup> time)" where
  "evict cutoff m = (\<lambda>k. case m k of
      None \<Rightarrow> None
    | Some t \<Rightarrow> if time_before t cutoff then None else Some t)"

definition SeenOrAdd :: "nonce \<Rightarrow> time \<Rightarrow> replay_cache \<Rightarrow> bool \<times> replay_cache" where
  "SeenOrAdd n now c =
     (let cutoff = time_add now (- ttl c);
          c1 = c\<lparr>seen := evict cutoff (seen c)\<rparr>
      in case seen c1 n of
           Some _ \<Rightarrow> (True, c1)
         | None \<Rightarrow> (False, c1\<lparr>seen := (seen c1)(n \<mapsto> now)\<rparr>))"

lemma SeenOrAdd_ttl [simp]: "ttl (snd (SeenOrAdd n now c)) = ttl c"
  by (simp add: SeenOrAdd_def Let_def split: option.split)

lemma SeenOrAdd_fst: "fst (SeenOrAdd n now c) \<longleftrightarrow> (\<exists>t. seen c n = Some t \<and> now - ttl c \<le> t)"
  by (auto simp: SeenOrAdd_def Let_def evict_def time_before_def time_add_def split: option.splits)

lemma SeenOrAdd_seen:
  "seen (snd (SeenOrAdd n now c)) k =
    (if k = n \<and> \<not> fst (SeenOrAdd n now c) then Some now
     else case seen c k of None \<Rightarrow> None | Some t \<Rightarrow> if t < now - ttl c then None else Some t)"
  by (auto simp: SeenOrAdd_def Let_def evict_def time_before_def time_add_def split: option.splits)

text \<open>
  The interface the echo server relies on: a guard that, once it has let a value pass, rejects it
  until its window is over, whatever else it is asked meanwhile.
\<close>

locale replay_guard =
  fixes check :: "'n \<Rightarrow> time \<Rightarrow> 'c \<Rightarrow> bool \<times> 'c"
    and remembers :: "'c \<Rightarrow> 'n \<Rightarrow> time \<Rightarrow> bool"
    and window :: "'c \<Rightarrow> duration"
  assumes window_check: "window (snd (check n now c)) = window c"
    and remembers_fresh: "\<not> fst (check n now c) \<Longrightarrow> remembers (snd (check n now c)) n now"
    and remembers_check: "remembers c n t \<Longrightarrow> now \<le> t + window c \<Longrightarrow>
      remembers (snd (check m now c)) n t"
    and rejects: "remembers c n t \<Longrightarrow> now \<le> t + window c \<Longrightarrow> fst (check n now c)"
begin

lemma window_run: "window (fold (\<lambda>x c. snd (check (fst x) (snd x) c)) xs c) = window c"
  by (induction xs arbitrary: c) (simp_all add: window_check)

lemma remembers_run:
  assumes "remembers c n t" "\<forall>x \<in> set xs. snd x \<le> t + window c"
  shows "remembers (fold (\<lambda>x c. snd (check (fst x) (snd x) c)) xs c) n t"
  using assms by (induction xs arbitrary: c) (simp_all add: window_check remembers_check)

lemma rejects_after_run:
  assumes "\<not> fst (check n t c)" "\<forall>x \<in> set xs. snd x \<le> t + window c" "now \<le> t + window c"
  shows "fst (check n now (fold (\<lambda>x c. snd (check (fst x) (snd x) c)) xs (snd (check n t c))))"
  using remembers_run [OF remembers_fresh [OF assms(1)]] assms(2,3)
  by (intro rejects) (simp_all add: window_check window_run)

end

definition remembers :: "replay_cache \<Rightarrow> nonce \<Rightarrow> time \<Rightarrow> bool" where
  "remembers c n t \<longleftrightarrow> seen c n = Some t"

interpretation guard: replay_guard SeenOrAdd remembers ttl
proof
  show "ttl (snd (SeenOrAdd n now c)) = ttl c" for n now c by simp
  show "\<not> fst (SeenOrAdd n now c) \<Longrightarrow> remembers (snd (SeenOrAdd n now c)) n now" for n now c
    by (simp add: remembers_def SeenOrAdd_seen)
  show "remembers c n t \<Longrightarrow> now \<le> t + ttl c \<Longrightarrow> fst (SeenOrAdd n now c)" for c n t now
    by (auto simp: remembers_def SeenOrAdd_fst)
  then show "remembers c n t \<Longrightarrow> now \<le> t + ttl c \<Longrightarrow> remembers (snd (SeenOrAdd m now c)) n t"
    for c n t now m
    by (cases "m = n") (auto simp: remembers_def SeenOrAdd_seen)
qed

text \<open>A run of calls, each a nonce and the time of the call.\<close>

definition seen_run :: "(nonce \<times> time) list \<Rightarrow> replay_cache \<Rightarrow> replay_cache" where
  "seen_run = fold (\<lambda>x c. snd (SeenOrAdd (fst x) (snd x) c))"

section \<open>Properties\<close>

text \<open>
  C11. Requests: for every secret, a nonce of 16 bytes, an \<open>int64\<close> time and a non-empty host
  name, encoding succeeds and decoding gives the request back; and the decoder accepts a datagram
  exactly when it is the encoding of such a request, the one it returns (nothing is accepted in
  two readings, no byte is ignored).
\<close>

theorem request_codec:
  "DecodeRequest secret bs = Inr r \<longleftrightarrow>
     is_nonce (Nonce r) \<and> is_int64 (ReqTime r) \<and> HostName r \<noteq> [] \<and>
     EncodeRequest secret (Nonce r) (ReqTime r) (HostName r) = Inr bs"
  by (rule DecodeRequest_iff)

text \<open>
  C12. The response decoder accepts exactly the encodings: a datagram decodes to a nonce and a time
  stamp if and only if it is, byte for byte, what \<open>EncodeResponse\<close> makes of these two under the same
  secret, the nonce has 16 bytes and the time stamp fits into 64 bits.
\<close>

theorem response_codec:
  "DecodeResponse secret bs = Inr (n, ts) \<longleftrightarrow>
     is_nonce n \<and> is_int64 ts \<and> EncodeResponse secret n ts = Inr bs"
  by (rule DecodeResponse_iff)

text \<open>
  C13. No datagram is both a request and a response, even under the same secret, so neither side
  can be made to process the other's messages.
\<close>

theorem request_response_disjoint:
  "\<not> ((\<exists>r. DecodeRequest secret bs = Inr r) \<and> (\<exists>x. DecodeResponse secret' bs = Inr x))"
  by (auto simp: DecodeRequest_def DecodeResponse_def len_defs split: if_splits)

text \<open>
  C14. The replay cache over any run of calls: a nonce that was added at time \<open>t\<close> is reported
  as seen by every later call up to and including time \<open>t + ttl\<close>, provided no call in between
  was later than that.
\<close>

theorem replay_cache_window:
  assumes "fst (SeenOrAdd n t c) = False"
    and "\<forall>x \<in> set calls. snd x \<le> t + ttl c"
    and "now \<le> t + ttl c"
  shows "fst (SeenOrAdd n now (seen_run calls (snd (SeenOrAdd n t c))))"
  unfolding seen_run_def by (rule guard.rejects_after_run) (use assms in simp_all)

theorem replay_cache_window_witness:
  "fst (SeenOrAdd [1] 70 (seen_run [([2], 40), ([3], 70)] (snd (SeenOrAdd [1] 10 (NewReplayCache 60)))))"
  by (rule replay_cache_window) (simp_all add: SeenOrAdd_fst NewReplayCache_def)

end
