(* ===== verification/Udp_Prober.thy ===== *)
theory Udp_Prober
  imports Udp_Payload Probe_Types Go_Net Go_Text
begin

text \<open>
  \<open>internal/pkg/probe/udp/udp.go\<close>: one probe of the UDP client. What the operating system and
  the network answer (the random bytes, the outcome of dialling, writing and reading, the clock)
  are arguments; an \<open>Inl\<close> is the text of the error.
\<close>

record udp_prober =
  prober_Secret :: "byte list"
  prober_HostName :: string
  prober_Timeout :: duration

definition New_udp :: "byte list \<Rightarrow> string \<Rightarrow> duration \<Rightarrow> udp_prober" where
  "New_udp secret hostName timeout =
     \<lparr>prober_Secret = secret, prober_HostName = hostName, prober_Timeout = timeout\<rparr>"

text \<open>The socket of one probe: the outcomes of \<open>Dial\<close>, \<open>Write\<close> and \<open>Read\<close>.\<close>

record udp_net =
  dial :: "string \<Rightarrow> string + unit"
  net_write :: "byte list \<Rightarrow> string + unit"
  net_read :: "string + byte list"

definition failed :: "string \<Rightarrow> result \<Rightarrow> result" where
  "failed e r = r\<lparr>Err := e\<rparr>"

definition Probe_udp ::
    "udp_prober \<Rightarrow> target \<Rightarrow> time \<Rightarrow> string + byte list \<Rightarrow> udp_net \<Rightarrow> time \<Rightarrow> result" where
  "Probe_udp p tgt start random net after =
     (let r = \<lparr>Timestamp = start, Latency = 0, OK = False, Err = []\<rparr> in
      case NewNonce random of
        Inl e \<Rightarrow> failed e r
      | Inr n \<Rightarrow>
        (case EncodeRequest (prober_Secret p) n start (prober_HostName p) of
           Inl e \<Rightarrow> failed (udp_error_text e) r
         | Inr req \<Rightarrow>
           (case dial net (join_host_port (tgt_Addr tgt) (itoa (tgt_UDPPort tgt))) of
              Inl e \<Rightarrow> failed e r
            | Inr _ \<Rightarrow>
              (case net_write net req of
                 Inl e \<Rightarrow> failed e r
               | Inr _ \<Rightarrow>
                 let r = r\<lparr>Latency := time_sub after start\<rparr> in
                 (case net_read net of
                    Inl e \<Rightarrow> failed e r
                  | Inr datagram \<Rightarrow>
                    (case DecodeResponse (prober_Secret p) (take 1024 datagram) of
                       Inl e \<Rightarrow> failed (udp_error_text e) r
                     | Inr (gotNonce, _) \<Rightarrow>
                       if gotNonce \<noteq> n then failed ''nonce mismatch'' r
                       else r\<lparr>OK := True\<rparr>))))))"

lemma failed_OK [simp]: "OK (failed e r) = OK r" "Err (failed e r) = e"
  "Timestamp (failed e r) = Timestamp r" "Latency (failed e r) = Latency r"
  by (simp_all add: failed_def)

lemma udp_error_text_not_Nil [simp]: "udp_error_text e \<noteq> []"
  by (cases e) simp_all

interpretation udp: prober "\<lambda>(random, net, after) tgt start. Probe_udp p tgt start random net after" for p
  by unfold_locales (auto simp: Probe_udp_def Let_def split: sum.splits prod.splits)

section \<open>Properties\<close>

text \<open>
  A UDP probe reports success exactly when every step of the exchange succeeded and the
  datagram it read is an authentic response to this very request: tagged with the shared secret
  and carrying the request's nonce.
\<close>

theorem udp_probe_ok_iff:
  "OK (Probe_udp p tgt start random net after) \<longleftrightarrow>
     (\<exists>n req resp ts. NewNonce random = Inr n \<and>
        EncodeRequest (prober_Secret p) n start (prober_HostName p) = Inr req \<and>
        dial net (join_host_port (tgt_Addr tgt) (itoa (tgt_UDPPort tgt))) = Inr () \<and>
        net_write net req = Inr () \<and> net_read net = Inr resp \<and>
        is_nonce n \<and> is_int64 ts \<and> EncodeResponse (prober_Secret p) n ts = Inr (take 1024 resp))"
  unfolding DecodeResponse_iff [symmetric]
  by (auto simp: Probe_udp_def Let_def split: sum.splits)

end
