(* ===== verification/Udp_Echo.thy ===== *)
theory Udp_Echo
  imports Udp_Payload Go_Net
begin

text \<open>
  \<open>internal/pkg/server/probe/udp_echo.go\<close>: the UDP echo server. A handler call takes the
  datagram, the printed source address, the time and the server's state, and gives the datagram it
  writes back, if any, and the new state. The read loop is a function of the sequence of events it
  meets: datagrams, read errors and the call of \<open>Close\<close> by another goroutine.
\<close>

section \<open>State and operations\<close>

record udp_echo =
  echo_secret :: "byte list"
  allowed :: "string \<rightharpoonup> bool"
  replay :: replay_cache
  closed :: bool
  tsWindow :: duration

text \<open>\<open>listening\<close> is the outcome of \<open>net.ListenPacket\<close>.\<close>

definition NewUDPEcho ::
    "string + unit \<Rightarrow> byte list \<Rightarrow> (string \<rightharpoonup> bool) \<Rightarrow> string + udp_echo" where
  "NewUDPEcho listening secret allowedIPs =
     and_then listening (\<lambda>_. Inr
       \<lparr>echo_secret = secret, allowed = allowedIPs, replay = NewReplayCache (60 * second),
        closed = False, tsWindow = 30 * second\<rparr>)"

definition Close :: "udp_echo \<Rightarrow> udp_echo" where
  "Close s = s\<lparr>closed := True\<rparr>"

definition handle ::
    "byte list \<Rightarrow> string \<Rightarrow> time \<Rightarrow> udp_echo \<Rightarrow> byte list option \<times> udp_echo" where
  "handle pkt addr now s =
     (case split_host_port addr of
        Inl _ \<Rightarrow> (None, s)
      | Inr (host, _) \<Rightarrow>
        if allowed s host \<noteq> Some True then (None, s)
        else
          (case DecodeRequest (echo_secret s) pkt of
             Inl _ \<Rightarrow> (None, s)
           | Inr req \<Rightarrow>
             let diff = time_sub now (ReqTime req) in
             if diff > tsWindow s \<or> diff < - tsWindow s then (None, s)
             else
               let (dup, cache) = SeenOrAdd (Nonce req) now (replay s);
                   s1 = s\<lparr>replay := cache\<rparr>
               in if dup then (None, s1)
                  else (case EncodeResponse (echo_secret s1) (Nonce req) now of
                          Inl _ \<Rightarrow> (None, s1)
                        | Inr resp \<Rightarrow> (Some resp, s1))))"

datatype echo_event =
    Datagram "byte list" string time
  | ReadError
  | CloseCalled

text \<open>
  The loop of \<open>Run\<close>: per event, what was written back. The read buffer has 2048 bytes, a
  longer datagram is cut; after an error on a closed socket the loop returns.
\<close>

primrec Run :: "echo_event list \<Rightarrow> udp_echo \<Rightarrow> byte list option list" where
  "Run [] s = []"
| "Run (e # es) s =
     (case e of
        Datagram d addr now \<Rightarrow>
          (let (out, s') = handle (take 2048 d) addr now s in out # Run es s')
      | ReadError \<Rightarrow> if closed s then None # map (\<lambda>_. None) es else None # Run es s
      | CloseCalled \<Rightarrow> None # Run es (Close s))"

section \<open>Lemmas on the handler\<close>

lemma handle_frame [simp]:
  "echo_secret (snd (handle pkt addr now s)) = echo_secret s"
  "allowed (snd (handle pkt addr now s)) = allowed s"
  "closed (snd (handle pkt addr now s)) = closed s"
  "tsWindow (snd (handle pkt addr now s)) = tsWindow s"
  by (auto simp: handle_def Let_def split: sum.splits prod.splits)

text \<open>The handler asks the cache at most once, at its own time.\<close>

lemma handle_replay:
  "replay (snd (handle pkt addr now s)) = replay s \<or>
   (\<exists>n. replay (snd (handle pkt addr now s)) = snd (SeenOrAdd n now (replay s)))"
  by (auto simp: handle_def Let_def case_prod_unfold split: sum.splits)

lemma handle_remembers:
  assumes "remembers (replay s) n t" "now \<le> t + ttl (replay s)"
  shows "remembers (replay (snd (handle pkt addr now s))) n t"
  using handle_replay [of pkt addr now s] guard.remembers_check [OF assms] assms(1) by metis

lemma handle_ttl [simp]: "ttl (replay (snd (handle pkt addr now s))) = ttl (replay s)"
  using handle_replay [of pkt addr now s] SeenOrAdd_ttl by metis

text \<open>Exactly when a datagram is answered, and with what.\<close>

lemma handle_answers_iff:
  assumes "tsWindow s = 30 * second"
  shows "fst (handle pkt addr now s) = Some resp \<longleftrightarrow>
    (\<exists>host port req. split_host_port addr = Inr (host, port) \<and> allowed s host = Some True \<and>
       DecodeRequest (echo_secret s) pkt = Inr req \<and>
       \<bar>now - ReqTime req\<bar> \<le> 30 * second \<and>
       \<not> fst (SeenOrAdd (Nonce req) now (replay s)) \<and>
       EncodeResponse (echo_secret s) (Nonce req) now = Inr resp)"
proof -
  have win: "time_sub now u \<le> 30 * second \<and> \<not> time_sub now u < - (30 * second) \<longleftrightarrow>
      \<bar>now - u\<bar> \<le> 30 * second" for u
    using time_sub_gt_iff [of "30 * second" now u] time_sub_lt_iff [of "- (30 * second)" now u]
    by (auto simp: second_def min_int64_def max_int64_def)
  show ?thesis
    unfolding win [symmetric]
    by (auto simp: handle_def Let_def assms split: sum.splits prod.splits)
qed

lemma handle_answered_remembers:
  assumes "fst (handle pkt addr now s) \<noteq> None" "DecodeRequest (echo_secret s) pkt = Inr req"
  shows "remembers (replay (snd (handle pkt addr now s))) (Nonce req) now"
  using assms guard.remembers_fresh [of "Nonce req" now "replay s"]
  by (auto simp: handle_def Let_def split: sum.splits prod.splits if_splits)

section \<open>Lemmas on runs\<close>

fun event_time :: "echo_event \<Rightarrow> time option" where
  "event_time (Datagram d a t) = Some t"
| "event_time _ = None"

definition times :: "echo_event list \<Rightarrow> time list" where
  "times es = List.map_filter event_time es"

lemma length_Run [simp]: "length (Run es s) = length es"
  by (induction es arbitrary: s) (auto split: echo_event.splits prod.splits)

lemma times_Cons: "times (e # es) = (case event_time e of None \<Rightarrow> times es | Some t \<Rightarrow> t # times es)"
  by (simp add: times_def map_filter_simps split: option.split)

lemma times_nth: "j < length es \<Longrightarrow> es ! j = Datagram d a t \<Longrightarrow> t \<in> set (times es)"
  by (force simp: times_def map_filter_def image_iff in_set_conv_nth)

definition echo_ready :: "byte list \<Rightarrow> udp_echo \<Rightarrow> bool" where
  "echo_ready secret s \<longleftrightarrow>
     echo_secret s = secret \<and> tsWindow s = 30 * second \<and> ttl (replay s) = 60 * second"

lemma echo_ready_handle [inv_intros]:
  "echo_ready secret s \<Longrightarrow> echo_ready secret (snd (handle pkt addr now s))"
  by (simp add: echo_ready_def)

lemma echo_ready_Close [inv_intros]: "echo_ready secret s \<Longrightarrow> echo_ready secret (Close s)"
  by (simp add: echo_ready_def Close_def)

lemma echo_ready_New: "NewUDPEcho l secret al = Inr s \<Longrightarrow> echo_ready secret s"
  by (auto simp: NewUDPEcho_def echo_ready_def NewReplayCache_def ok_iff)

text \<open>
  A value the cache remembers blocks every later datagram that carries it, until the window of
  the cache is over.
\<close>

lemma Run_blocks:
  assumes "echo_ready secret s" "remembers (replay s) n t" "sorted (times es)"
    and "j < length es" "es ! j = Datagram d addr now" "now \<le> t + 60 * second"
    and "DecodeRequest secret (take 2048 d) = Inr req" "Nonce req = n"
  shows "Run es s ! j = None"
  using assms(1-6)
proof (induction es arbitrary: s j)
  case Nil
  then show ?case by simp
next
  case (Cons e es)
  have ttl: "ttl (replay s) = 60 * second" using Cons.prems(1) by (simp add: echo_ready_def)
  show ?case
  proof (cases j)
    case 0
    with Cons.prems have e: "e = Datagram d addr now" by simp
    have "fst (SeenOrAdd n now (replay s))"
      using guard.rejects [OF Cons.prems(2)] Cons.prems(6) ttl by simp
    then have "fst (handle (take 2048 d) addr now s) = None"
      using Cons.prems(1) assms(7,8)
      by (auto simp: handle_def echo_ready_def Let_def case_prod_unfold split: sum.splits)
    with 0 e show ?thesis by (simp add: case_prod_unfold Let_def)
  next
    case (Suc i)
    with Cons.prems have i: "i < length es" "es ! i = Datagram d addr now" by simp_all
    have le: "x \<le> now" if "event_time e = Some x" for x
      using Cons.prems(3) that times_nth [OF i] by (simp add: times_Cons)
    have sorted: "sorted (times es)"
      using Cons.prems(3) by (simp add: times_Cons split: option.splits)
    show ?thesis
    proof (cases e)
      case (Datagram d' a' t')
      then have "t' \<le> t + ttl (replay s)" using le Cons.prems(6) ttl by fastforce
      then have "remembers (replay (snd (handle (take 2048 d') a' t' s))) n t"
        using handle_remembers Cons.prems(2) by blast
      with Cons.IH [OF echo_ready_handle [OF Cons.prems(1)] _ sorted i Cons.prems(6)]
      show ?thesis using Datagram Suc by (simp add: case_prod_unfold Let_def)
    next
      case ReadError
      with Cons.IH [OF Cons.prems(1,2) sorted i Cons.prems(6)] i Suc show ?thesis by simp
    next
      case CloseCalled
      have "remembers (replay (Close s)) n t" using Cons.prems(2) by (simp add: Close_def)
      with Cons.IH [OF echo_ready_Close [OF Cons.prems(1)] _ sorted i Cons.prems(6)] CloseCalled Suc
      show ?thesis by simp
    qed
  qed
qed

text \<open>A datagram whose time stamp is too far from the clock is never answered.\<close>

lemma Run_late:
  assumes "echo_ready secret s" "j < length es" "es ! j = Datagram d addr now"
    and "DecodeRequest secret (take 2048 d) = Inr req" "\<not> \<bar>now - ReqTime req\<bar> \<le> 30 * second"
  shows "Run es s ! j = None"
  using assms(1-3)
proof (induction es arbitrary: s j)
  case Nil
  then show ?case by simp
next
  case (Cons e es)
  have late: "fst (handle (take 2048 d) addr now s) = None"
    using handle_answers_iff [of s "take 2048 d" addr now] Cons.prems(1) assms(4,5)
    by (auto simp: echo_ready_def)
  show ?case
  proof (cases j)
    case 0
    with Cons.prems late show ?thesis by (simp add: case_prod_unfold Let_def)
  next
    case (Suc i)
    then show ?thesis
      using Cons.prems Cons.IH [of _ i] echo_ready_handle [OF Cons.prems(1)]
        echo_ready_Close [OF Cons.prems(1)]
      by (cases e) (simp_all add: case_prod_unfold Let_def)
  qed
qed

text \<open>
  The window of the time stamp is half the window of the cache: a datagram that passes the time
  check twice passes it within 60 seconds.
\<close>

lemma Run_no_second_answer:
  assumes "echo_ready secret s" "sorted (times es)" "i < j" "j < length es"
    and "es ! i = Datagram d a1 t1" "es ! j = Datagram d' a2 t2"
    and "DecodeRequest secret (take 2048 d) = Inr req" "DecodeRequest secret (take 2048 d') = Inr req"
    and "Run es s ! i \<noteq> None"
  shows "Run es s ! j = None"
  using assms(1-6,9)
proof (induction es arbitrary: s i j)
  case Nil
  then show ?case by simp
next
  case (Cons e es)
  obtain j' where j': "j = Suc j'" using Cons.prems(3) by (cases j) auto
  have sorted: "sorted (times es)"
    using Cons.prems(2) by (simp add: times_Cons split: option.splits)
  show ?case
  proof (cases i)
    case 0
    with Cons.prems j' have e: "e = Datagram d a1 t1" and at: "es ! j' = Datagram d' a2 t2"
      and len: "j' < length es" by simp_all
    let ?s = "snd (handle (take 2048 d) a1 t1 s)"
    from 0 e Cons.prems(7) have ans: "fst (handle (take 2048 d) a1 t1 s) \<noteq> None"
      by (simp add: case_prod_unfold Let_def)
    have rem: "remembers (replay ?s) (Nonce req) t1"
      using handle_answered_remembers [OF ans] assms(7) Cons.prems(1) by (simp add: echo_ready_def)
    have t1: "\<bar>t1 - ReqTime req\<bar> \<le> 30 * second"
      using ans handle_answers_iff [of s "take 2048 d" a1 t1] assms(7) Cons.prems(1)
      by (auto simp: echo_ready_def)
    have ready: "echo_ready secret ?s" by (rule echo_ready_handle) (rule Cons.prems(1))
    have "Run es ?s ! j' = None"
    proof (cases "\<bar>t2 - ReqTime req\<bar> \<le> 30 * second")
      case True
      with t1 have "t2 \<le> t1 + 60 * second" by linarith
      with Run_blocks [OF ready rem sorted len at _ assms(8)] show ?thesis by simp
    next
      case False
      then show ?thesis using Run_late [OF ready len at assms(8)] by simp
    qed
    with e j' show ?thesis by (simp add: case_prod_unfold Let_def)
  next
    case (Suc i')
    with Cons.prems j' have ij: "i' < j'" "j' < length es" "es ! i' = Datagram d a1 t1"
      "es ! j' = Datagram d' a2 t2" by simp_all
    show ?thesis
    proof (cases e)
      case (Datagram d0 a0 t0)
      with Cons.IH [OF echo_ready_handle [OF Cons.prems(1)] sorted ij] Cons.prems(7) Suc j'
      show ?thesis by (simp add: case_prod_unfold Let_def)
    next
      case ReadError
      with Cons.IH [OF Cons.prems(1) sorted ij] Cons.prems(7) Suc j' ij show ?thesis
        by (simp split: if_splits)
    next
      case CloseCalled
      with Cons.IH [OF echo_ready_Close [OF Cons.prems(1)] sorted ij] Cons.prems(7) Suc j'
      show ?thesis by simp
    qed
  qed
qed

lemma Run_answered_decodes:
  assumes "echo_ready secret s" "i < length es" "es ! i = Datagram d addr now"
    and "Run es s ! i \<noteq> None"
  shows "\<exists>req. DecodeRequest secret (take 2048 d) = Inr req"
  using assms
proof (induction es arbitrary: s i)
  case Nil
  then show ?case by simp
next
  case (Cons e es)
  show ?case
  proof (cases i)
    case 0
    with Cons.prems have "fst (handle (take 2048 d) addr now s) \<noteq> None"
      by (simp add: case_prod_unfold Let_def)
    with Cons.prems(1) show ?thesis
      using handle_answers_iff [of s "take 2048 d" addr now] by (auto simp: echo_ready_def)
  next
    case (Suc k)
    with Cons.prems have k: "k < length es" "es ! k = Datagram d addr now" by simp_all
    show ?thesis
    proof (cases e)
      case (Datagram d' a' t')
      with Cons.prems(4) Suc show ?thesis
        using Cons.IH [OF echo_ready_handle [OF Cons.prems(1)] k]
        by (simp add: case_prod_unfold Let_def)
    next
      case ReadError
      with Cons.prems(4) Suc k show ?thesis
        using Cons.IH [OF Cons.prems(1) k] by (simp split: if_splits)
    next
      case CloseCalled
      with Cons.prems(4) Suc show ?thesis
        using Cons.IH [OF echo_ready_Close [OF Cons.prems(1)] k] by simp
    qed
  qed
qed

section \<open>Properties\<close>

text \<open>
  C15. A datagram is answered exactly when its source address is on the allow list with the value
  true, it is an authentic request under the shared secret, its time stamp is at most 30 seconds
  from the clock in either direction and the replay cache has not seen its nonce; every other
  datagram is dropped in silence. (Exactly 30 seconds is accepted, as the comparison in \<open>handle\<close>
  has it; the design document, section 9.3, asks for less than 30 seconds.)
\<close>

theorem udp_echo_answers_iff:
  assumes "NewUDPEcho listening secret al = Inr s0"
    and "s = s0\<lparr>replay := c, closed := b\<rparr>"
  shows "fst (handle pkt addr now s) = Some resp \<longleftrightarrow>
    (\<exists>host port req. split_host_port addr = Inr (host, port) \<and> al host = Some True \<and>
       DecodeRequest secret pkt = Inr req \<and> \<bar>now - ReqTime req\<bar> \<le> 30 * second \<and>
       \<not> fst (SeenOrAdd (Nonce req) now c) \<and>
       EncodeResponse secret (Nonce req) now = Inr resp)"
  using assms by (subst handle_answers_iff) (auto simp: NewUDPEcho_def ok_iff)

text \<open>
  C17. No amplification: an answer is strictly shorter than the datagram it answers, and it is the
  response to that request: it decodes, under the same secret, to the request's nonce and the time
  of the answer.
\<close>

theorem udp_echo_no_amplification:
  assumes "fst (handle pkt addr now s) = Some resp" and "is_int64 now"
  shows "length resp < length pkt \<and>
    (\<exists>req. DecodeRequest (echo_secret s) pkt = Inr req \<and>
           DecodeResponse (echo_secret s) resp = Inr (Nonce req, now))"
proof -
  from assms(1) obtain req where req: "DecodeRequest (echo_secret s) pkt = Inr req"
    and resp: "EncodeResponse (echo_secret s) (Nonce req) now = Inr resp"
    by (auto simp: handle_def Let_def case_prod_unfold split: sum.splits if_splits)
  have n: "is_nonce (Nonce req)" using req by (rule DecodeRequest_nonce)
  have "length resp < length pkt"
    using EncodeResponse_length [OF resp n] DecodeRequest_length [OF req] by simp
  moreover have "DecodeResponse (echo_secret s) resp = Inr (Nonce req, now)"
    using n resp assms(2) by (simp add: DecodeResponse_iff)
  ultimately show ?thesis using req by blast
qed

text \<open>
  C16. No replay: in any run of a new server in which the clock does not go back, with any other
  datagrams, read errors and a close in between, a datagram that was answered once is never
  answered again, from whatever address it is sent.
\<close>

theorem udp_echo_no_replay:
  assumes "NewUDPEcho listening secret al = Inr s" and "sorted (times es)"
    and "i < j" and "j < length es"
    and "es ! i = Datagram d a1 t1" and "es ! j = Datagram d a2 t2"
    and "Run es s ! i \<noteq> None"
  shows "Run es s ! j = None"
proof -
  note ready = echo_ready_New [OF assms(1)]
  have "i < length es" using assms(3,4) by simp
  from Run_answered_decodes [OF ready this assms(5,7)] obtain req
    where "DecodeRequest secret (take 2048 d) = Inr req" by blast
  then show ?thesis
    using Run_no_second_answer [OF ready assms(2-6)] assms(7) by blast
qed

text \<open>A concrete exchange for the witnesses: an authentic request of \<open>node-a\<close> at time 0.\<close>

definition ex_request :: "byte list" where
  "ex_request = (case EncodeRequest [] (replicate 16 7) 0 ''node-a'' of Inl _ \<Rightarrow> [] | Inr bs \<Rightarrow> bs)"

definition ex_server :: udp_echo where
  "ex_server = \<lparr>echo_secret = [], allowed = [''10.0.0.2'' \<mapsto> True],
     replay = NewReplayCache (60 * second), closed = False, tsWindow = 30 * second\<rparr>"

lemma ex_server_New: "NewUDPEcho (Inr ()) [] [''10.0.0.2'' \<mapsto> True] = Inr ex_server"
  by (simp add: NewUDPEcho_def ex_server_def)

lemma ex_request_decodes:
  "DecodeRequest [] ex_request = Inr \<lparr>Nonce = replicate 16 7, ReqTime = 0, HostName = ''node-a''\<rparr>"
  unfolding DecodeRequest_iff
  by (simp add: ex_request_def is_nonce_def len_defs is_int64_def min_int64_def max_int64_def
      EncodeRequest_def Let_def)

lemma length_ex_request: "length ex_request = 62"
  by (simp add: ex_request_def EncodeRequest_def Let_def)

lemma ex_addr: "split_host_port ''10.0.0.2:5000'' = Inr (''10.0.0.2'', ''5000'')"
  by (simp add: split_host_port_def)

lemma ex_answered: "\<exists>resp. fst (handle ex_request ''10.0.0.2:5000'' 0 ex_server) = Some resp"
  by (subst handle_answers_iff)
    (simp_all add: ex_server_def ex_addr ex_request_decodes SeenOrAdd_fst NewReplayCache_def
      EncodeResponse_def Let_def second_def)

theorem udp_echo_answers_iff_witness:
  "\<not> (\<exists>resp. fst (handle ex_request ''10.0.0.3:5000'' 0 ex_server) = Some resp)"
proof -
  have addr: "split_host_port ''10.0.0.3:5000'' = Inr (''10.0.0.3'', ''5000'')"
      by (simp add: split_host_port_def)
  have "ex_server = ex_server\<lparr>replay := NewReplayCache (60 * second), closed := False\<rparr>"
    by (simp add: ex_server_def)
  from udp_echo_answers_iff [OF ex_server_New this] addr show ?thesis by simp
qed

theorem udp_echo_no_amplification_witness:
  "\<exists>resp. fst (handle ex_request ''10.0.0.2:5000'' 0 ex_server) = Some resp \<and> length resp < 62"
proof -
  obtain resp where r: "fst (handle ex_request ''10.0.0.2:5000'' 0 ex_server) = Some resp"
    using ex_answered by blast
  have "is_int64 0" by (simp add: is_int64_def min_int64_def max_int64_def)
  from udp_echo_no_amplification [OF r this] r show ?thesis by (simp add: length_ex_request)
qed

theorem udp_echo_no_replay_witness:
  "Run [Datagram ex_request ''10.0.0.2:5000'' 0, ReadError, Datagram ex_request ''10.0.0.2:5000'' 5]
     ex_server ! 2 = None"
proof (rule udp_echo_no_replay [OF ex_server_New, where i = 0 and j = 2])
  obtain resp where "fst (handle ex_request ''10.0.0.2:5000'' 0 ex_server) = Some resp"
    using ex_answered by blast
  then show "Run [Datagram ex_request ''10.0.0.2:5000'' 0, ReadError,
      Datagram ex_request ''10.0.0.2:5000'' 5] ex_server ! 0 \<noteq> None"
    by (simp add: length_ex_request case_prod_unfold Let_def)
qed (simp_all add: times_Cons, simp add: times_def map_filter_simps)

end
