(* ===== verification/Config.thy ===== *)
theory Config
  imports Go_Base64 Go_Text
begin

text \<open>
  \<open>internal/pkg/config\<close>: the configuration (\<open>config.go\<close>, the schema), its
  structural check (\<open>validate.go\<close>) and the check of the file's permissions
  (\<open>mode.go\<close>). Loading and saving are in the theory \<open>Config_File\<close>.
\<close>

section \<open>The schema\<close>

definition SchemaVersion :: int where "SchemaVersion = 1"

record host_info =
  HI_Name :: string
  AdvertiseAddr :: string

record pki_paths =
  CACertPath :: string
  CAKeyPath :: string
  HostCertPath :: string
  HostKeyPath :: string

record listener_addr =
  LA_Addr :: string

record probe_listener =
  HTTPAddr :: string
  UDPAddr :: string

record listeners =
  L_InterHost :: listener_addr
  L_UI :: listener_addr
  L_Probe :: probe_listener

record probe_settings =
  IntervalSeconds :: int
  JitterPercent :: int
  TimeoutSeconds :: int
  FailureWindow :: int
  FailureThreshold :: int
  RingbufferSize :: int
  UDPSharedSecret :: string

record peer =
  P_Name :: string
  P_Addr :: string
  Checks :: "string list"
  TCPPort :: int
  UDPPort :: int
  HTTPSURL :: string

record user =
  U_Name :: string
  PasswordHash :: string

record ui_config =
  Users :: "user list"
  SessionSecret :: string
  SessionTTLSeconds :: int

record log_config =
  Level :: string

record config =
  C_SchemaVersion :: int
  C_Host :: host_info
  C_PKI :: pki_paths
  C_Listeners :: listeners
  C_Probe :: probe_settings
  C_Peers :: "peer list"
  C_UI :: ui_config
  C_Log :: log_config

section \<open>Validation\<close>

datatype config_error =
    UnsupportedSchema int
  | HostNameRequired
  | ThresholdAboveWindow int int
  | SecretNotBase64 string
  | SecretWrongLength string nat
  | DuplicatePeer string

datatype warning = UnknownCheck string string

text \<open>The map \<open>validChecks\<close>; a missing key reads as false.\<close>

definition validChecks :: "string \<Rightarrow> bool" where
  "validChecks ch \<longleftrightarrow> ch \<in> set [''icmp'', ''tcp'', ''udp'', ''https'']"

definition checkSecret :: "string \<Rightarrow> string \<Rightarrow> config_error option" where
  "checkSecret field b64 =
     (case std_decode b64 of
        None \<Rightarrow> Some (SecretNotBase64 field)
      | Some raw \<Rightarrow> if length raw \<noteq> 32 then Some (SecretWrongLength field (length raw)) else None)"

text \<open>The inner loop over the checks of a peer and the outer loop over the peers.\<close>

fun check_warnings :: "string \<Rightarrow> string list \<Rightarrow> warning list \<Rightarrow> warning list" where
  "check_warnings name [] ws = ws"
| "check_warnings name (ch # chs) ws =
     check_warnings name chs (if \<not> validChecks ch then ws @ [UnknownCheck name ch] else ws)"

fun validate_peers ::
    "peer list \<Rightarrow> (string \<Rightarrow> bool) \<Rightarrow> warning list \<Rightarrow> warning list \<times> config_error option" where
  "validate_peers [] seen ws = (ws, None)"
| "validate_peers (p # ps) seen ws =
     (if seen (P_Name p) then (ws, Some (DuplicatePeer (P_Name p)))
      else validate_peers ps (seen(P_Name p := True)) (check_warnings (P_Name p) (Checks p) ws))"

definition ValidateWithWarnings :: "config \<Rightarrow> warning list \<times> config_error option" where
  "ValidateWithWarnings c =
     (if C_SchemaVersion c \<noteq> SchemaVersion then ([], Some (UnsupportedSchema (C_SchemaVersion c)))
      else if HI_Name (C_Host c) = [] then ([], Some HostNameRequired)
      else if FailureThreshold (C_Probe c) > FailureWindow (C_Probe c)
        then ([], Some (ThresholdAboveWindow (FailureThreshold (C_Probe c)) (FailureWindow (C_Probe c))))
      else (case checkSecret ''probe.udpSharedSecret'' (UDPSharedSecret (C_Probe c)) of
          Some e \<Rightarrow> ([], Some e)
        | None \<Rightarrow>
          (case checkSecret ''ui.sessionSecret'' (SessionSecret (C_UI c)) of
             Some e \<Rightarrow> ([], Some e)
           | None \<Rightarrow> validate_peers (C_Peers c) (\<lambda>_. False) [])))"

definition Validate :: "config \<Rightarrow> config_error option" where
  "Validate c = snd (ValidateWithWarnings c)"

section \<open>File permissions\<close>

datatype mode_error =
    StatFailed string
  | InsecureMode nat

text \<open>\<open>stat\<close> is the outcome of \<open>os.Stat\<close>: an error or the permission bits; 384 is octal 600.\<close>

definition CheckMode :: "string + nat \<Rightarrow> mode_error option" where
  "CheckMode stat =
     (case stat of
        Inl e \<Rightarrow> Some (StatFailed e)
      | Inr perm \<Rightarrow> if perm \<noteq> 384 then Some (InsecureMode perm) else None)"

section \<open>Lemmas\<close>

definition secret_ok :: "string \<Rightarrow> bool" where
  "secret_ok b64 \<longleftrightarrow> (\<exists>raw. std_decode b64 = Some raw \<and> length raw = 32)"

lemma checkSecret_None_iff: "checkSecret f b = None \<longleftrightarrow> secret_ok b"
  by (auto simp: checkSecret_def secret_ok_def split: option.splits)

lemma check_warnings_eq:
  "check_warnings n chs ws = ws @ map (UnknownCheck n) (filter (\<lambda>ch. \<not> validChecks ch) chs)"
  by (induction chs arbitrary: ws) auto

lemma validate_peers_None_iff:
  "snd (validate_peers ps seen ws) = None \<longleftrightarrow>
     distinct (map P_Name ps) \<and> (\<forall>p \<in> set ps. \<not> seen (P_Name p))"
  by (induction ps arbitrary: seen ws) (auto simp: image_iff)

definition unknown_checks :: "peer \<Rightarrow> warning list" where
  "unknown_checks p = map (UnknownCheck (P_Name p)) (filter (\<lambda>ch. \<not> validChecks ch) (Checks p))"

lemma validate_peers_warnings:
  "snd (validate_peers ps seen ws) = None \<Longrightarrow>
     fst (validate_peers ps seen ws) = ws @ concat (map unknown_checks ps)"
  by (induction ps arbitrary: seen ws) (auto simp: check_warnings_eq unknown_checks_def)

lemma validate_peers_Some:
  "snd (validate_peers ps seen ws) = Some e \<Longrightarrow> \<exists>n. e = DuplicatePeer n"
  by (induction ps arbitrary: seen ws) (auto split: if_splits)

lemma Validate_None_iff:
  "Validate c = None \<longleftrightarrow>
     C_SchemaVersion c = 1 \<and> HI_Name (C_Host c) \<noteq> [] \<and>
     FailureThreshold (C_Probe c) \<le> FailureWindow (C_Probe c) \<and>
     secret_ok (UDPSharedSecret (C_Probe c)) \<and> secret_ok (SessionSecret (C_UI c)) \<and>
     distinct (map P_Name (C_Peers c))"
  unfolding checkSecret_None_iff [of "''probe.udpSharedSecret''" "UDPSharedSecret (C_Probe c)", symmetric]
    checkSecret_None_iff [of "''ui.sessionSecret''" "SessionSecret (C_UI c)", symmetric]
  by (auto simp: Validate_def ValidateWithWarnings_def SchemaVersion_def validate_peers_None_iff
      split: option.splits)

lemma Validate_warnings:
  "Validate c = None \<Longrightarrow> fst (ValidateWithWarnings c) = concat (map unknown_checks (C_Peers c))"
  by (auto simp: Validate_def ValidateWithWarnings_def validate_peers_warnings
      split: option.splits if_splits)

section \<open>Properties\<close>

text \<open>
  C36. A configuration passes validation exactly when its schema version is 1, the host has a name,
  the failure threshold does not exceed the failure window, both secrets are base64 of exactly 32
  bytes and the peer names are pairwise different; and the warnings are then exactly the unknown
  checks of the peers, in order.
\<close>

theorem validate_accepts_iff:
  "Validate c = None \<longleftrightarrow>
     C_SchemaVersion c = 1 \<and> HI_Name (C_Host c) \<noteq> [] \<and>
     FailureThreshold (C_Probe c) \<le> FailureWindow (C_Probe c) \<and>
     secret_ok (UDPSharedSecret (C_Probe c)) \<and> secret_ok (SessionSecret (C_UI c)) \<and>
     distinct (map P_Name (C_Peers c))"
  by (rule Validate_None_iff)

end
