(* ===== verification/Config_File.thy ===== *)
theory Config_File
  imports Config
begin

text \<open>
  \<open>Load\<close> and \<open>Save\<close> of \<open>internal/pkg/config/config.go\<close> on a file system that maps paths
  to contents and permission bits. Each system call comes with its outcome, so that every failure is
  a case; the text codec (\<open>json.MarshalIndent\<close> and the strict decoder) is a pair of parameters.
\<close>

section \<open>File system\<close>

record file_entry =
  content :: string
  perm :: nat

type_synonym fs = "string \<rightharpoonup> file_entry"

text \<open>A failed write may leave any content behind, or not even create the file.\<close>

datatype write_outcome =
    WriteOk
  | WriteErr string "string option"

datatype call_outcome = CallOk | CallErr string

text \<open>\<open>os.WriteFile\<close>: an existing file keeps its permission bits, a new one gets those asked for.\<close>

definition put_file :: "string \<Rightarrow> string \<Rightarrow> nat \<Rightarrow> fs \<Rightarrow> fs" where
  "put_file path b mode files =
     files(path \<mapsto> \<lparr>content = b, perm = (case files path of None \<Rightarrow> mode | Some f \<Rightarrow> perm f)\<rparr>)"

definition write_file :: "write_outcome \<Rightarrow> string \<Rightarrow> string \<Rightarrow> nat \<Rightarrow> fs \<Rightarrow> string option \<times> fs" where
  "write_file out path b mode files =
     (case out of
        WriteOk \<Rightarrow> (None, put_file path b mode files)
      | WriteErr e left \<Rightarrow>
          (Some e, case left of None \<Rightarrow> files | Some b' \<Rightarrow> put_file path b' mode files))"

text \<open>\<open>os.Rename\<close> replaces the target in one step; a missing source is an error.\<close>

definition rename_file :: "call_outcome \<Rightarrow> string \<Rightarrow> string \<Rightarrow> fs \<Rightarrow> string option \<times> fs" where
  "rename_file out src dst files =
     (case out of
        CallErr e \<Rightarrow> (Some e, files)
      | CallOk \<Rightarrow>
        (case files src of
           None \<Rightarrow> (Some ''no such file or directory'', files)
         | Some f \<Rightarrow> (None, (files(src := None))(dst \<mapsto> f))))"

definition remove_file :: "call_outcome \<Rightarrow> string \<Rightarrow> fs \<Rightarrow> fs" where
  "remove_file out path files = (case out of CallErr _ \<Rightarrow> files | CallOk \<Rightarrow> files(path := None))"

definition read_file :: "call_outcome \<Rightarrow> string \<Rightarrow> fs \<Rightarrow> string + string" where
  "read_file out path files =
     (case out of
        CallErr e \<Rightarrow> Inl e
      | CallOk \<Rightarrow>
        (case files path of
           None \<Rightarrow> Inl ''no such file or directory''
         | Some f \<Rightarrow> Inr (content f)))"

definition stat_perm :: "call_outcome \<Rightarrow> string \<Rightarrow> fs \<Rightarrow> string + nat" where
  "stat_perm out path files =
     (case out of
        CallErr e \<Rightarrow> Inl e
      | CallOk \<Rightarrow>
        (case files path of
           None \<Rightarrow> Inl ''no such file or directory''
         | Some f \<Rightarrow> Inr (perm f)))"

section \<open>Load and Save\<close>

datatype file_error =
    ReadFailed string
  | DecodeFailed string
  | MarshalFailed string
  | WriteTmpFailed string
  | RenameFailed string
  | ChmodFailed string

text \<open>The codec and the outcomes of the system calls of one command.\<close>

record sys =
  marshal :: "config \<Rightarrow> string + string"
  decode :: "string \<Rightarrow> string + config"
  sys_read :: call_outcome
  sys_write :: write_outcome
  sys_rename :: call_outcome
  sys_remove :: call_outcome

definition Load :: "sys \<Rightarrow> string \<Rightarrow> fs \<Rightarrow> file_error + config" where
  "Load sy path files =
     (case read_file (sys_read sy) path files of
        Inl e \<Rightarrow> Inl (ReadFailed e)
      | Inr b \<Rightarrow>
        (case decode sy b of
           Inl e \<Rightarrow> Inl (DecodeFailed e)
         | Inr c \<Rightarrow> Inr c))"

definition tmp_path :: "string \<Rightarrow> string" where
  "tmp_path path = path @ ''.tmp''"

definition Save :: "sys \<Rightarrow> string \<Rightarrow> config \<Rightarrow> fs \<Rightarrow> file_error option \<times> fs" where
  "Save sy path c files =
     (case marshal sy c of
        Inl e \<Rightarrow> (Some (MarshalFailed e), files)
      | Inr b \<Rightarrow>
        (case write_file (sys_write sy) (tmp_path path) b 384 files of
           (Some e, files1) \<Rightarrow> (Some (WriteTmpFailed e), files1)
         | (None, files1) \<Rightarrow>
           (case rename_file (sys_rename sy) (tmp_path path) path files1 of
              (Some e, files2) \<Rightarrow>
                (Some (RenameFailed e), remove_file (sys_remove sy) (tmp_path path) files2)
            | (None, files2) \<Rightarrow> (None, files2))))"

section \<open>Lemmas\<close>

lemma tmp_path_neq [simp]: "tmp_path path \<noteq> path" "path \<noteq> tmp_path path"
  by (simp_all add: tmp_path_def)

text \<open>What a save changes: the file and its temporary neighbour, the file only on success.\<close>

lemma Save_frame:
  "p \<noteq> path \<Longrightarrow> p \<noteq> tmp_path path \<Longrightarrow> snd (Save sy path c files) p = files p"
  by (auto simp: Save_def write_file_def rename_file_def remove_file_def put_file_def
      split: sum.splits write_outcome.splits call_outcome.splits option.splits)

lemma Save_failed: "fst (Save sy path c files) = Some e \<Longrightarrow> snd (Save sy path c files) path = files path"
  by (auto simp: Save_def write_file_def rename_file_def remove_file_def put_file_def
      split: sum.splits write_outcome.splits call_outcome.splits option.splits)

lemma Save_ok:
  "fst (Save sy path c files) = None \<Longrightarrow>
     \<exists>b. marshal sy c = Inr b \<and>
       snd (Save sy path c files) path =
         Some \<lparr>content = b, perm = (case files (tmp_path path) of None \<Rightarrow> 384 | Some f \<Rightarrow> perm f)\<rparr>"
  by (auto simp: Save_def write_file_def rename_file_def put_file_def
      split: sum.splits write_outcome.splits call_outcome.splits option.splits)

lemma Load_ok_iff [ok_iff]:
  "Load sy path files = Inr c \<longleftrightarrow>
     sys_read sy = CallOk \<and> (\<exists>f. files path = Some f \<and> decode sy (content f) = Inr c)"
  by (auto simp: Load_def read_file_def split: sum.splits call_outcome.splits option.splits)

lemma Load_after_Save:
  assumes "fst (Save sy path c files) = None" "sys_read sy' = CallOk"
    and "\<And>b. marshal sy c = Inr b \<Longrightarrow> decode sy' b = Inr c"
  shows "Load sy' path (snd (Save sy path c files)) = Inr c"
  using Save_ok [OF assms(1)] assms(2,3) by (auto simp: Load_ok_iff)

section \<open>Properties\<close>

text \<open>
  C31. Saving is atomic: whatever the outcomes of marshalling, writing, renaming and removing, the
  configuration file is untouched if an error is returned and holds the complete new text if none is,
  and no file other than it and its \<open>.tmp\<close> neighbour changes.
\<close>

theorem save_atomic:
  "(case fst (Save sy path c files) of
      Some e \<Rightarrow> snd (Save sy path c files) path = files path
    | None \<Rightarrow> \<exists>b f. marshal sy c = Inr b \<and> snd (Save sy path c files) path = Some f \<and> content f = b) \<and>
   {p. snd (Save sy path c files) p \<noteq> files p} \<subseteq> {path, tmp_path path}"
proof -
  have "{p. snd (Save sy path c files) p \<noteq> files p} \<subseteq> {path, tmp_path path}"
    using Save_frame by blast
  then show ?thesis
    using Save_failed [of sy path c files] Save_ok [of sy path c files]
    by (cases "fst (Save sy path c files)") auto
qed

text \<open>
  The permission check after a save: when no \<open>.tmp\<close> file was left over, a saved file passes
  \<open>CheckMode\<close>; when one was, the saved file takes over its permission bits, and the daemon refuses
  the configuration unless they are 0600.
\<close>

theorem save_mode:
  assumes "fst (Save sy path c files) = None"
  shows "CheckMode (stat_perm CallOk path (snd (Save sy path c files))) =
    (case files (tmp_path path) of
       None \<Rightarrow> None
     | Some f \<Rightarrow> if perm f = 384 then None else Some (InsecureMode (perm f)))"
  using Save_ok [OF assms] by (auto simp: stat_perm_def CheckMode_def split: option.splits)

definition sample_sys :: sys where
  "sample_sys =
     \<lparr>marshal = (\<lambda>c. Inr (HI_Name (C_Host c))), decode = (\<lambda>s. Inl ''n/a''), sys_read = CallOk,
      sys_write = WriteOk, sys_rename = CallOk, sys_remove = CallOk\<rparr>"

theorem save_mode_witness:
  "CheckMode (stat_perm CallOk ''c'' (snd (Save sample_sys ''c'' c
     [''c.tmp'' \<mapsto> \<lparr>content = [], perm = 420\<rparr>]))) = Some (InsecureMode 420)"
proof -
  have "fst (Save sample_sys ''c'' c [''c.tmp'' \<mapsto> \<lparr>content = [], perm = 420\<rparr>]) = None"
    by (simp add: Save_def sample_sys_def write_file_def put_file_def rename_file_def tmp_path_def)
  from save_mode [OF this] show ?thesis by (simp add: tmp_path_def)
qed

end
