(* ===== verification/Config_Json.thy ===== *)
theory Config_Json
  imports Config_File Go_Json_Laws
begin

text \<open>
  The text of a configuration file: the tags of the structs in \<open>internal/pkg/config/config.go\<close>, as
  \<open>json.MarshalIndent(c, "", "  ")\<close> and a \<open>json.Decoder\<close> with \<open>DisallowUnknownFields\<close> read
  them. The decoder writes into the value it is given, member by member: a repeated member is decoded
  over the earlier one, slices included, whose memory beyond their length is kept.
\<close>

section \<open>Printing\<close>

text \<open>
  A nil slice prints as null and an empty one as two brackets; the model does not tell them apart, so
  which of the empty slices are nil is an argument.
\<close>

record nil_slices =
  nil_peers :: bool
  nil_users :: bool
  nil_checks :: "peer \<Rightarrow> bool"

definition jint :: "int \<Rightarrow> json" where "jint i = JNum (itoa i)"

definition jslice :: "bool \<Rightarrow> json list \<Rightarrow> json" where
  "jslice is_nil js = (if is_nil \<and> js = [] then JNull else JArr js)"

definition peer_json :: "nil_slices \<Rightarrow> peer \<Rightarrow> json" where
  "peer_json ns p = JObj
     ([(''name'', JStr (P_Name p)), (''addr'', JStr (P_Addr p)),
       (''checks'', jslice (nil_checks ns p) (map JStr (Checks p)))] @
      (if TCPPort p = 0 then [] else [(''tcpPort'', jint (TCPPort p))]) @
      (if UDPPort p = 0 then [] else [(''udpPort'', jint (UDPPort p))]) @
      (if HTTPSURL p = [] then [] else [(''httpsURL'', JStr (HTTPSURL p))]))"

definition user_json :: "user \<Rightarrow> json" where
  "user_json u = JObj [(''name'', JStr (U_Name u)), (''passwordHash'', JStr (PasswordHash u))]"

definition host_json :: "host_info \<Rightarrow> json" where
  "host_json h = JObj [(''name'', JStr (HI_Name h)), (''advertiseAddr'', JStr (AdvertiseAddr h))]"

definition pki_json :: "pki_paths \<Rightarrow> json" where
  "pki_json k = JObj
     [(''caCertPath'', JStr (CACertPath k)), (''caKeyPath'', JStr (CAKeyPath k)),
      (''hostCertPath'', JStr (HostCertPath k)), (''hostKeyPath'', JStr (HostKeyPath k))]"

definition addr_json :: "listener_addr \<Rightarrow> json" where
  "addr_json a = JObj [(''addr'', JStr (LA_Addr a))]"

definition probe_listener_json :: "probe_listener \<Rightarrow> json" where
  "probe_listener_json p = JObj [(''httpAddr'', JStr (HTTPAddr p)), (''udpAddr'', JStr (UDPAddr p))]"

definition listeners_json :: "listeners \<Rightarrow> json" where
  "listeners_json l = JObj
     [(''interhost'', addr_json (L_InterHost l)), (''ui'', addr_json (L_UI l)),
      (''probe'', probe_listener_json (L_Probe l))]"

definition probe_json :: "probe_settings \<Rightarrow> json" where
  "probe_json p = JObj
     [(''intervalSeconds'', jint (IntervalSeconds p)), (''jitterPercent'', jint (JitterPercent p)),
      (''timeoutSeconds'', jint (TimeoutSeconds p)), (''failureWindow'', jint (FailureWindow p)),
      (''failureThreshold'', jint (FailureThreshold p)), (''ringbufferSize'', jint (RingbufferSize p)),
      (''udpSharedSecret'', JStr (UDPSharedSecret p))]"

definition ui_json :: "nil_slices \<Rightarrow> ui_config \<Rightarrow> json" where
  "ui_json ns u = JObj
     [(''users'', jslice (nil_users ns) (map user_json (Users u))),
      (''sessionSecret'', JStr (SessionSecret u)), (''sessionTTLSeconds'', jint (SessionTTLSeconds u))]"

definition log_json :: "log_config \<Rightarrow> json" where
  "log_json l = JObj [(''level'', JStr (Level l))]"

definition config_json :: "nil_slices \<Rightarrow> config \<Rightarrow> json" where
  "config_json ns c = JObj
     [(''schemaVersion'', jint (C_SchemaVersion c)), (''host'', host_json (C_Host c)),
      (''pki'', pki_json (C_PKI c)), (''listeners'', listeners_json (C_Listeners c)),
      (''probe'', probe_json (C_Probe c)),
      (''peers'', jslice (nil_peers ns) (map (peer_json ns) (C_Peers c))),
      (''ui'', ui_json ns (C_UI c)), (''log'', log_json (C_Log c))]"

definition marshal_config :: "nil_slices \<Rightarrow> config \<Rightarrow> string" where
  "marshal_config ns c = print_json True 0 (config_json ns c)"

section \<open>Decoding into structs\<close>

datatype json_error =
    JsonSyntax
  | JsonType
  | JsonUnknownField string

text \<open>The values of a struct's fields by their name in the text.\<close>

type_synonym 's fields = "(string \<times> (json \<Rightarrow> 's \<Rightarrow> json_error + 's)) list"

text \<open>
  \<open>foldName\<close>: ASCII letters in upper case; the two other runes that fold to ASCII are U+017F (to S)
  and U+212A (to K).
\<close>

definition upper :: "char \<Rightarrow> char" where
  "upper c = (if 97 \<le> ord c \<and> ord c \<le> 122 then char_of (ord c - 32) else c)"

function fold_name :: "string \<Rightarrow> string" where
  "fold_name s =
     (if s = [] then []
      else if take 2 s = [CHR 0xC5, CHR 0xBF] then CHR ''S'' # fold_name (drop 2 s)
      else if take 3 s = [CHR 0xE2, CHR 0x84, CHR 0xAA] then CHR ''K'' # fold_name (drop 3 s)
      else upper (hd s) # fold_name (tl s))"
  by pat_completeness auto
termination by (relation "measure length") auto

declare fold_name.simps [simp del]

text \<open>The field of that very name, or else the first whose name is equal up to case.\<close>

definition find_field :: "'s fields \<Rightarrow> string \<Rightarrow> (json \<Rightarrow> 's \<Rightarrow> json_error + 's) option" where
  "find_field fs k =
     (case map_of fs k of
        Some f \<Rightarrow> Some f
      | None \<Rightarrow> map_option snd (find (\<lambda>nf. fold_name (fst nf) = fold_name k) fs))"

fun decode_members :: "'s fields \<Rightarrow> (string \<times> json) list \<Rightarrow> 's \<Rightarrow> json_error + 's" where
  "decode_members fs [] s = Inr s"
| "decode_members fs ((k, j) # ms) s =
     (case find_field fs k of
        None \<Rightarrow> Inl (JsonUnknownField k)
      | Some f \<Rightarrow> and_then (f j s) (decode_members fs ms))"

text \<open>Null leaves a struct, a string or an integer as it is.\<close>

definition decode_struct :: "'s fields \<Rightarrow> json \<Rightarrow> 's \<Rightarrow> json_error + 's" where
  "decode_struct fs j s =
     (case j of JObj ms \<Rightarrow> decode_members fs ms s | JNull \<Rightarrow> Inr s | _ \<Rightarrow> Inl JsonType)"

definition decode_string :: "(string \<Rightarrow> 's \<Rightarrow> 's) \<Rightarrow> json \<Rightarrow> 's \<Rightarrow> json_error + 's" where
  "decode_string put j s = (case j of JStr t \<Rightarrow> Inr (put t s) | JNull \<Rightarrow> Inr s | _ \<Rightarrow> Inl JsonType)"

definition decode_int :: "(int \<Rightarrow> 's \<Rightarrow> 's) \<Rightarrow> json \<Rightarrow> 's \<Rightarrow> json_error + 's" where
  "decode_int put j s =
     (case j of
        JNum l \<Rightarrow> (case parse_int l of Inr i \<Rightarrow> Inr (put i s) | Inl _ \<Rightarrow> Inl JsonType)
      | JNull \<Rightarrow> Inr s
      | _ \<Rightarrow> Inl JsonType)"

text \<open>A slice: its elements and what its memory holds behind them.\<close>

record 'a slice =
  visible :: "'a list"
  hidden :: "'a list"

definition empty_slice :: "'a slice" where "empty_slice = \<lparr>visible = [], hidden = []\<rparr>"

text \<open>Each element is decoded over the memory at its index, the zero value beyond it.\<close>

fun decode_elems :: "'a \<Rightarrow> (json \<Rightarrow> 'a \<Rightarrow> json_error + 'a) \<Rightarrow> json list \<Rightarrow> 'a list \<Rightarrow> json_error + 'a list" where
  "decode_elems z f [] mem = Inr []"
| "decode_elems z f (j # js) mem =
     and_then (f j (case mem of [] \<Rightarrow> z | x # _ \<Rightarrow> x)) (\<lambda>y.
     and_then (decode_elems z f js (tl mem)) (\<lambda>ys. Inr (y # ys)))"

definition decode_slice :: "'a \<Rightarrow> (json \<Rightarrow> 'a \<Rightarrow> json_error + 'a) \<Rightarrow> json \<Rightarrow> 'a slice \<Rightarrow> json_error + 'a slice" where
  "decode_slice z f j sl =
     (case j of
        JNull \<Rightarrow> Inr empty_slice
      | JArr js \<Rightarrow>
          if js = [] then Inr empty_slice
          else and_then (decode_elems z f js (visible sl @ hidden sl)) (\<lambda>ys.
            Inr \<lparr>visible = ys, hidden = drop (length js) (visible sl @ hidden sl)\<rparr>)
      | _ \<Rightarrow> Inl JsonType)"

section \<open>The fields of the configuration\<close>

text \<open>A peer in memory: its \<open>Checks\<close> are a slice.\<close>

record peer_mem =
  pm_peer :: peer
  pm_checks :: "string slice"

definition zero_peer :: peer where
  "zero_peer = \<lparr>P_Name = [], P_Addr = [], Checks = [], TCPPort = 0, UDPPort = 0, HTTPSURL = []\<rparr>"

definition zero_peer_mem :: peer_mem where
  "zero_peer_mem = \<lparr>pm_peer = zero_peer, pm_checks = empty_slice\<rparr>"

definition peer_of_mem :: "peer_mem \<Rightarrow> peer" where
  "peer_of_mem m = (pm_peer m)\<lparr>Checks := visible (pm_checks m)\<rparr>"

definition peer_fields :: "peer_mem fields" where
  "peer_fields =
     [(''name'', decode_string (\<lambda>t m. m\<lparr>pm_peer := (pm_peer m)\<lparr>P_Name := t\<rparr>\<rparr>)),
      (''addr'', decode_string (\<lambda>t m. m\<lparr>pm_peer := (pm_peer m)\<lparr>P_Addr := t\<rparr>\<rparr>)),
      (''checks'', \<lambda>j m. and_then (decode_slice [] (decode_string (\<lambda>t _. t)) j (pm_checks m)) (\<lambda>sl.
         Inr (m\<lparr>pm_checks := sl\<rparr>))),
      (''tcpPort'', decode_int (\<lambda>i m. m\<lparr>pm_peer := (pm_peer m)\<lparr>TCPPort := i\<rparr>\<rparr>)),
      (''udpPort'', decode_int (\<lambda>i m. m\<lparr>pm_peer := (pm_peer m)\<lparr>UDPPort := i\<rparr>\<rparr>)),
      (''httpsURL'', decode_string (\<lambda>t m. m\<lparr>pm_peer := (pm_peer m)\<lparr>HTTPSURL := t\<rparr>\<rparr>))]"

definition user_fields :: "user fields" where
  "user_fields =
     [(''name'', decode_string (\<lambda>t u. u\<lparr>U_Name := t\<rparr>)),
      (''passwordHash'', decode_string (\<lambda>t u. u\<lparr>PasswordHash := t\<rparr>))]"

definition zero_user :: user where "zero_user = \<lparr>U_Name = [], PasswordHash = []\<rparr>"

text \<open>The configuration in memory: \<open>peers\<close> and \<open>users\<close> are slices.\<close>

record config_mem =
  cm_cfg :: config
  cm_peers :: "peer_mem slice"
  cm_users :: "user slice"

definition host_fields :: "host_info fields" where
  "host_fields =
     [(''name'', decode_string (\<lambda>t h. h\<lparr>HI_Name := t\<rparr>)),
      (''advertiseAddr'', decode_string (\<lambda>t h. h\<lparr>AdvertiseAddr := t\<rparr>))]"

definition pki_fields :: "pki_paths fields" where
  "pki_fields =
     [(''caCertPath'', decode_string (\<lambda>t k. k\<lparr>CACertPath := t\<rparr>)),
      (''caKeyPath'', decode_string (\<lambda>t k. k\<lparr>CAKeyPath := t\<rparr>)),
      (''hostCertPath'', decode_string (\<lambda>t k. k\<lparr>HostCertPath := t\<rparr>)),
      (''hostKeyPath'', decode_string (\<lambda>t k. k\<lparr>HostKeyPath := t\<rparr>))]"

definition addr_fields :: "listener_addr fields" where
  "addr_fields = [(''addr'', decode_string (\<lambda>t a. a\<lparr>LA_Addr := t\<rparr>))]"

definition probe_listener_fields :: "probe_listener fields" where
  "probe_listener_fields =
     [(''httpAddr'', decode_string (\<lambda>t p. p\<lparr>HTTPAddr := t\<rparr>)),
      (''udpAddr'', decode_string (\<lambda>t p. p\<lparr>UDPAddr := t\<rparr>))]"

text \<open>A struct inside a struct.\<close>

definition nested :: "'a fields \<Rightarrow> ('s \<Rightarrow> 'a) \<Rightarrow> ('a \<Rightarrow> 's \<Rightarrow> 's) \<Rightarrow> json \<Rightarrow> 's \<Rightarrow> json_error + 's" where
  "nested fs get put j s = and_then (decode_struct fs j (get s)) (\<lambda>a. Inr (put a s))"

definition listeners_fields :: "listeners fields" where
  "listeners_fields =
     [(''interhost'', nested addr_fields L_InterHost (\<lambda>a l. l\<lparr>L_InterHost := a\<rparr>)),
      (''ui'', nested addr_fields L_UI (\<lambda>a l. l\<lparr>L_UI := a\<rparr>)),
      (''probe'', nested probe_listener_fields L_Probe (\<lambda>a l. l\<lparr>L_Probe := a\<rparr>))]"

definition probe_fields :: "probe_settings fields" where
  "probe_fields =
     [(''intervalSeconds'', decode_int (\<lambda>i p. p\<lparr>IntervalSeconds := i\<rparr>)),
      (''jitterPercent'', decode_int (\<lambda>i p. p\<lparr>JitterPercent := i\<rparr>)),
      (''timeoutSeconds'', decode_int (\<lambda>i p. p\<lparr>TimeoutSeconds := i\<rparr>)),
      (''failureWindow'', decode_int (\<lambda>i p. p\<lparr>FailureWindow := i\<rparr>)),
      (''failureThreshold'', decode_int (\<lambda>i p. p\<lparr>FailureThreshold := i\<rparr>)),
      (''ringbufferSize'', decode_int (\<lambda>i p. p\<lparr>RingbufferSize := i\<rparr>)),
      (''udpSharedSecret'', decode_string (\<lambda>t p. p\<lparr>UDPSharedSecret := t\<rparr>))]"

text \<open>The users of the UI struct live in the configuration's memory.\<close>

definition ui_fields :: "(ui_config \<times> user slice) fields" where
  "ui_fields =
     [(''users'', \<lambda>j u. and_then (decode_slice zero_user (decode_struct user_fields) j (snd u)) (\<lambda>sl.
         Inr (fst u, sl))),
      (''sessionSecret'', decode_string (\<lambda>t u. ((fst u)\<lparr>SessionSecret := t\<rparr>, snd u))),
      (''sessionTTLSeconds'', decode_int (\<lambda>i u. ((fst u)\<lparr>SessionTTLSeconds := i\<rparr>, snd u)))]"

definition log_fields :: "log_config fields" where
  "log_fields = [(''level'', decode_string (\<lambda>t l. l\<lparr>Level := t\<rparr>))]"

definition config_fields :: "config_mem fields" where
  "config_fields =
     [(''schemaVersion'', decode_int (\<lambda>i m. m\<lparr>cm_cfg := (cm_cfg m)\<lparr>C_SchemaVersion := i\<rparr>\<rparr>)),
      (''host'', nested host_fields (\<lambda>m. C_Host (cm_cfg m)) (\<lambda>h m. m\<lparr>cm_cfg := (cm_cfg m)\<lparr>C_Host := h\<rparr>\<rparr>)),
      (''pki'', nested pki_fields (\<lambda>m. C_PKI (cm_cfg m)) (\<lambda>k m. m\<lparr>cm_cfg := (cm_cfg m)\<lparr>C_PKI := k\<rparr>\<rparr>)),
      (''listeners'', nested listeners_fields (\<lambda>m. C_Listeners (cm_cfg m))
         (\<lambda>l m. m\<lparr>cm_cfg := (cm_cfg m)\<lparr>C_Listeners := l\<rparr>\<rparr>)),
      (''probe'', nested probe_fields (\<lambda>m. C_Probe (cm_cfg m)) (\<lambda>p m. m\<lparr>cm_cfg := (cm_cfg m)\<lparr>C_Probe := p\<rparr>\<rparr>)),
      (''peers'', \<lambda>j m. and_then (decode_slice zero_peer_mem (decode_struct peer_fields) j (cm_peers m)) (\<lambda>sl.
         Inr (m\<lparr>cm_peers := sl\<rparr>))),
      (''ui'', nested ui_fields (\<lambda>m. (C_UI (cm_cfg m), cm_users m))
         (\<lambda>u m. m\<lparr>cm_cfg := (cm_cfg m)\<lparr>C_UI := fst u\<rparr>, cm_users := snd u\<rparr>)),
      (''log'', nested log_fields (\<lambda>m. C_Log (cm_cfg m)) (\<lambda>l m. m\<lparr>cm_cfg := (cm_cfg m)\<lparr>C_Log := l\<rparr>\<rparr>))]"

definition zero_config :: config where
  "zero_config =
     \<lparr>C_SchemaVersion = 0, C_Host = \<lparr>HI_Name = [], AdvertiseAddr = []\<rparr>,
      C_PKI = \<lparr>CACertPath = [], CAKeyPath = [], HostCertPath = [], HostKeyPath = []\<rparr>,
      C_Listeners = \<lparr>L_InterHost = \<lparr>LA_Addr = []\<rparr>, L_UI = \<lparr>LA_Addr = []\<rparr>,
        L_Probe = \<lparr>HTTPAddr = [], UDPAddr = []\<rparr>\<rparr>,
      C_Probe = \<lparr>IntervalSeconds = 0, JitterPercent = 0, TimeoutSeconds = 0, FailureWindow = 0,
        FailureThreshold = 0, RingbufferSize = 0, UDPSharedSecret = []\<rparr>,
      C_Peers = [], C_UI = \<lparr>Users = [], SessionSecret = [], SessionTTLSeconds = 0\<rparr>, C_Log = \<lparr>Level = []\<rparr>\<rparr>"

definition zero_config_mem :: config_mem where
  "zero_config_mem = \<lparr>cm_cfg = zero_config, cm_peers = empty_slice, cm_users = empty_slice\<rparr>"

definition config_of_mem :: "config_mem \<Rightarrow> config" where
  "config_of_mem m =
     (cm_cfg m)\<lparr>C_Peers := map peer_of_mem (visible (cm_peers m)),
                C_UI := (C_UI (cm_cfg m))\<lparr>Users := visible (cm_users m)\<rparr>\<rparr>"

text \<open>\<open>Decoder.Decode\<close> on the text of a file: the first value; the rest of the text is not read.\<close>

definition decode_config :: "string \<Rightarrow> json_error + config" where
  "decode_config s =
     (case parse_json s of
        None \<Rightarrow> Inl JsonSyntax
      | Some (j, _) \<Rightarrow>
        (case decode_struct config_fields j zero_config_mem of
           Inl e \<Rightarrow> Inl e
         | Inr m \<Rightarrow> Inr (config_of_mem m)))"

end
