(* ===== verification/Config_Codec.thy ===== *)
theory Config_Codec
  imports Config_Json
begin

text \<open>
  The two directions of the configuration's text form: what is printed from a configuration of valid
  UTF-8 strings and 64-bit integers decodes to that configuration, and whatever decodes is such a
  configuration. With this codec in place of the parameter of \<open>Load\<close> and \<open>Save\<close>, saving and
  loading is the identity.
\<close>

section \<open>Representable configurations\<close>

definition peer_ok :: "peer \<Rightarrow> bool" where
  "peer_ok p \<longleftrightarrow> utf8_valid (P_Name p) \<and> utf8_valid (P_Addr p) \<and> list_all utf8_valid (Checks p) \<and>
     is_int64 (TCPPort p) \<and> is_int64 (UDPPort p) \<and> utf8_valid (HTTPSURL p)"

definition user_ok :: "user \<Rightarrow> bool" where
  "user_ok u \<longleftrightarrow> utf8_valid (U_Name u) \<and> utf8_valid (PasswordHash u)"

definition host_ok :: "host_info \<Rightarrow> bool" where
  "host_ok h \<longleftrightarrow> utf8_valid (HI_Name h) \<and> utf8_valid (AdvertiseAddr h)"

definition pki_ok :: "pki_paths \<Rightarrow> bool" where
  "pki_ok k \<longleftrightarrow> utf8_valid (CACertPath k) \<and> utf8_valid (CAKeyPath k) \<and> utf8_valid (HostCertPath k) \<and>
     utf8_valid (HostKeyPath k)"

definition listeners_ok :: "listeners \<Rightarrow> bool" where
  "listeners_ok l \<longleftrightarrow> utf8_valid (LA_Addr (L_InterHost l)) \<and> utf8_valid (LA_Addr (L_UI l)) \<and>
     utf8_valid (HTTPAddr (L_Probe l)) \<and> utf8_valid (UDPAddr (L_Probe l))"

definition probe_ok :: "probe_settings \<Rightarrow> bool" where
  "probe_ok p \<longleftrightarrow> is_int64 (IntervalSeconds p) \<and> is_int64 (JitterPercent p) \<and> is_int64 (TimeoutSeconds p) \<and>
     is_int64 (FailureWindow p) \<and> is_int64 (FailureThreshold p) \<and> is_int64 (RingbufferSize p) \<and>
     utf8_valid (UDPSharedSecret p)"

definition config_ok :: "config \<Rightarrow> bool" where
  "config_ok c \<longleftrightarrow> is_int64 (C_SchemaVersion c) \<and> host_ok (C_Host c) \<and> pki_ok (C_PKI c) \<and>
     listeners_ok (C_Listeners c) \<and> probe_ok (C_Probe c) \<and> list_all peer_ok (C_Peers c) \<and>
     list_all user_ok (Users (C_UI c)) \<and> utf8_valid (SessionSecret (C_UI c)) \<and>
     is_int64 (SessionTTLSeconds (C_UI c)) \<and> utf8_valid (Level (C_Log c))"

lemmas ok_defs = peer_ok_def user_ok_def host_ok_def pki_ok_def listeners_ok_def probe_ok_def config_ok_def

section \<open>Decoding what was printed\<close>

lemma find_field_exact: "map_of fs k = Some f \<Longrightarrow> find_field fs k = Some f"
  by (simp add: find_field_def)

lemma decode_members_exact:
  "map_of fs k = Some f \<Longrightarrow> decode_members fs ((k, j) # ms) s = and_then (f j s) (decode_members fs ms)"
  by (simp add: find_field_exact)

lemma decode_struct_JObj [simp]: "decode_struct fs (JObj ms) s = decode_members fs ms s"
  by (simp add: decode_struct_def)

lemma decode_string_JStr [simp]: "decode_string put (JStr t) s = Inr (put t s)"
  by (simp add: decode_string_def)

lemma decode_int_jint [simp]: "is_int64 i \<Longrightarrow> decode_int put (jint i) s = Inr (put i s)"
  by (simp add: decode_int_def jint_def parse_int_itoa)

lemma decode_elems_map:
  assumes "\<And>x. x \<in> set xs \<Longrightarrow> f (g x) z = Inr (h x)"
  shows "decode_elems z f (map g xs) [] = Inr (map h xs)"
  using assms by (induction xs) simp_all

lemma decode_slice_jslice:
  assumes "\<And>x. x \<in> set xs \<Longrightarrow> f (g x) z = Inr (h x)"
  shows "decode_slice z f (jslice b (map g xs)) empty_slice = Inr \<lparr>visible = map h xs, hidden = []\<rparr>"
  using decode_elems_map [of xs f g z h] assms
  by (auto simp: decode_slice_def jslice_def empty_slice_def)

lemma decode_peer:
  assumes "peer_ok p"
  shows "decode_struct peer_fields (peer_json ns p) zero_peer_mem =
    Inr \<lparr>pm_peer = p\<lparr>Checks := []\<rparr>, pm_checks = \<lparr>visible = Checks p, hidden = []\<rparr>\<rparr>"
proof -
  have checks: "decode_slice [] (decode_string (\<lambda>t _. t)) (jslice b (map JStr cs)) empty_slice =
      Inr \<lparr>visible = cs, hidden = []\<rparr>" for b cs
    using decode_slice_jslice [of cs "decode_string (\<lambda>t _. t)" JStr "[]" id b] by simp
  have fields: "map_of peer_fields ''name'' = Some (decode_string (\<lambda>t m. m\<lparr>pm_peer := (pm_peer m)\<lparr>P_Name := t\<rparr>\<rparr>))"
    "map_of peer_fields ''addr'' = Some (decode_string (\<lambda>t m. m\<lparr>pm_peer := (pm_peer m)\<lparr>P_Addr := t\<rparr>\<rparr>))"
    "map_of peer_fields ''checks'' = Some (\<lambda>j m. and_then (decode_slice [] (decode_string (\<lambda>t _. t)) j (pm_checks m))
       (\<lambda>sl. Inr (m\<lparr>pm_checks := sl\<rparr>)))"
    "map_of peer_fields ''tcpPort'' = Some (decode_int (\<lambda>i m. m\<lparr>pm_peer := (pm_peer m)\<lparr>TCPPort := i\<rparr>\<rparr>))"
    "map_of peer_fields ''udpPort'' = Some (decode_int (\<lambda>i m. m\<lparr>pm_peer := (pm_peer m)\<lparr>UDPPort := i\<rparr>\<rparr>))"
    "map_of peer_fields ''httpsURL'' = Some (decode_string (\<lambda>t m. m\<lparr>pm_peer := (pm_peer m)\<lparr>HTTPSURL := t\<rparr>\<rparr>))"
    by (simp_all add: peer_fields_def)
  from assms show ?thesis
    by (cases p) (simp add: peer_json_def decode_struct_def decode_members_exact fields checks
        zero_peer_mem_def zero_peer_def peer_ok_def del: decode_members.simps(2))
qed

lemma decode_user:
  "decode_struct user_fields (user_json u) zero_user = Inr u"
  by (cases u) (simp add: user_json_def decode_struct_def decode_members_exact user_fields_def zero_user_def
      del: decode_members.simps(2))

lemma decode_peers:
  assumes "list_all peer_ok ps"
  shows "\<exists>sl. decode_slice zero_peer_mem (decode_struct peer_fields) (jslice b (map (peer_json ns) ps)) empty_slice = Inr sl \<and>
    map peer_of_mem (visible sl) = ps"
proof -
  have "decode_slice zero_peer_mem (decode_struct peer_fields) (jslice b (map (peer_json ns) ps)) empty_slice =
      Inr \<lparr>visible = map (\<lambda>p. \<lparr>pm_peer = p\<lparr>Checks := []\<rparr>, pm_checks = \<lparr>visible = Checks p, hidden = []\<rparr>\<rparr>) ps, hidden = []\<rparr>"
    by (rule decode_slice_jslice) (use assms decode_peer in \<open>auto simp: list_all_iff\<close>)
  then show ?thesis by (simp add: peer_of_mem_def comp_def)
qed

lemma decode_users:
  "decode_slice zero_user (decode_struct user_fields) (jslice b (map user_json us)) empty_slice =
     Inr \<lparr>visible = us, hidden = []\<rparr>"
  using decode_slice_jslice [of us "decode_struct user_fields" user_json zero_user id b] decode_user by simp

lemma decode_host: "decode_struct host_fields (host_json h) \<lparr>HI_Name = [], AdvertiseAddr = []\<rparr> = Inr h"
  by (cases h) (simp add: host_json_def decode_struct_def decode_members_exact host_fields_def
      del: decode_members.simps(2))

lemma decode_pki:
  "decode_struct pki_fields (pki_json k) \<lparr>CACertPath = [], CAKeyPath = [], HostCertPath = [], HostKeyPath = []\<rparr> = Inr k"
  by (cases k) (simp add: pki_json_def decode_struct_def decode_members_exact pki_fields_def
      del: decode_members.simps(2))

lemma decode_addr: "decode_struct addr_fields (addr_json a) z = Inr a"
  by (cases a; cases z) (simp add: addr_json_def decode_struct_def decode_members_exact addr_fields_def
      del: decode_members.simps(2))

lemma decode_listeners:
  "decode_struct listeners_fields (listeners_json l)
     \<lparr>L_InterHost = \<lparr>LA_Addr = []\<rparr>, L_UI = \<lparr>LA_Addr = []\<rparr>, L_Probe = \<lparr>HTTPAddr = [], UDPAddr = []\<rparr>\<rparr> = Inr l"
proof -
  have "decode_struct probe_listener_fields (probe_listener_json p) \<lparr>HTTPAddr = [], UDPAddr = []\<rparr> = Inr p" for p
    by (cases p) (simp add: probe_listener_json_def decode_members_exact probe_listener_fields_def
        del: decode_members.simps(2))
  then show ?thesis
    by (cases l) (simp add: listeners_json_def decode_members_exact
        listeners_fields_def nested_def decode_addr del: decode_members.simps(2))
qed

lemma decode_probe:
  "probe_ok p \<Longrightarrow> decode_struct probe_fields (probe_json p) z = Inr p"
  by (cases p; cases z) (simp add: probe_json_def decode_struct_def decode_members_exact probe_fields_def probe_ok_def
      del: decode_members.simps(2))

lemma decode_ui:
  assumes "is_int64 (SessionTTLSeconds u)"
  shows "\<exists>u'. decode_struct ui_fields (ui_json ns u) (\<lparr>Users = [], SessionSecret = [], SessionTTLSeconds = 0\<rparr>, empty_slice) =
    Inr (u', \<lparr>visible = Users u, hidden = []\<rparr>) \<and> u'\<lparr>Users := Users u\<rparr> = u"
  using assms
  by (cases u) (simp add: ui_json_def decode_members_exact ui_fields_def decode_users
      del: decode_members.simps(2))

lemma decode_config_json:
  assumes "config_ok c"
  shows "\<exists>m. decode_struct config_fields (config_json ns c) zero_config_mem = Inr m \<and> config_of_mem m = c"
proof -
  from assms have ok: "is_int64 (C_SchemaVersion c)" "probe_ok (C_Probe c)" "list_all peer_ok (C_Peers c)"
    "is_int64 (SessionTTLSeconds (C_UI c))" by (simp_all add: config_ok_def)
  obtain sl where sl: "decode_slice zero_peer_mem (decode_struct peer_fields)
      (jslice (nil_peers ns) (map (peer_json ns) (C_Peers c))) empty_slice = Inr sl" "map peer_of_mem (visible sl) = C_Peers c"
    using decode_peers [OF ok(3)] by blast
  obtain u where u: "decode_struct ui_fields (ui_json ns (C_UI c))
      (\<lparr>Users = [], SessionSecret = [], SessionTTLSeconds = 0\<rparr>, empty_slice) =
      Inr (u, \<lparr>visible = Users (C_UI c), hidden = []\<rparr>)" "u\<lparr>Users := Users (C_UI c)\<rparr> = C_UI c"
    using decode_ui [OF ok(4)] by blast
  have log: "decode_struct log_fields (log_json l) \<lparr>Level = []\<rparr> = Inr l" for l
    by (cases l) (simp add: log_json_def decode_members_exact log_fields_def del: decode_members.simps(2))
  show ?thesis
    using sl u ok
    by (cases c) (simp add: config_json_def decode_members_exact config_fields_def
        nested_def zero_config_mem_def zero_config_def decode_host decode_pki decode_listeners decode_probe log
        config_of_mem_def del: decode_members.simps(2))
qed

section \<open>The text\<close>

lemma printable_jint [simp]: "printable d (jint i)"
  by (auto simp: jint_def)

lemma printable_jslice: "0 < d \<Longrightarrow> list_all (printable (d - 1)) js \<Longrightarrow> printable d (jslice b js)"
  by (simp add: jslice_def)

lemma utf8_valid_lit [simp]: "list_all (\<lambda>c. ord c < 128) s \<Longrightarrow> utf8_valid s"
  by (rule utf8_valid_ascii) (simp add: list_all_iff)

lemma printable_peer: "peer_ok p \<Longrightarrow> 3 \<le> d \<Longrightarrow> printable d (peer_json ns p)"
  by (auto simp: peer_json_def peer_ok_def list_all_iff intro!: printable_jslice)

lemma printable_user: "user_ok u \<Longrightarrow> 1 \<le> d \<Longrightarrow> printable d (user_json u)"
  by (simp add: user_json_def user_ok_def)

lemma printable_config:
  assumes "config_ok c" "10 \<le> d"
  shows "printable d (config_json ns c)"
proof -
  have "printable (d - 1) (jslice b (map (peer_json ns) (C_Peers c)))" for b
    using assms by (intro printable_jslice) (auto simp: list_all_iff config_ok_def intro!: printable_peer)
  moreover have "printable (d - Suc (Suc 0)) (jslice b (map user_json (Users (C_UI c))))" for b
    using assms by (intro printable_jslice) (auto simp: list_all_iff config_ok_def intro!: printable_user)
  ultimately show ?thesis
    using assms
    by (simp add: config_json_def host_json_def pki_json_def listeners_json_def addr_json_def
        probe_listener_json_def probe_json_def ui_json_def log_json_def ok_defs)
qed

text \<open>The text decodes to the configuration, whatever follows it in the file.\<close>

lemma decode_marshal:
  assumes "config_ok c"
  shows "decode_config (marshal_config ns c @ r) = Inr c"
proof -
  obtain ms where ms: "config_json ns c = JObj ms" by (simp add: config_json_def)
  then have "printable maxNestingDepth (JObj ms)"
    using printable_config [OF assms, of maxNestingDepth ns] by (simp add: maxNestingDepth_def)
  then have "parse_json (marshal_config ns c @ r) = Some (config_json ns c, r)"
    unfolding marshal_config_def ms by (rule parse_print_object)
  with decode_config_json [OF assms, of ns] show ?thesis by (auto simp: decode_config_def)
qed

section \<open>What decodes is representable\<close>

text \<open>A decoder that writes valid text and 64-bit numbers keeps an invariant of its state.\<close>

definition keeps :: "('s \<Rightarrow> bool) \<Rightarrow> (json \<Rightarrow> 's \<Rightarrow> json_error + 's) \<Rightarrow> bool" where
  "keeps I f \<longleftrightarrow> (\<forall>j s s'. json_ok j \<longrightarrow> I s \<longrightarrow> f j s = Inr s' \<longrightarrow> I s')"

lemma keepsD: "keeps I f \<Longrightarrow> f j s = Inr s' \<Longrightarrow> json_ok j \<Longrightarrow> I s \<Longrightarrow> I s'"
  by (auto simp: keeps_def)

lemma keeps_string [inv_intros]: "(\<And>t s. utf8_valid t \<Longrightarrow> I s \<Longrightarrow> I (put t s)) \<Longrightarrow> keeps I (decode_string put)"
  by (auto simp: keeps_def decode_string_def split: json.splits)

lemma keeps_int [inv_intros]: "(\<And>i s. is_int64 i \<Longrightarrow> I s \<Longrightarrow> I (put i s)) \<Longrightarrow> keeps I (decode_int put)"
  by (auto simp: keeps_def decode_int_def parse_int_is_int64 split: json.splits sum.splits)

lemma find_field_set:
  assumes "find_field fs k = Some f"
  shows "f \<in> snd ` set fs"
proof (cases "map_of fs k")
  case None
  with assms obtain nf where nf: "find (\<lambda>nf. fold_name (fst nf) = fold_name k) fs = Some nf" "f = snd nf"
    by (auto simp: find_field_def)
  from nf(1) have "nf \<in> set fs" by (auto simp: find_Some_iff)
  with nf(2) show ?thesis by simp
next
  case (Some g)
  with assms have "(k, f) \<in> set fs" by (auto simp: find_field_def dest: map_of_SomeD)
  then show ?thesis by force
qed

lemma keeps_members:
  "decode_members fs ms s = Inr s' \<Longrightarrow> (\<And>f. f \<in> snd ` set fs \<Longrightarrow> keeps I f) \<Longrightarrow>
     list_all (\<lambda>m. json_ok (snd m)) ms \<Longrightarrow> I s \<Longrightarrow> I s'"
proof (induction fs ms s rule: decode_members.induct)
  case (2 fs k j ms s)
  from 2(2) obtain f s1 where f: "find_field fs k = Some f" "f j s = Inr s1" "decode_members fs ms s1 = Inr s'"
    by (auto simp: ok_iff split: option.splits)
  have "keeps I f" using find_field_set [OF f(1)] by (rule 2(3))
  then have "I s1" using f(2) 2(4,5) by (auto simp: keeps_def)
  with 2(1) [OF f(1) f(3) 2(3)] 2(4) show ?case by simp
qed simp

lemma keeps_struct [inv_intros]:
  assumes "\<And>f. f \<in> snd ` set fs \<Longrightarrow> keeps I f"
  shows "keeps I (decode_struct fs)"
  unfolding keeps_def
proof (intro allI impI)
  fix j s s'
  assume "json_ok j" "I s" "decode_struct fs j s = Inr s'"
  then show "I s'"
    using keeps_members [where fs = fs and I = I, OF _ assms] by (cases j) (auto simp: decode_struct_def list_all_iff)
qed

definition slice_ok :: "('a \<Rightarrow> bool) \<Rightarrow> 'a slice \<Rightarrow> bool" where
  "slice_ok P sl \<longleftrightarrow> list_all P (visible sl) \<and> list_all P (hidden sl)"

lemma keeps_elems:
  assumes "keeps P f" "P z"
  shows "decode_elems z f js mem = Inr ys \<Longrightarrow> list_all json_ok js \<Longrightarrow> list_all P mem \<Longrightarrow> list_all P ys"
proof (induction js arbitrary: mem ys)
  case (Cons j js)
  then obtain y zs where y: "f j (case mem of [] \<Rightarrow> z | x # _ \<Rightarrow> x) = Inr y" "decode_elems z f js (tl mem) = Inr zs" "ys = y # zs"
    by (auto simp: ok_iff)
  have "P (case mem of [] \<Rightarrow> z | x # _ \<Rightarrow> x)" "list_all P (tl mem)"
    using Cons.prems(3) assms(2) by (cases mem; simp)+
  with y Cons keepsD [OF assms(1)] show ?case by auto
qed simp

lemma keeps_slice:
  assumes "keeps P f" "P z"
  shows "keeps (slice_ok P) (decode_slice z f)"
proof -
  have "list_all P (drop n xs)" if "list_all P xs" for n xs
    using that by (auto simp: list_all_iff dest: in_set_dropD)
  then show ?thesis
    using keeps_elems [OF assms]
    by (fastforce simp: keeps_def decode_slice_def slice_ok_def empty_slice_def ok_iff split: json.splits if_splits)
qed

lemma keeps_lift:
  assumes "keeps J g" "\<And>s. I s \<Longrightarrow> J (get s)" "\<And>a s. J a \<Longrightarrow> I s \<Longrightarrow> I (put a s)"
  shows "keeps I (\<lambda>j s. and_then (g j (get s)) (\<lambda>a. Inr (put a s)))"
  using assms unfolding keeps_def by (fastforce simp: ok_iff)

definition peer_mem_ok :: "peer_mem \<Rightarrow> bool" where
  "peer_mem_ok m \<longleftrightarrow> peer_ok ((pm_peer m)\<lparr>Checks := []\<rparr>) \<and> slice_ok utf8_valid (pm_checks m)"

definition config_mem_ok :: "config_mem \<Rightarrow> bool" where
  "config_mem_ok m \<longleftrightarrow>
     config_ok ((cm_cfg m)\<lparr>C_Peers := [], C_UI := (C_UI (cm_cfg m))\<lparr>Users := []\<rparr>\<rparr>) \<and>
     slice_ok peer_mem_ok (cm_peers m) \<and> slice_ok user_ok (cm_users m)"

lemma keeps_peer: "keeps peer_mem_ok (decode_struct peer_fields)"
proof (rule keeps_struct)
  have "keeps utf8_valid (decode_string (\<lambda>t _. t))" by (rule keeps_string)
  from keeps_slice [OF this utf8_valid_Nil]
  have checks: "keeps peer_mem_ok (\<lambda>j m. and_then (decode_slice [] (decode_string (\<lambda>t _. t)) j (pm_checks m)) (\<lambda>sl.
      Inr (m\<lparr>pm_checks := sl\<rparr>)))"
    by (rule keeps_lift) (simp_all add: peer_mem_ok_def)
  show "keeps peer_mem_ok f" if "f \<in> snd ` set peer_fields" for f
    using that checks
    by (auto simp: peer_fields_def intro!: keeps_string keeps_int) (simp_all add: peer_mem_ok_def peer_ok_def)
qed

lemma keeps_user: "keeps user_ok (decode_struct user_fields)"
  by (rule keeps_struct) (auto simp: user_fields_def user_ok_def intro!: keeps_string)

lemma keeps_host: "keeps host_ok (decode_struct host_fields)"
  by (rule keeps_struct) (auto simp: host_fields_def host_ok_def intro!: keeps_string)

lemma keeps_pki: "keeps pki_ok (decode_struct pki_fields)"
  by (rule keeps_struct) (auto simp: pki_fields_def pki_ok_def intro!: keeps_string)

lemma keeps_probe: "keeps probe_ok (decode_struct probe_fields)"
  by (rule keeps_struct) (auto simp: probe_fields_def probe_ok_def intro!: keeps_string keeps_int)

lemma keeps_nested:
  assumes "keeps J (decode_struct fs)" "\<And>s. I s \<Longrightarrow> J (get s)" "\<And>a s. J a \<Longrightarrow> I s \<Longrightarrow> I (put a s)"
  shows "keeps I (nested fs get put)"
  unfolding nested_def by (rule keeps_lift [where J = J and g = "decode_struct fs", OF assms(1)]) (fact assms)+

lemma keeps_addr: "keeps (\<lambda>a. utf8_valid (LA_Addr a)) (decode_struct addr_fields)"
  by (rule keeps_struct) (auto simp: addr_fields_def intro!: keeps_string)

lemma keeps_probe_listener:
  "keeps (\<lambda>p. utf8_valid (HTTPAddr p) \<and> utf8_valid (UDPAddr p)) (decode_struct probe_listener_fields)"
  by (rule keeps_struct) (auto simp: probe_listener_fields_def intro!: keeps_string)

lemma keeps_listeners: "keeps listeners_ok (decode_struct listeners_fields)"
proof (rule keeps_struct)
  note nest = keeps_nested [OF keeps_addr, where I = listeners_ok] keeps_nested [OF keeps_probe_listener, where I = listeners_ok]
  show "keeps listeners_ok f" if "f \<in> snd ` set listeners_fields" for f
    using that by (auto simp: listeners_fields_def listeners_ok_def intro!: nest)
qed

definition ui_mem_ok :: "ui_config \<times> user slice \<Rightarrow> bool" where
  "ui_mem_ok u \<longleftrightarrow> utf8_valid (SessionSecret (fst u)) \<and> is_int64 (SessionTTLSeconds (fst u)) \<and> slice_ok user_ok (snd u)"

lemma zero_user_ok: "user_ok zero_user" by (simp add: zero_user_def user_ok_def)

lemma zero_peer_mem_ok: "peer_mem_ok zero_peer_mem"
  by (simp add: zero_peer_mem_def zero_peer_def peer_mem_ok_def peer_ok_def slice_ok_def empty_slice_def is_int64_def
      min_int64_def max_int64_def)

lemma keeps_ui: "keeps ui_mem_ok (decode_struct ui_fields)"
proof (rule keeps_struct)
  have users: "keeps ui_mem_ok (\<lambda>j u. and_then (decode_slice zero_user (decode_struct user_fields) j (snd u)) (\<lambda>sl.
      Inr (fst u, sl)))"
    by (rule keeps_lift [OF keeps_slice [OF keeps_user zero_user_ok]]) (simp_all add: ui_mem_ok_def)
  show "keeps ui_mem_ok f" if "f \<in> snd ` set ui_fields" for f
    using that users by (auto simp: ui_fields_def intro!: keeps_string keeps_int) (simp_all add: ui_mem_ok_def)
qed

lemma keeps_log: "keeps (\<lambda>l. utf8_valid (Level l)) (decode_struct log_fields)"
  by (rule keeps_struct) (auto simp: log_fields_def intro!: keeps_string)

lemma keeps_config: "keeps config_mem_ok (decode_struct config_fields)"
proof (rule keeps_struct)
  have peers: "keeps config_mem_ok (\<lambda>j m. and_then (decode_slice zero_peer_mem (decode_struct peer_fields) j (cm_peers m)) (\<lambda>sl.
      Inr (m\<lparr>cm_peers := sl\<rparr>)))"
    by (rule keeps_lift [OF keeps_slice [OF keeps_peer zero_peer_mem_ok]]) (simp_all add: config_mem_ok_def)
  have nest: "keeps config_mem_ok (nested host_fields (\<lambda>m. C_Host (cm_cfg m)) (\<lambda>h m. m\<lparr>cm_cfg := (cm_cfg m)\<lparr>C_Host := h\<rparr>\<rparr>))"
    "keeps config_mem_ok (nested pki_fields (\<lambda>m. C_PKI (cm_cfg m)) (\<lambda>k m. m\<lparr>cm_cfg := (cm_cfg m)\<lparr>C_PKI := k\<rparr>\<rparr>))"
    "keeps config_mem_ok (nested listeners_fields (\<lambda>m. C_Listeners (cm_cfg m)) (\<lambda>l m. m\<lparr>cm_cfg := (cm_cfg m)\<lparr>C_Listeners := l\<rparr>\<rparr>))"
    "keeps config_mem_ok (nested probe_fields (\<lambda>m. C_Probe (cm_cfg m)) (\<lambda>p m. m\<lparr>cm_cfg := (cm_cfg m)\<lparr>C_Probe := p\<rparr>\<rparr>))"
    "keeps config_mem_ok (nested ui_fields (\<lambda>m. (C_UI (cm_cfg m), cm_users m))
       (\<lambda>u m. m\<lparr>cm_cfg := (cm_cfg m)\<lparr>C_UI := fst u\<rparr>, cm_users := snd u\<rparr>))"
    "keeps config_mem_ok (nested log_fields (\<lambda>m. C_Log (cm_cfg m)) (\<lambda>l m. m\<lparr>cm_cfg := (cm_cfg m)\<lparr>C_Log := l\<rparr>\<rparr>))"
    by (rule keeps_nested [OF keeps_host] keeps_nested [OF keeps_pki] keeps_nested [OF keeps_listeners]
        keeps_nested [OF keeps_probe] keeps_nested [OF keeps_ui] keeps_nested [OF keeps_log];
        simp add: config_mem_ok_def config_ok_def ui_mem_ok_def)+
  have schema: "keeps config_mem_ok (decode_int (\<lambda>i m. m\<lparr>cm_cfg := (cm_cfg m)\<lparr>C_SchemaVersion := i\<rparr>\<rparr>))"
    by (rule keeps_int) (simp add: config_mem_ok_def config_ok_def)
  show "keeps config_mem_ok f" if "f \<in> snd ` set config_fields" for f
    using that peers nest schema by (auto simp: config_fields_def)
qed

lemma config_of_mem_ok: "config_mem_ok m \<Longrightarrow> config_ok (config_of_mem m)"
  by (auto simp: config_mem_ok_def config_ok_def config_of_mem_def slice_ok_def peer_mem_ok_def peer_ok_def
      peer_of_mem_def list_all_iff)

lemma zero_config_mem_ok: "config_mem_ok zero_config_mem"
  by (simp add: config_mem_ok_def zero_config_mem_def zero_config_def ok_defs slice_ok_def empty_slice_def is_int64_def
      min_int64_def max_int64_def)

lemma decode_config_ok:
  assumes "decode_config s = Inr c"
  shows "config_ok c"
proof -
  from assms obtain j r m where "parse_json s = Some (j, r)" "decode_struct config_fields j zero_config_mem = Inr m"
    "c = config_of_mem m" by (auto simp: decode_config_def split: option.splits sum.splits)
  then show ?thesis
    using keepsD [OF keeps_config _ parse_json_ok zero_config_mem_ok] config_of_mem_ok by blast
qed

section \<open>Files\<close>

text \<open>\<open>Load\<close> and \<open>Save\<close> with this codec; marshalling strings and integers cannot fail.\<close>

definition json_sys :: "nil_slices \<Rightarrow> sys \<Rightarrow> sys" where
  "json_sys ns sy =
     sy\<lparr>marshal := (\<lambda>c. Inr (marshal_config ns c)),
        decode := (\<lambda>s. case decode_config s of Inl e \<Rightarrow> Inl ''json'' | Inr c \<Rightarrow> Inr c)\<rparr>"

lemma json_sys_marshal [simp]: "marshal (json_sys ns sy) c = Inr (marshal_config ns c)"
  by (simp add: json_sys_def)

lemma json_sys_decode [simp]: "decode (json_sys ns sy) s = Inr c \<longleftrightarrow> decode_config s = Inr c"
  by (simp add: json_sys_def split: sum.splits)

lemma json_load_ok: "Load (json_sys ns sy) path fl = Inr c \<Longrightarrow> config_ok c"
  by (auto simp: Load_ok_iff dest: decode_config_ok)

lemma json_load_after_save:
  assumes "fst (Save (json_sys ns sy) path c fl) = None" "config_ok c" "sys_read sy' = CallOk"
  shows "Load (json_sys ns' sy') path (snd (Save (json_sys ns sy) path c fl)) = Inr c"
proof (rule Load_after_Save [OF assms(1)])
  show "sys_read (json_sys ns' sy') = CallOk" using assms(3) by (simp add: json_sys_def)
  show "decode (json_sys ns' sy') b = Inr c" if "marshal (json_sys ns sy) c = Inr b" for b
    using that decode_marshal [OF assms(2), of ns "[]"] by auto
qed

section \<open>Properties\<close>

text \<open>
  C40. The configuration's text form is lossless: the text that \<open>Save\<close> writes of a
  configuration whose strings are valid UTF-8 and whose numbers are 64-bit decodes to that
  configuration, and still does with any bytes whatsoever appended to it (the decoder stops at the
  closing brace); and the configurations that some text decodes to are exactly these.
\<close>

theorem config_text_roundtrip:
  assumes "config_ok c"
  shows "decode_config (marshal_config ns c @ junk) = Inr c \<and>
    {c'. \<exists>s. decode_config s = Inr c'} = {c'. config_ok c'}"
proof -
  have "{c'. \<exists>s. decode_config s = Inr c'} = {c'. config_ok c'}"
    using decode_config_ok decode_marshal [where r = "[]" and ns = ns] by auto
  then show ?thesis using decode_marshal [OF assms, of ns junk] by simp
qed

theorem config_text_roundtrip_witness:
  "decode_config (marshal_config \<lparr>nil_peers = True, nil_users = True, nil_checks = (\<lambda>_. False)\<rparr> zero_config @ ''}{'') =
     Inr zero_config"
proof -
  have "config_ok zero_config"
    by (simp add: zero_config_def ok_defs is_int64_def min_int64_def max_int64_def)
  from config_text_roundtrip [OF this] show ?thesis by blast
qed

end
