(* ===== verification/Session.thy ===== *)
theory Session
  imports Go_Base64 Go_Hmac Go_Text Go_Time
begin

text \<open>
  \<open>internal/pkg/server/ui/session.go\<close>: the signed session tokens of the browser UI. A token
  is the unpadded URL-safe base64 text of \<open>user:expiry:tag\<close>, the expiry in decimal Unix
  seconds and the tag the HMAC of \<open>user:expiry\<close>.
\<close>

section \<open>Data\<close>

record session =
  sess_secret :: "byte list"
  sess_ttl :: duration

datatype session_error =
    ForbiddenChar
  | IllegalBase64
  | TokenTooShort
  | TokenMalformed
  | TokenHmacMismatch
  | PayloadMalformed
  | BadExpiry parse_error
  | SessionExpired

definition NewSession :: "byte list \<Rightarrow> duration \<Rightarrow> session" where
  "NewSession secret d = \<lparr>sess_secret = secret, sess_ttl = d\<rparr>"

section \<open>Issue and Verify\<close>

text \<open>\<open>fmt.Sprintf("%s:%d", user, exp)\<close>.\<close>

definition session_payload :: "string \<Rightarrow> int \<Rightarrow> string" where
  "session_payload user exp = user @ '':'' @ itoa exp"

definition Issue :: "session \<Rightarrow> string \<Rightarrow> time \<Rightarrow> session_error + string" where
  "Issue s user now =
     (if contains_any user '':|'' then Inl ForbiddenChar
      else
        let exp = unix (time_add now (sess_ttl s));
            payload = session_payload user exp;
            sig = hmac_sha256 (sess_secret s) (bytes_of payload)
        in Inr (raw_url_encode (bytes_of (payload @ '':'') @ sig)))"

definition Verify :: "session \<Rightarrow> string \<Rightarrow> time \<Rightarrow> session_error + string" where
  "Verify s token now =
     (case raw_url_decode token of
        None \<Rightarrow> Inl IllegalBase64
      | Some raw \<Rightarrow>
        if length raw \<le> 33 then Inl TokenTooShort
        else
          let macStart = length raw - 32 in
          if raw ! (macStart - 1) \<noteq> byte_of_char CHR '':'' then Inl TokenMalformed
          else
            let payload = take (macStart - 1) raw in
            if hmac_sha256 (sess_secret s) payload \<noteq> drop macStart raw then Inl TokenHmacMismatch
            else
              let parts = split2 CHR '':'' (string_of payload) in
              if length parts \<noteq> 2 then Inl PayloadMalformed
              else
                (case parse_int (parts ! 1) of
                   Inl e \<Rightarrow> Inl (BadExpiry e)
                 | Inr exp \<Rightarrow>
                   if unix now \<ge> exp then Inl SessionExpired
                   else Inr (parts ! 0)))"

section \<open>Lemmas\<close>

lemma length_two_iff: "length xs = 2 \<longleftrightarrow> (\<exists>a b. xs = [a, b])"
  by (auto simp: length_Suc_conv numeral_2_eq_2)

text \<open>The bytes of a token around the tag: the tag's separator, the payload before it.\<close>

lemma token_split:
  assumes "length sig = 32" and "raw = bytes_of payload @ byte_of_char CHR '':'' # sig"
  shows "raw ! (length raw - 32 - 1) = byte_of_char CHR '':''"
    and "take (length raw - 32 - 1) raw = bytes_of payload"
    and "drop (length raw - 32) raw = sig"
  using assms by (simp_all add: nth_append)

lemma raw_of_parts:
  assumes "33 < length raw" "raw ! (length raw - 32 - 1) = c"
  shows "raw = take (length raw - 32 - 1) raw @ c # drop (length raw - 32) raw"
proof -
  let ?k = "length raw - 32 - 1"
  have "?k < length raw" and k: "Suc ?k = length raw - 32" using assms(1) by auto
  then have "raw = take ?k raw @ raw ! ?k # drop (Suc ?k) raw"
    by (rule_tac id_take_nth_drop)
  with assms(2) k show ?thesis by simp
qed

text \<open>What is accepted, and with what result.\<close>

lemma Verify_ok_iff:
  "Verify s token now = Inr user \<longleftrightarrow>
    (\<exists>exps exp. raw_url_decode token =
         Some (bytes_of (user @ '':'' @ exps @ '':'') @
               hmac_sha256 (sess_secret s) (bytes_of (user @ '':'' @ exps))) \<and>
       CHR '':'' \<notin> set user \<and> parse_int exps = Inr exp \<and> unix now < exp)"
  (is "?L \<longleftrightarrow> ?R")
proof
  assume ?L
  then obtain raw where raw: "raw_url_decode token = Some raw" "33 < length raw"
    "raw ! (length raw - 32 - 1) = byte_of_char CHR '':''"
    "hmac_sha256 (sess_secret s) (take (length raw - 32 - 1) raw) = drop (length raw - 32) raw"
    by (auto simp: Verify_def Let_def split: option.splits if_splits)
  with \<open>?L\<close> obtain exps exp where parts:
    "split2 CHR '':'' (string_of (take (length raw - 32 - 1) raw)) = [user, exps]"
    "parse_int exps = Inr exp" "unix now < exp"
    by (auto simp: Verify_def Let_def length_two_iff split: if_splits sum.splits)
  define payload where "payload = take (length raw - 32 - 1) raw"
  from parts(1) have pay: "CHR '':'' \<notin> set user" "string_of payload = user @ '':'' @ exps"
    by (auto simp: split2_pair_iff payload_def)
  then have pb: "payload = bytes_of (user @ '':'' @ exps)"
    by (metis bytes_of_string_of)
  have "raw = payload @ byte_of_char CHR '':'' # hmac_sha256 (sess_secret s) payload"
    using raw_of_parts [OF raw(2,3)] raw(4) by (simp add: payload_def)
  then have "raw = bytes_of (user @ '':'' @ exps @ '':'') @
      hmac_sha256 (sess_secret s) (bytes_of (user @ '':'' @ exps))"
    by (simp add: pb bytes_of_def)
  with raw(1) pay parts show ?R by blast
next
  assume ?R
  then obtain exps exp where
    tok: "raw_url_decode token = Some (bytes_of (user @ '':'' @ exps @ '':'') @
               hmac_sha256 (sess_secret s) (bytes_of (user @ '':'' @ exps)))"
    and user: "CHR '':'' \<notin> set user" and exp: "parse_int exps = Inr exp" "unix now < exp"
    by blast
  define raw where "raw = bytes_of (user @ '':'' @ exps) @ byte_of_char CHR '':'' #
      hmac_sha256 (sess_secret s) (bytes_of (user @ '':'' @ exps))"
  note parts = token_split [OF length_hmac_sha256 raw_def]
  have "raw_url_decode token = Some raw"
    by (simp add: tok raw_def bytes_of_def)
  moreover have "33 < length raw" by (simp add: raw_def)
  moreover have "split2 CHR '':'' (user @ '':'' @ exps) = [user, exps]"
    using user by (simp add: split2_pair_iff)
  ultimately show ?L
    using exp parts by (simp add: Verify_def Let_def del: bytes_of_append)
qed

lemma Issue_ok_iff: "(\<exists>tok. Issue s user now = Inr tok) \<longleftrightarrow> set user \<inter> {CHR '':'', CHR ''|''} = {}"
  by (auto simp: Issue_def contains_any_iff Let_def)

text \<open>An issued token, at any later or earlier time.\<close>

lemma Verify_issued:
  assumes "Issue s user t = Inr tok" and "is_int64 (unix (time_add t (sess_ttl s)))"
  shows "Verify s tok now =
    (if unix now < unix (time_add t (sess_ttl s)) then Inr user else Inl SessionExpired)"
proof -
  let ?exp = "unix (time_add t (sess_ttl s))"
  define raw where "raw = bytes_of (user @ '':'' @ itoa ?exp) @ byte_of_char CHR '':'' #
      hmac_sha256 (sess_secret s) (bytes_of (user @ '':'' @ itoa ?exp))"
  note parts = token_split [OF length_hmac_sha256 raw_def]
  from assms(1) have user: "CHR '':'' \<notin> set user" and tok: "raw_url_decode tok = Some raw"
    by (auto simp: Issue_def Let_def contains_any_iff session_payload_def raw_def bytes_of_def
        split: if_splits)
  have "33 < length raw" by (simp add: raw_def)
  moreover have "split2 CHR '':'' (user @ '':'' @ itoa ?exp) = [user, itoa ?exp]"
    using user by (simp add: split2_pair_iff)
  ultimately show ?thesis
    using parts tok parse_int_itoa [OF assms(2)]
    by (simp add: Verify_def Let_def del: bytes_of_append)
qed

section \<open>The interface its clients rely on\<close>

text \<open>
  What the login handler and the session check of the UI rely on: an issued token names its user as
  long as it is live and nobody afterwards. \<open>representable\<close> is the range of issue times whose
  expiry is an \<open>int64\<close>.
\<close>

locale token_authority =
  fixes issue :: "string \<Rightarrow> time \<Rightarrow> 'e + string"
    and verify :: "string \<Rightarrow> time \<Rightarrow> 'e + string"
    and live :: "time \<Rightarrow> time \<Rightarrow> bool"
    and representable :: "time \<Rightarrow> bool"
  assumes verify_live: "issue u t = Inr tok \<Longrightarrow> representable t \<Longrightarrow> live t now \<Longrightarrow> verify tok now = Inr u"
    and verify_dead: "issue u t = Inr tok \<Longrightarrow> representable t \<Longrightarrow> \<not> live t now \<Longrightarrow> \<exists>e. verify tok now = Inl e"
    and live_mono: "live t now \<Longrightarrow> now' \<le> now \<Longrightarrow> live t now'"
begin

lemma owner:
  assumes "issue u t = Inr tok" "representable t" "verify tok now = Inr u'"
  shows "u' = u" and "live t now"
proof -
  show l: "live t now" using assms(3) verify_dead [OF assms(1,2), of now] by force
  show "u' = u" using assms(3) verify_live [OF assms(1,2) l] by simp
qed

lemma rejected_forever:
  assumes "issue u t = Inr tok" "representable t" "verify tok now = Inl e" "now \<le> now'"
  shows "\<exists>e'. verify tok now' = Inl e'"
  using assms verify_live [OF assms(1,2)] verify_dead [OF assms(1,2)] live_mono [of t now' now]
  by force

lemma same_token_same_user:
  assumes "issue u t = Inr tok" "representable t" "issue u' t' = Inr tok" "representable t'"
    and "live t now"
  shows "u' = u"
proof -
  have "verify tok now = Inr u" by (rule verify_live [OF assms(1,2,5)])
  from owner(1) [OF assms(3,4) this] show ?thesis by simp
qed

end

definition token_live :: "session \<Rightarrow> time \<Rightarrow> time \<Rightarrow> bool" where
  "token_live s t now \<longleftrightarrow> unix now < unix (time_add t (sess_ttl s))"

definition expiry_fits :: "session \<Rightarrow> time \<Rightarrow> bool" where
  "expiry_fits s t \<longleftrightarrow> is_int64 (unix (time_add t (sess_ttl s)))"

lemma unix_mono: "t \<le> u \<Longrightarrow> unix t \<le> unix u"
  by (simp add: unix_def second_def zdiv_mono1)

interpretation auth: token_authority "Issue s" "Verify s" "token_live s" "expiry_fits s" for s
proof unfold_locales
  fix u t tok now assume "Issue s u t = Inr tok" "expiry_fits s t"
  note v = Verify_issued [OF this [unfolded expiry_fits_def], of now]
  show "token_live s t now \<Longrightarrow> Verify s tok now = Inr u"
    and "\<not> token_live s t now \<Longrightarrow> \<exists>e. Verify s tok now = Inl e"
    using v by (simp_all add: token_live_def)
next
  fix t now now' assume "token_live s t now" "now' \<le> now"
  then show "token_live s t now'"
    using unix_mono [of now' now] by (simp add: token_live_def)
qed

section \<open>Properties\<close>

text \<open>
  C18. Round trip: a token issued at time \<open>t\<close> verifies to the user it was issued for at every
  time whose Unix second is before the expiry \<open>t + ttl\<close>, and is rejected as expired from that
  second on; it never verifies as anybody else.
\<close>

theorem session_roundtrip:
  assumes "Issue s user t = Inr tok" and "is_int64 (unix (time_add t (sess_ttl s)))"
  shows "Verify s tok now =
    (if unix now < unix (t + sess_ttl s) then Inr user else Inl SessionExpired)"
  using Verify_issued [OF assms] by (simp add: time_add_def)

theorem session_roundtrip_witness:
  "\<exists>tok. Issue (NewSession [1] (60 * second)) ''admin'' 0 = Inr tok \<and>
     Verify (NewSession [1] (60 * second)) tok (59 * second) = Inr ''admin'' \<and>
     Verify (NewSession [1] (60 * second)) tok (60 * second) = Inl SessionExpired"
proof -
  obtain tok where tok: "Issue (NewSession [1] (60 * second)) ''admin'' 0 = Inr tok"
    using Issue_ok_iff [of "NewSession [1] (60 * second)" "''admin''" 0] by auto
  have "is_int64 (unix (time_add 0 (sess_ttl (NewSession [1] (60 * second)))))"
    by (simp add: is_int64_def min_int64_def max_int64_def unix_def time_add_def NewSession_def second_def)
  from session_roundtrip [OF tok this] tok show ?thesis
    by (auto simp: unix_def NewSession_def second_def)
qed

text \<open>
  C19. Soundness: \<open>Verify\<close> accepts a token as a user's exactly when the token decodes to that
  user name, a decimal expiry after the current second and the HMAC of the two under the session
  secret; the user name contains no colon.
\<close>

theorem session_verify_iff:
  "Verify s token now = Inr user \<longleftrightarrow>
    (\<exists>exps exp. raw_url_decode token =
         Some (bytes_of (user @ '':'' @ exps @ '':'') @
               hmac_sha256 (sess_secret s) (bytes_of (user @ '':'' @ exps))) \<and>
       CHR '':'' \<notin> set user \<and> parse_int exps = Inr exp \<and> unix now < exp)"
  by (rule Verify_ok_iff)

text \<open>
  A session whose lifetime is zero or negative, which the configuration check accepts, issues
  tokens that no later verification accepts.
\<close>

theorem session_nonpositive_ttl:
  assumes "Issue s user t = Inr tok" and "is_int64 (unix (time_add t (sess_ttl s)))"
    and "sess_ttl s \<le> 0" and "t \<le> now"
  shows "Verify s tok now = Inl SessionExpired"
proof -
  have "unix (t + sess_ttl s) \<le> unix now" by (rule unix_mono) (use assms(3,4) in linarith)
  then show ?thesis
    using Verify_issued [OF assms(1,2), of now] by (simp add: time_add_def)
qed

theorem session_nonpositive_ttl_witness:
  "\<exists>tok. Issue (NewSession [1] 0) ''admin'' 0 = Inr tok \<and>
     Verify (NewSession [1] 0) tok 0 = Inl SessionExpired"
proof -
  obtain tok where tok: "Issue (NewSession [1] 0) ''admin'' 0 = Inr tok"
    using Issue_ok_iff [of "NewSession [1] 0" "''admin''" 0] by auto
  have "is_int64 (unix (time_add 0 (sess_ttl (NewSession [1] 0))))"
    by (simp add: is_int64_def min_int64_def max_int64_def unix_def time_add_def NewSession_def)
  from session_nonpositive_ttl [OF tok this] tok show ?thesis
    by (auto simp: NewSession_def)
qed

end
