(* ===== verification/Login.thy ===== *)
theory Login
  imports Session Go_Http Config
begin

text \<open>
  \<open>internal/pkg/server/ui/login.go\<close>: the login handler. The password check is bcrypt of
  \<open>golang.org/x/crypto\<close>, a parameter \<open>bcrypt\<close>: whether
  \<open>CompareHashAndPassword(hash, password)\<close> returns nil.
\<close>

definition cookieName :: string where "cookieName = ''mesh-session''"

record login_handler =
  lh_users :: "user list"
  lh_session :: session
  failDelay :: duration

definition NewLoginHandler :: "user list \<Rightarrow> session \<Rightarrow> duration \<Rightarrow> login_handler" where
  "NewLoginHandler us sess d = \<lparr>lh_users = us, lh_session = sess, failDelay = d\<rparr>"

text \<open>The loop over the users, with its early return.\<close>

fun authenticate :: "(string \<Rightarrow> string \<Rightarrow> bool) \<Rightarrow> user list \<Rightarrow> string \<Rightarrow> string \<Rightarrow> bool" where
  "authenticate bcrypt [] name password = False"
| "authenticate bcrypt (u # us) name password =
     (if bytes_of (U_Name u) = bytes_of name then
        (if bcrypt (PasswordHash u) password then True
         else authenticate bcrypt us name password)
      else authenticate bcrypt us name password)"

definition session_cookie :: "string \<Rightarrow> cookie" where
  "session_cookie tok =
     \<lparr>CookieName = cookieName, CookieValue = tok, CookiePath = ''/ui/'', MaxAge = 0,
      HttpOnly = True, Secure = True, SameSite = SameSiteStrict\<rparr>"

definition login_ServeHTTP :: "(string \<Rightarrow> string \<Rightarrow> bool) \<Rightarrow> login_handler \<Rightarrow> handler" where
  "login_ServeHTTP bcrypt h now r w =
     (if Method r \<noteq> ''POST'' then http_error ''method not allowed'' 405 w
      else if Form r = None then http_error ''bad request'' 400 w
      else
        let name = form_value r ''name'';
            password = form_value r ''password''
        in if authenticate bcrypt (lh_users h) name password then
             (case Issue (lh_session h) name now of
                Inl _ \<Rightarrow> http_error ''internal error'' 500 w
              | Inr tok \<Rightarrow> redirect_see_other r ''/ui/'' (set_cookie (session_cookie tok) w))
           else http_error ''unauthorised'' 401 (w\<lparr>Slept := Slept w + failDelay h\<rparr>))"

lemma authenticate_iff:
  "authenticate bcrypt us name password \<longleftrightarrow>
     (\<exists>u \<in> set us. U_Name u = name \<and> bcrypt (PasswordHash u) password)"
  by (induction us) auto

lemma SetCookies_set_cookie [simp]:
  "Status w = None \<Longrightarrow> SetCookies (set_cookie c w) = SetCookies w @ [c]"
  by (simp add: set_cookie_def)

section \<open>Properties\<close>

text \<open>
  C20. The login handler on every branch, for a request answered from scratch. Status: 405 if the method
  is not POST, 400 if the form does not parse, 401 if no configured user has the submitted name and a
  hash that accepts the submitted password, 500 if that user's name cannot be put into a token, 303 to
  \<open>/ui/\<close> otherwise. The fail delay is slept on the 401 branch and on no other. A cookie is
  set on the 303 branch and on no other: exactly one, with a token issued now for the submitted name,
  HttpOnly, Secure, SameSite=Strict and scoped to \<open>/ui/\<close>.
\<close>

theorem login_outcome:
  "let w = login_ServeHTTP bcrypt h now r new_response;
       name = form_value r ''name'';
       posted = (Method r = ''POST'' \<and> Form r \<noteq> None);
       known = (\<exists>u \<in> set (lh_users h). U_Name u = name \<and>
                  bcrypt (PasswordHash u) (form_value r ''password''));
       issuable = (set name \<inter> {CHR '':'', CHR ''|''} = {})
   in Status w = Some (if Method r \<noteq> ''POST'' then 405 else if Form r = None then 400
                       else if \<not> known then 401 else if \<not> issuable then 500 else 303) \<and>
      Slept w = (if posted \<and> \<not> known then failDelay h else 0) \<and>
      (if posted \<and> known \<and> issuable
       then Header w ''Location'' = Some ''/ui/'' \<and>
            (\<exists>tok. Issue (lh_session h) name now = Inr tok \<and>
               SetCookies w = [\<lparr>CookieName = ''mesh-session'', CookieValue = tok, CookiePath = ''/ui/'',
                  MaxAge = 0, HttpOnly = True, Secure = True, SameSite = SameSiteStrict\<rparr>])
       else SetCookies w = [])"
  unfolding Issue_ok_iff [of "lh_session h" _ now, symmetric] authenticate_iff [symmetric] Let_def
  by (auto simp: login_ServeHTTP_def Let_def new_response_def session_cookie_def set_cookie_def
      cookieName_def redirect_see_other_def set_header_def write_header_def write_body_def
      http_error_def split: sum.splits)

end
