(* ===== verification/Ui_Server.thy ===== *)
theory Ui_Server
  imports Login Probe_Server Aggregator
begin

text \<open>
  \<open>internal/pkg/server/ui/handlers.go\<close>, \<open>assets.go\<close> and \<open>sse.go\<close>: the mux of the
  UI listener, its session check, the embedded static files and the stream of mesh views.
  \<open>static\<close> is the embedded file system: the content of each embedded file by its name.
\<close>

section \<open>Static files\<close>

type_synonym static_fs = "string \<rightharpoonup> string"

definition contentTypeFor :: "string \<Rightarrow> string" where
  "contentTypeFor name =
     (if has_suffix name ''.js'' then ''application/javascript''
      else if has_suffix name ''.css'' then ''text/css''
      else if has_suffix name ''.html'' then ''text/html; charset=utf-8''
      else ''application/octet-stream'')"

definition serveStatic :: "static_fs \<Rightarrow> string \<Rightarrow> string \<Rightarrow> string \<Rightarrow> response \<Rightarrow> response" where
  "serveStatic static ver name contentType w =
     (case static name of
        None \<Rightarrow> http_not_found w
      | Some b \<Rightarrow> write_body b (set_header ''X-Mesh-Checker-Version'' ver
                    (set_header ''Content-Type'' contentType w)))"

section \<open>Middleware\<close>

definition withCommonHeaders :: "handler \<Rightarrow> handler" where
  "withCommonHeaders h now r w =
     h now r (set_header ''Referrer-Policy'' ''same-origin''
       (set_header ''X-Content-Type-Options'' ''nosniff'' w))"

definition redirectOrUnauth :: "http_request \<Rightarrow> response \<Rightarrow> response" where
  "redirectOrUnauth r w =
     (if Method r = ''GET'' \<and> contains (header_get r ''Accept'') ''text/html''
      then redirect_see_other r ''/ui/login'' w
      else http_error ''unauthorised'' 401 (set_header ''WWW-Authenticate'' ''Cookie'' w))"

definition authMiddleware :: "session option \<Rightarrow> handler \<Rightarrow> handler" where
  "authMiddleware sess next now r w =
     (case sess of
        None \<Rightarrow> http_error ''auth not configured'' 401 w
      | Some s \<Rightarrow>
        (case cookie_value r cookieName of
           None \<Rightarrow> redirectOrUnauth r w
         | Some c \<Rightarrow>
           (case Verify s c now of
              Inl _ \<Rightarrow> redirectOrUnauth r w
            | Inr user \<Rightarrow> next now (r\<lparr>ReqHeader := (ReqHeader r)(''X-Mesh-User'' \<mapsto> user)\<rparr>) w)))"

section \<open>Server-sent events\<close>

text \<open>
  \<open>marshal\<close> is \<open>json.Marshal\<close> on a mesh view (\<open>encode_mesh\<close> in \<open>View_Json\<close>). \<open>views\<close> lists what \<open>Aggregate\<close> ends
  with at once and at each tick until the request's context is done (a panic ends the handler);
  \<open>flushable\<close> says whether the response writer can stream.
\<close>

definition sse_event :: "string \<Rightarrow> string" where
  "sse_event b = ''event: status'' @ newline @ ''data: '' @ b @ newline @ newline"

definition emit :: "(mesh_view \<Rightarrow> string option) \<Rightarrow> mesh_view \<Rightarrow> response \<Rightarrow> response" where
  "emit marshal view w =
     (case marshal view of None \<Rightarrow> w | Some b \<Rightarrow> write_body (sse_event b) w)"

fun sse_loop :: "(mesh_view \<Rightarrow> string option) \<Rightarrow> (panic + mesh_view) list \<Rightarrow> response \<Rightarrow> response" where
  "sse_loop marshal [] w = w"
| "sse_loop marshal (Inl p # vs) w = w\<lparr>Aborted := Some p\<rparr>"
| "sse_loop marshal (Inr v # vs) w = sse_loop marshal vs (emit marshal v w)"

definition NewSSEHandler ::
    "(mesh_view \<Rightarrow> string option) \<Rightarrow> bool \<Rightarrow> duration \<Rightarrow> (panic + mesh_view) list \<Rightarrow> handler" where
  "NewSSEHandler marshal flushable interval views now r w =
     (if \<not> flushable then http_error ''streaming unsupported'' 500 w
      else
        let w1 = set_header ''Connection'' ''keep-alive''
                   (set_header ''Cache-Control'' ''no-store''
                     (set_header ''Content-Type'' ''text/event-stream'' w))
        in if interval \<le> 0
           then w1\<lparr>Aborted := Some (InvalidArgument ''non-positive interval for NewTicker'')\<rparr>
           else sse_loop marshal views w1)"

section \<open>The mux\<close>

record ui_deps =
  D_Login :: "handler option"
  D_SSE :: "handler option"
  D_Session :: "session option"

definition ui_login :: "static_fs \<Rightarrow> string \<Rightarrow> ui_deps \<Rightarrow> handler" where
  "ui_login static ver d now r w =
     (case D_Login d of
        Some h \<Rightarrow> if Method r = ''POST'' then h now r w
                  else serveStatic static ver ''static/login.html'' ''text/html; charset=utf-8'' w
      | None \<Rightarrow> serveStatic static ver ''static/login.html'' ''text/html; charset=utf-8'' w)"

definition ui_logout :: handler where
  "ui_logout now r w =
     redirect_see_other r ''/ui/login''
       (set_cookie \<lparr>CookieName = cookieName, CookieValue = [], CookiePath = ''/ui/'', MaxAge = - 1,
                    HttpOnly = False, Secure = False, SameSite = SameSiteUnset\<rparr> w)"

definition ui_assets :: "static_fs \<Rightarrow> string \<Rightarrow> handler" where
  "ui_assets static ver now r w =
     (let name = ''static/'' @ drop (length ''/ui/assets/'') (URLPath r)
      in serveStatic static ver name (contentTypeFor name) w)"

definition ui_index :: "static_fs \<Rightarrow> string \<Rightarrow> handler" where
  "ui_index static ver now r w =
     (if URLPath r \<noteq> ''/ui/'' then http_not_found w
      else serveStatic static ver ''static/index.html'' ''text/html; charset=utf-8'' w)"

definition ui_patterns ::
    "(string \<Rightarrow> response \<Rightarrow> response) \<Rightarrow> static_fs \<Rightarrow> string \<Rightarrow> ui_deps \<Rightarrow> (string \<times> handler) list" where
  "ui_patterns redirect static ver d =
     [(''/probe'', NewHTTPHandler redirect ver),
      (''/ui/login'', ui_login static ver d),
      (''/ui/logout'', ui_logout),
      (''/ui/assets/'', ui_assets static ver),
      (''/ui/'', authMiddleware (D_Session d) (ui_index static ver))] @
     (case D_SSE d of
        Some h \<Rightarrow> [(''/ui/sse/status'', authMiddleware (D_Session d) h)]
      | None \<Rightarrow> [])"

definition NewMux_ui ::
    "(string \<Rightarrow> response \<Rightarrow> response) \<Rightarrow> static_fs \<Rightarrow> string \<Rightarrow> ui_deps \<Rightarrow> handler" where
  "NewMux_ui redirect static ver d = withCommonHeaders (mux_serve redirect (ui_patterns redirect static ver d))"

section \<open>Lemmas\<close>

text \<open>The user a request is authenticated as.\<close>

definition session_user :: "session option \<Rightarrow> http_request \<Rightarrow> time \<Rightarrow> string option" where
  "session_user sess r now =
     (case sess of
        None \<Rightarrow> None
      | Some s \<Rightarrow>
        (case cookie_value r cookieName of
           None \<Rightarrow> None
         | Some c \<Rightarrow> (case Verify s c now of Inl _ \<Rightarrow> None | Inr u \<Rightarrow> Some u)))"

definition denied :: "session option \<Rightarrow> http_request \<Rightarrow> response \<Rightarrow> response" where
  "denied sess r w =
     (if sess = None then http_error ''auth not configured'' 401 w else redirectOrUnauth r w)"

lemma authMiddleware_eq:
  "authMiddleware sess next now r w =
     (case session_user sess r now of
        None \<Rightarrow> denied sess r w
      | Some u \<Rightarrow> next now (r\<lparr>ReqHeader := (ReqHeader r)(''X-Mesh-User'' \<mapsto> u)\<rparr>) w)"
  by (auto simp: authMiddleware_def session_user_def denied_def split: option.splits sum.splits)

lemma denied_status:
  "Status w = None \<Longrightarrow> Status (denied sess r w) = Some 401 \<or> Status (denied sess r w) = Some 303"
  by (auto simp: denied_def redirectOrUnauth_def http_error_def redirect_see_other_def Let_def)

lemma has_prefix_ui [simp]: "clean_path ''/ui/'' = ''/ui/''"
  "clean_path ''/ui/login'' = ''/ui/login''"
  "clean_path ''/ui/logout'' = ''/ui/logout''"
  "clean_path ''/ui/sse/status'' = ''/ui/sse/status''"
  "clean_path ''/ui/assets/index.html'' = ''/ui/assets/index.html''"
  by (simp_all add: clean_path_def clean_step_def)

lemma common_Status [simp]:
  "Status (set_header ''Referrer-Policy'' x (set_header y z w)) = Status w"
  by simp

text \<open>The routes.\<close>

lemma ui_route:
  "URLPath r = ''/ui/'' \<Longrightarrow> mux_serve redirect (ui_patterns redirect static ver d) now r w =
     authMiddleware (D_Session d) (ui_index static ver) now r w"
  "URLPath r = ''/ui/login'' \<Longrightarrow> mux_serve redirect (ui_patterns redirect static ver d) now r w =
     ui_login static ver d now r w"
  "URLPath r = ''/ui/assets/index.html'' \<Longrightarrow> mux_serve redirect (ui_patterns redirect static ver d) now r w =
     ui_assets static ver now r w"
  "URLPath r = ''/ui/sse/status'' \<Longrightarrow> D_SSE d = Some h \<Longrightarrow>
     mux_serve redirect (ui_patterns redirect static ver d) now r w =
     authMiddleware (D_Session d) h now r w"
  by (simp_all add: mux_serve_def mux_route_def ui_patterns_def best_prefix_def is_prefix_def
      longer_def split: option.splits)

lemma ui_patterns_same_answer:
  assumes "session_user (D_Session d) r now = None"
  shows "list_all2 (same_answer now r w) (ui_patterns redirect static ver (d\<lparr>D_SSE := Some h\<rparr>))
    (ui_patterns redirect static ver (d\<lparr>D_SSE := Some h'\<rparr>))"
  using assms
  by (simp add: ui_patterns_def same_answer_def authMiddleware_eq ui_login_def)

text \<open>What the index page answers, by the user of the request.\<close>

lemma ui_index_answer:
  assumes "URLPath r = ''/ui/''" "static ''static/index.html'' = Some page"
  shows "NewMux_ui redirect static ver d now r new_response =
    (let w = set_header ''Referrer-Policy'' ''same-origin''
               (set_header ''X-Content-Type-Options'' ''nosniff'' new_response)
     in case session_user (D_Session d) r now of
          None \<Rightarrow> denied (D_Session d) r w
        | Some u \<Rightarrow> write_body page (set_header ''X-Mesh-Checker-Version'' ver
                      (set_header ''Content-Type'' ''text/html; charset=utf-8'' w)))"
  using assms
  by (simp add: NewMux_ui_def withCommonHeaders_def ui_route authMiddleware_eq ui_index_def
      serveStatic_def Let_def split: option.splits)

lemma session_user_token:
  assumes "cookie_value r cookieName = Some tok" "Issue s u t = Inr tok"
    and "is_int64 (unix (time_add t (sess_ttl s)))"
  shows "session_user (Some s) r now =
    (if unix now < unix (time_add t (sess_ttl s)) then Some u else None)"
proof -
  have fits: "expiry_fits s t" using assms(3) by (simp add: expiry_fits_def)
  from auth.verify_live [OF assms(2) fits, of now] auth.verify_dead [OF assms(2) fits, of now]
  show ?thesis using assms(1) by (auto simp: session_user_def token_live_def)
qed

section \<open>Properties\<close>

text \<open>
  C21. Confidentiality of the status stream: whatever the request (any path, method, headers, form
  and cookies), if it does not authenticate a session user then the UI server's answer is the same
  for every status-stream handler, so it carries nothing of the mesh view.
\<close>

theorem ui_stream_confidential:
  assumes "session_user (D_Session d) r now = None"
  shows "NewMux_ui redirect static ver (d\<lparr>D_SSE := Some h\<rparr>) now r w =
    NewMux_ui redirect static ver (d\<lparr>D_SSE := Some h'\<rparr>) now r w"
  unfolding NewMux_ui_def withCommonHeaders_def
  by (rule mux_serve_cong [OF ui_patterns_same_answer [OF assms]])

definition anonymous_request :: "string \<Rightarrow> http_request" where
  "anonymous_request path =
     \<lparr>Method = ''GET'', URLPath = path, ReqHeader = Map.empty, Cookies = [], Form = Some [],
      TLSChains = None\<rparr>"

theorem ui_stream_confidential_witness:
  "NewMux_ui (\<lambda>_ w. w) Map.empty ''dev''
      \<lparr>D_Login = None, D_SSE = Some (\<lambda>_ _ w. write_body ''secret'' w), D_Session = Some (NewSession [1] 60)\<rparr>
      0 (anonymous_request ''/ui/sse/status'') new_response =
   NewMux_ui (\<lambda>_ w. w) Map.empty ''dev''
      \<lparr>D_Login = None, D_SSE = Some (\<lambda>_ _ w. w), D_Session = Some (NewSession [1] 60)\<rparr>
      0 (anonymous_request ''/ui/sse/status'') new_response"
proof -
  have "session_user (D_Session \<lparr>D_Login = None, D_SSE = None, D_Session = Some (NewSession [1] 60)\<rparr>)
    (anonymous_request ''/ui/sse/status'') 0 = None"
    by (simp add: session_user_def anonymous_request_def cookie_value_def)
  from ui_stream_confidential [OF this, of "\<lambda>_ w. w" Map.empty "''dev''"
      "\<lambda>_ _ w. write_body ''secret'' w" new_response "\<lambda>_ _ w. w"]
  show ?thesis by simp
qed

text \<open>
  C22. The login round trip through the UI server: when a POST to \<open>/ui/login\<close> sets a cookie, a
  request for \<open>/ui/\<close> that presents its value is answered 200 with the index page in every second
  before the token's expiry, and is refused (401, or 303 to the login page) from then on.
\<close>

theorem ui_login_flow:
  assumes "D_Session d = Some s" "D_Login d = Some (login_ServeHTTP bcrypt (NewLoginHandler us s fd))"
    and "URLPath r = ''/ui/login''" "Method r = ''POST''"
    and "SetCookies (NewMux_ui redirect static ver d t r new_response) = [c]"
    and "URLPath r' = ''/ui/''" "cookie_value r' cookieName = Some (CookieValue c)"
    and "static ''static/index.html'' = Some page"
    and "is_int64 (unix (t + sess_ttl s))"
  shows "if unix now < unix (t + sess_ttl s)
    then Status (NewMux_ui redirect static ver d now r' new_response) = Some 200 \<and>
         Body (NewMux_ui redirect static ver d now r' new_response) = page
    else Status (NewMux_ui redirect static ver d now r' new_response) \<in> {Some 401, Some 303}"
proof -
  have "Issue s (form_value r ''name'') t = Inr (CookieValue c)"
    using assms(1-5)
    by (auto simp: NewMux_ui_def withCommonHeaders_def ui_route ui_login_def login_ServeHTTP_def
        NewLoginHandler_def Let_def new_response_def session_cookie_def set_header_def set_cookie_def
        http_error_def write_header_def write_body_def redirect_see_other_def
        split: if_splits sum.splits)
  then have "session_user (D_Session d) r' now =
      (if unix now < unix (t + sess_ttl s) then Some (form_value r ''name'') else None)"
    using session_user_token [OF assms(7)] assms(1,9) by (simp add: time_add_def)
  moreover have "Status (denied (D_Session d) r' w) \<in> {Some 401, Some 303}" if "Status w = None" for w
    using denied_status [OF that] by blast
  ultimately show ?thesis
    using ui_index_answer [where static = static, OF assms(6,8), of redirect ver d now]
    by (simp add: Let_def new_response_def write_body_def set_header_def write_header_def)
qed

definition sample_deps :: ui_deps where
  "sample_deps =
     (let s = NewSession [1] (60 * second) in
      \<lparr>D_Login = Some (login_ServeHTTP (\<lambda>h p. h = p)
          (NewLoginHandler [\<lparr>U_Name = ''admin'', PasswordHash = ''pw''\<rparr>] s second)),
       D_SSE = None, D_Session = Some s\<rparr>)"

definition sample_login_post :: http_request where
  "sample_login_post =
     \<lparr>Method = ''POST'', URLPath = ''/ui/login'', ReqHeader = Map.empty, Cookies = [],
      Form = Some [(''name'', ''admin''), (''password'', ''pw'')], TLSChains = None\<rparr>"

lemma sample_login_cookie:
  "\<exists>c. SetCookies (NewMux_ui (\<lambda>_ w. w) static ver sample_deps 0 sample_login_post new_response) = [c]"
proof -
  obtain tok where tok: "Issue (NewSession [1] (60 * second)) ''admin'' 0 = Inr tok"
    using Issue_ok_iff [of "NewSession [1] (60 * second)" "''admin''" 0] by auto
  show ?thesis
    by (simp add: NewMux_ui_def withCommonHeaders_def ui_route sample_login_post_def ui_login_def
        sample_deps_def Let_def login_ServeHTTP_def form_value_def NewLoginHandler_def tok
        new_response_def set_header_def)
qed

theorem ui_login_flow_witness:
  "\<exists>c. SetCookies (NewMux_ui (\<lambda>_ w. w) [''static/index.html'' \<mapsto> ''page''] ''dev'' sample_deps 0
          sample_login_post new_response) = [c] \<and>
     Status (NewMux_ui (\<lambda>_ w. w) [''static/index.html'' \<mapsto> ''page''] ''dev'' sample_deps (59 * second)
          ((anonymous_request ''/ui/'')\<lparr>Cookies := [(cookieName, CookieValue c)]\<rparr>) new_response) = Some 200 \<and>
     Status (NewMux_ui (\<lambda>_ w. w) [''static/index.html'' \<mapsto> ''page''] ''dev'' sample_deps (60 * second)
          ((anonymous_request ''/ui/'')\<lparr>Cookies := [(cookieName, CookieValue c)]\<rparr>) new_response)
       \<in> {Some 401, Some 303}"
proof -
  let ?s = "NewSession [1] (60 * second)"
  obtain c where c: "SetCookies (NewMux_ui (\<lambda>_ w. w) [''static/index.html'' \<mapsto> ''page''] ''dev''
      sample_deps 0 sample_login_post new_response) = [c]"
    using sample_login_cookie by blast
  let ?r = "(anonymous_request ''/ui/'')\<lparr>Cookies := [(cookieName, CookieValue c)]\<rparr>"
  have d: "D_Session sample_deps = Some ?s"
    "D_Login sample_deps = Some (login_ServeHTTP (\<lambda>h p. h = p)
      (NewLoginHandler [\<lparr>U_Name = ''admin'', PasswordHash = ''pw''\<rparr>] ?s second))"
    by (simp_all add: sample_deps_def Let_def)
  have r: "URLPath sample_login_post = ''/ui/login''" "Method sample_login_post = ''POST''"
    "URLPath ?r = ''/ui/''" "cookie_value ?r cookieName = Some (CookieValue c)"
    by (simp_all add: sample_login_post_def anonymous_request_def cookie_value_def)
  have e: "is_int64 (unix (0 + sess_ttl ?s))" "unix (sess_ttl ?s) = 60"
    "unix (59 * second) = 59" "unix (60 * second) = 60"
    by (simp_all add: is_int64_def min_int64_def max_int64_def unix_def NewSession_def second_def)
  have p: "[''static/index.html'' \<mapsto> ''page''] ''static/index.html'' = Some ''page''" by simp
  note flow = ui_login_flow [OF d r(1,2) c r(3,4) p e(1)]
  from flow [of "59 * second"] flow [of "60 * second"] c show ?thesis
    by (simp add: e)
qed

text \<open>
  The static files are public: every request for \<open>/ui/assets/index.html\<close>, with or without
  a session and even when no session is configured, is answered with the page that \<open>/ui/\<close>
  serves to authenticated users only.
\<close>

theorem ui_assets_public:
  assumes "URLPath r = ''/ui/assets/index.html''" "static ''static/index.html'' = Some page"
  shows "Status (NewMux_ui redirect static ver d now r new_response) = Some 200 \<and>
    Body (NewMux_ui redirect static ver d now r new_response) = page"
  using assms
  by (simp add: NewMux_ui_def withCommonHeaders_def ui_route ui_assets_def serveStatic_def Let_def
      new_response_def write_body_def set_header_def write_header_def)

theorem ui_assets_public_witness:
  "Status (NewMux_ui (\<lambda>_ w. w) [''static/index.html'' \<mapsto> ''page''] ''dev''
      \<lparr>D_Login = None, D_SSE = None, D_Session = None\<rparr> 0
      (anonymous_request ''/ui/assets/index.html'') new_response) = Some 200"
proof -
  have "URLPath (anonymous_request ''/ui/assets/index.html'') = ''/ui/assets/index.html''"
    "[''static/index.html'' \<mapsto> ''page''] ''static/index.html'' = Some ''page''"
    by (simp_all add: anonymous_request_def)
  from ui_assets_public [where static = "[''static/index.html'' \<mapsto> ''page'']", OF this]
  show ?thesis by blast
qed

end
