(* ===== verification/Inter_Host.thy ===== *)
theory Inter_Host
  imports Go_Http Aggregator
begin

text \<open>
  \<open>internal/pkg/server/interhost\<close>: the API the nodes offer each other over mutual TLS
  (\<open>server.go\<close>) and its client (\<open>client.go\<close>). \<open>encode\<close> and \<open>decode\<close> are
  \<open>encoding/json\<close> on an observer view (\<open>View_Json\<close> has them), \<open>quote\<close> is the verb \<open>%q\<close>; certificates are an
  arbitrary type.
\<close>

section \<open>Server\<close>

datatype client_auth = NoClientCert | RequireAndVerifyClientCert

record ('cert, 'pool) tls_config =
  Certificates :: "'cert list"
  ClientCAs :: "'pool option"
  RootCAs :: "'pool option"
  ClientAuth :: client_auth
  MinVersion :: nat

text \<open>\<open>tls.VersionTLS12\<close> is hexadecimal 0303.\<close>

definition VersionTLS12 :: nat where "VersionTLS12 = 771"

definition ServerTLSConfig :: "'cert \<Rightarrow> 'pool \<Rightarrow> ('cert, 'pool) tls_config" where
  "ServerTLSConfig cert ca =
     \<lparr>Certificates = [cert], ClientCAs = Some ca, RootCAs = None,
      ClientAuth = RequireAndVerifyClientCert, MinVersion = VersionTLS12\<rparr>"

text \<open>\<open>IH_FetchLocal\<close> is what the call of \<open>FetchLocal\<close> in this request ends with.\<close>

record interhost_deps =
  IH_Peers :: "string \<Rightarrow> bool"
  IH_FetchLocal :: "panic + observer_view"

definition abort :: "panic \<Rightarrow> response \<Rightarrow> response" where
  "abort p w = w\<lparr>Aborted := Some p\<rparr>"

text \<open>\<open>r.TLS.VerifiedChains[0][0].Subject.CommonName\<close>, with the checks before it.\<close>

definition peerCNCheck :: "(string \<Rightarrow> bool) \<Rightarrow> handler \<Rightarrow> handler" where
  "peerCNCheck known next now r w =
     (case TLSChains r of
        None \<Rightarrow> http_error ''mTLS required'' 403 w
      | Some vcs \<Rightarrow>
        if length vcs = 0 then http_error ''mTLS required'' 403 w
        else if length (vcs ! 0) = 0 then abort IndexOutOfRange w
        else
          let cn = vcs ! 0 ! 0
          in if \<not> known cn then http_error ''unknown peer'' 403 w
             else next now r w)"

definition status_page :: "(observer_view \<Rightarrow> string option) \<Rightarrow> panic + observer_view \<Rightarrow> handler" where
  "status_page encode local now r w =
     (let w1 = set_header ''Content-Type'' ''application/json'' w in
      case local of
        Inl p \<Rightarrow> abort p w1
      | Inr v \<Rightarrow> (case encode v of None \<Rightarrow> w1 | Some b \<Rightarrow> write_body (b @ newline) w1))"

definition dquote :: string where "dquote = [CHR 0x22]"

definition version_page :: "(string \<Rightarrow> string) \<Rightarrow> string \<Rightarrow> handler" where
  "version_page quote ver now r w =
     write_body (''{'' @ dquote @ ''version'' @ dquote @ '':'' @ quote ver @ '','' @
                 dquote @ ''schemaVersion'' @ dquote @ '':1}'')
       (set_header ''Content-Type'' ''application/json'' w)"

definition NewMux_peer ::
    "(string \<Rightarrow> response \<Rightarrow> response) \<Rightarrow> (observer_view \<Rightarrow> string option) \<Rightarrow> (string \<Rightarrow> string) \<Rightarrow> string \<Rightarrow>
     interhost_deps \<Rightarrow> handler" where
  "NewMux_peer redirect encode quote ver d =
     mux_serve redirect
       [(''/api/peer/status'', peerCNCheck (IH_Peers d) (status_page encode (IH_FetchLocal d))),
        (''/api/peer/version'', peerCNCheck (IH_Peers d) (version_page quote ver))]"

section \<open>Client\<close>

datatype fetch_error =
    NoURL string
  | BadRequestURL string
  | TransportErr string
  | BadStatus string int
  | DecodeErr string

record client =
  urls :: "string \<rightharpoonup> string"
  client_timeout :: duration

definition NewClient :: "(string \<rightharpoonup> string) \<Rightarrow> client" where
  "NewClient peerURLs = \<lparr>urls = peerURLs, client_timeout = 5 * second\<rparr>"

text \<open>The transport's TLS settings: the mesh CA as the only root and the host's certificate.\<close>

definition ClientTLSConfig :: "'pool \<Rightarrow> 'cert \<Rightarrow> ('cert, 'pool) tls_config" where
  "ClientTLSConfig caPool cert =
     \<lparr>Certificates = [cert], ClientCAs = None, RootCAs = Some caPool,
      ClientAuth = NoClientCert, MinVersion = VersionTLS12\<rparr>"

text \<open>
  \<open>new_request\<close> is the error of \<open>http.NewRequestWithContext\<close> on a URL, if any;
  \<open>do_get\<close> is \<open>Client.Do\<close>: an error, or the status and body of the answer.
\<close>

definition Fetch ::
    "(string \<Rightarrow> string option) \<Rightarrow> (string \<Rightarrow> string + (int \<times> string)) \<Rightarrow> (string \<Rightarrow> string + observer_view) \<Rightarrow>
     client \<Rightarrow> string \<Rightarrow> fetch_error + observer_view" where
  "Fetch new_request do_get decode c peer =
     (case urls c peer of
        None \<Rightarrow> Inl (NoURL peer)
      | Some base \<Rightarrow>
        (case new_request (base @ ''/api/peer/status'') of
           Some e \<Rightarrow> Inl (BadRequestURL e)
         | None \<Rightarrow>
           (case do_get (base @ ''/api/peer/status'') of
              Inl e \<Rightarrow> Inl (TransportErr e)
            | Inr resp \<Rightarrow>
              if fst resp \<noteq> 200 then Inl (BadStatus peer (fst resp))
              else (case decode (snd resp) of Inl e \<Rightarrow> Inl (DecodeErr e) | Inr v \<Rightarrow> Inr v))))"

section \<open>Lemmas\<close>

text \<open>The common name of the leaf of the first verified chain.\<close>

definition leaf_cn :: "http_request \<Rightarrow> string option" where
  "leaf_cn r =
     (case TLSChains r of
        Some ((cn # _) # _) \<Rightarrow> Some cn
      | _ \<Rightarrow> None)"

definition known_peer :: "interhost_deps \<Rightarrow> http_request \<Rightarrow> bool" where
  "known_peer d r \<longleftrightarrow> (case leaf_cn r of None \<Rightarrow> False | Some cn \<Rightarrow> IH_Peers d cn)"

lemma peerCNCheck_known:
  "known_peer d r \<Longrightarrow> peerCNCheck (IH_Peers d) next now r w = next now r w"
  by (auto simp: peerCNCheck_def known_peer_def leaf_cn_def split: option.splits list.splits)

text \<open>Whoever is not a known peer gets an answer in which the guarded handler has no part.\<close>

lemma peerCNCheck_unknown:
  "\<not> known_peer d r \<Longrightarrow> peerCNCheck (IH_Peers d) next now r w = peerCNCheck (IH_Peers d) next' now r w"
  by (auto simp: peerCNCheck_def known_peer_def leaf_cn_def Let_def split: option.splits list.splits)

lemma peerCNCheck_unknown_status:
  assumes "\<not> known_peer d r" "Status w = None"
  shows "Status (peerCNCheck (IH_Peers d) next now r w) = Some 403 \<or>
    Aborted (peerCNCheck (IH_Peers d) next now r w) = Some IndexOutOfRange"
  using assms
  by (auto simp: peerCNCheck_def known_peer_def leaf_cn_def abort_def http_error_def Let_def
      split: option.splits list.splits)

lemma clean_path_peer [simp]:
  "clean_path ''/api/peer/status'' = ''/api/peer/status''"
  by (simp add: clean_path_def clean_step_def)

lemma peer_status_route:
  "URLPath r = ''/api/peer/status'' \<Longrightarrow> NewMux_peer redirect encode quote ver d now r w =
     peerCNCheck (IH_Peers d) (status_page encode (IH_FetchLocal d)) now r w"
  by (simp add: NewMux_peer_def mux_serve_def mux_route_def)

lemma Fetch_ok_iff [ok_iff]:
  "Fetch new_request do_get decode c peer = Inr v \<longleftrightarrow>
     (\<exists>base body. urls c peer = Some base \<and> new_request (base @ ''/api/peer/status'') = None \<and>
        do_get (base @ ''/api/peer/status'') = Inr (200, body) \<and> decode body = Inr v)"
  by (auto simp: Fetch_def split: option.splits sum.splits if_splits)

text \<open>A request through the client, the connection and the server's mux.\<close>

lemma exchange:
  assumes url: "urls c peer = Some base" "new_request (base @ ''/api/peer/status'') = None"
    and path: "URLPath r = ''/api/peer/status''"
    and transport: "do_get (base @ ''/api/peer/status'') =
      (let w = NewMux_peer redirect encode quote ver d now r new_response
       in if Aborted w \<noteq> None then Inl ''EOF''
          else Inr (case Status w of None \<Rightarrow> 200 | Some s \<Rightarrow> s, Body w))"
    and local: "IH_FetchLocal d = Inr v"
    and codec: "encode v = Some b" "decode (b @ newline) = Inr v"
  shows "if known_peer d r then Fetch new_request do_get decode c peer = Inr v
    else (\<exists>e. Fetch new_request do_get decode c peer = Inl e)"
proof (cases "known_peer d r")
  case True
  then have "do_get (base @ ''/api/peer/status'') = Inr (200, b @ newline)"
    using codec(1) local
    by (simp add: transport peer_status_route [OF path] peerCNCheck_known status_page_def
        new_response_def set_header_def write_body_def write_header_def)
  with True url codec(2) show ?thesis by (simp add: ok_iff)
next
  case False
  have "Status (new_response) = None" by (simp add: new_response_def)
  from peerCNCheck_unknown_status [OF False this, of "status_page encode (IH_FetchLocal d)" now]
  have "do_get (base @ ''/api/peer/status'') = Inl ''EOF'' \<or>
      (\<exists>body. do_get (base @ ''/api/peer/status'') = Inr (403, body))"
    by (auto simp: transport peer_status_route [OF path] Let_def)
  with False url(1,2) show ?thesis by (auto simp: Fetch_def)
qed

section \<open>Properties\<close>

text \<open>
  C23. The node's view is disclosed to known peers only: whatever a client requests, if the leaf of
  its first verified certificate chain does not name a configured peer, the answer is the same
  whatever the local view is.
\<close>

theorem peer_api_confidential:
  assumes "\<not> known_peer d r"
  shows "NewMux_peer redirect encode quote ver d now r w =
    NewMux_peer redirect encode quote ver (d\<lparr>IH_FetchLocal := v\<rparr>) now r w"
  unfolding NewMux_peer_def
  by (rule mux_serve_cong)
    (simp add: same_answer_def peerCNCheck_unknown [OF assms, of "status_page encode (IH_FetchLocal d)"
      now w "status_page encode v"])

definition stranger_request :: http_request where
  "stranger_request =
     \<lparr>Method = ''GET'', URLPath = ''/api/peer/status'', ReqHeader = Map.empty, Cookies = [],
      Form = Some [], TLSChains = Some [[''mallory'', ''ca'']]\<rparr>"

theorem peer_api_confidential_witness:
  "NewMux_peer (\<lambda>_ w. w) (\<lambda>v. Some (Host v)) id ''dev''
      \<lparr>IH_Peers = (\<lambda>n. n = ''b''), IH_FetchLocal = Inr (\<lparr>Host = ''a'', Samples = None, Reachable = True, Reason = []\<rparr>)\<rparr>
      0 stranger_request new_response =
   NewMux_peer (\<lambda>_ w. w) (\<lambda>v. Some (Host v)) id ''dev''
      \<lparr>IH_Peers = (\<lambda>n. n = ''b''), IH_FetchLocal = Inr (\<lparr>Host = ''c'', Samples = None, Reachable = True, Reason = []\<rparr>)\<rparr>
      0 stranger_request new_response"
proof -
  let ?d = "\<lparr>IH_Peers = (\<lambda>n. n = ''b''),
    IH_FetchLocal = Inr (\<lparr>Host = ''a'', Samples = None, Reachable = True, Reason = []\<rparr>)\<rparr>"
  have "\<not> known_peer ?d stranger_request"
    by (simp add: known_peer_def leaf_cn_def stranger_request_def)
  from peer_api_confidential [OF this, of "\<lambda>_ w. w" "\<lambda>v. Some (Host v)" id "''dev''" 0 new_response
      "Inr \<lparr>Host = ''c'', Samples = None, Reachable = True, Reason = []\<rparr>"]
  show ?thesis by simp
qed

text \<open>
  The exchange between two nodes: when the client's request reaches the server's mux over a
  connection whose verified leaf certificate names a configured peer, and the JSON codec is lossless
  on the server's view, the client obtains exactly that view; if the certificate names no configured
  peer, the client obtains an error.
\<close>

theorem interhost_exchange:
  assumes url: "urls c peer = Some base" "new_request (base @ ''/api/peer/status'') = None"
    and path: "URLPath r = ''/api/peer/status''"
    and transport: "do_get (base @ ''/api/peer/status'') =
      (let w = NewMux_peer redirect encode quote ver d now r new_response
       in if Aborted w \<noteq> None then Inl ''EOF''
          else Inr (case Status w of None \<Rightarrow> 200 | Some s \<Rightarrow> s, Body w))"
    and local: "IH_FetchLocal d = Inr v"
    and codec: "encode v = Some b" "decode (b @ newline) = Inr v"
  shows "if known_peer d r then Fetch new_request do_get decode c peer = Inr v
    else (\<exists>e. Fetch new_request do_get decode c peer = Inl e)"
  using assms by (rule exchange)

theorem interhost_exchange_witness:
  "\<exists>v. Fetch (\<lambda>_. None)
     (\<lambda>_. let w = NewMux_peer (\<lambda>_ w. w) (\<lambda>v. Some (Host v)) id ''dev''
            \<lparr>IH_Peers = (\<lambda>n. n = ''mallory''),
             IH_FetchLocal = Inr \<lparr>Host = ''a'', Samples = None, Reachable = True, Reason = []\<rparr>\<rparr>
            0 stranger_request new_response
          in if Aborted w \<noteq> None then Inl ''EOF''
             else Inr (case Status w of None \<Rightarrow> 200 | Some s \<Rightarrow> s, Body w))
     (\<lambda>s. Inr \<lparr>Host = butlast s, Samples = None, Reachable = True, Reason = []\<rparr>)
     (NewClient [''a'' \<mapsto> ''https://a'']) ''a'' = Inr v"
proof -
  let ?v = "\<lparr>Host = ''a'', Samples = None, Reachable = True, Reason = []\<rparr>"
  let ?d = "\<lparr>IH_Peers = (\<lambda>n. n = ''mallory''), IH_FetchLocal = Inr ?v\<rparr>"
  have known: "known_peer ?d stranger_request"
    by (simp add: known_peer_def leaf_cn_def stranger_request_def)
  have "urls (NewClient [''a'' \<mapsto> ''https://a'']) ''a'' = Some ''https://a''"
    by (simp add: NewClient_def)
  moreover have "URLPath stranger_request = ''/api/peer/status''" by (simp add: stranger_request_def)
  moreover have "IH_FetchLocal ?d = Inr ?v" by simp
  moreover have "(\<lambda>s. Inr \<lparr>Host = butlast s, Samples = None, Reachable = True, Reason = []\<rparr>)
      (''a'' @ newline) = (Inr ?v :: string + observer_view)"
    by (simp add: newline_def)
  ultimately show ?thesis
    using known interhost_exchange [where d = ?d and r = stranger_request and v = ?v
        and c = "NewClient [''a'' \<mapsto> ''https://a'']" and peer = "''a''" and base = "''https://a''"
        and new_request = "\<lambda>_. None" and encode = "\<lambda>v. Some (Host v)" and b = "''a''"
        and decode = "\<lambda>s. Inr \<lparr>Host = butlast s, Samples = None, Reachable = True, Reason = []\<rparr>"
        and redirect = "\<lambda>_ w. w" and quote = id and ver = "''dev''" and now = 0
        and do_get = "\<lambda>_. let w = NewMux_peer (\<lambda>_ w. w) (\<lambda>v. Some (Host v)) id ''dev''
            ?d 0 stranger_request new_response
          in if Aborted w \<noteq> None then Inl ''EOF''
             else Inr (case Status w of None \<Rightarrow> 200 | Some s \<Rightarrow> s, Body w)"]
    by auto
qed

end
