(* ===== verification/Cli_Config.thy ===== *)
theory Cli_Config
  imports Config_Codec Go_Flag
begin

text \<open>
  The configuration commands of \<open>internal/pkg/cli\<close>: \<open>configio.go\<close> (the edit cycle),
  \<open>host.go\<close> (\<open>host add|remove|list\<close>), \<open>user.go\<close> (\<open>user add|remove\<close>) and
  \<open>config_cmd.go\<close> (\<open>config validate\<close>). A command maps the arguments and the world
  (files and what was printed) to an error, if any, and the new world. The flag package's usage text
  on the standard error output is not part of the world.
\<close>

section \<open>World and errors\<close>

datatype cli_error =
    NoSubcommand
  | UnknownSubcommand string
  | FlagFailed flag_error
  | UsageError
  | ExtraArguments
  | FileFailed file_error
  | ConfigInvalid config_error
  | AlreadyExists string
  | NotFound string
  | PasswordFailed string
  | EmptyPassword
  | HashFailed string

record world =
  files :: fs
  stdout_text :: string
  warnings_text :: "warning list"

type_synonym command = "string list \<Rightarrow> world \<Rightarrow> cli_error option \<times> world"

definition say :: "string \<Rightarrow> world \<Rightarrow> world" where
  "say line w = w\<lparr>stdout_text := stdout_text w @ line @ [CHR 0x0A]\<rparr>"

section \<open>configio.go\<close>

definition defaultConfigPath :: string where
  "defaultConfigPath = ''/etc/mesh-checker/config.json''"

definition addConfigFlag :: "flag_set \<Rightarrow> flag_set" where
  "addConfigFlag defs = defs(''config'' \<mapsto> (\<lambda>_. True))"

definition config_path :: "(string \<times> string) list \<Rightarrow> string" where
  "config_path vs = flag_value ''config'' defaultConfigPath vs"

text \<open>The edit: what \<open>fn\<close> prints is printed before the file is saved.\<close>

definition loadAndMutate ::
    "sys \<Rightarrow> string \<Rightarrow> (config \<Rightarrow> cli_error + (config \<times> string)) \<Rightarrow> world \<Rightarrow> cli_error option \<times> world" where
  "loadAndMutate sy path fn w =
     (case Load sy path (files w) of
        Inl e \<Rightarrow> (Some (FileFailed e), w)
      | Inr c \<Rightarrow>
        (case fn c of
           Inl e \<Rightarrow> (Some e, w)
         | Inr (c', line) \<Rightarrow>
           let w1 = say line w;
               (e, files') = Save sy path c' (files w1)
           in (map_option FileFailed e, w1\<lparr>files := files'\<rparr>)))"

text \<open>The skeleton of a runnable configuration; its secrets are 32 known bytes in base64.\<close>

definition skeleton_secret :: string where
  "skeleton_secret = ''AAECAwQFBgcICQoLDA0ODxAREhMUFRYXGBkaGxwdHh8=''"

definition newConfigSkeleton ::
    "string \<Rightarrow> string \<Rightarrow> string \<Rightarrow> string \<Rightarrow> string \<Rightarrow> int \<Rightarrow> int \<Rightarrow> int \<Rightarrow> int \<Rightarrow> config" where
  "newConfigSkeleton hostName addr caCert hostCert hostKey ihPort uiPort probeHTTP probeUDP =
     \<lparr>C_SchemaVersion = 1,
      C_Host = \<lparr>HI_Name = hostName, AdvertiseAddr = addr\<rparr>,
      C_PKI = \<lparr>CACertPath = caCert, CAKeyPath = [], HostCertPath = hostCert, HostKeyPath = hostKey\<rparr>,
      C_Listeners = \<lparr>L_InterHost = \<lparr>LA_Addr = ''127.0.0.1:'' @ itoa ihPort\<rparr>,
                     L_UI = \<lparr>LA_Addr = ''127.0.0.1:'' @ itoa uiPort\<rparr>,
                     L_Probe = \<lparr>HTTPAddr = ''127.0.0.1:'' @ itoa probeHTTP,
                                UDPAddr = ''127.0.0.1:'' @ itoa probeUDP\<rparr>\<rparr>,
      C_Probe = \<lparr>IntervalSeconds = 10, JitterPercent = 10, TimeoutSeconds = 3, FailureWindow = 5,
                 FailureThreshold = 3, RingbufferSize = 100, UDPSharedSecret = skeleton_secret\<rparr>,
      C_Peers = [],
      C_UI = \<lparr>Users = [], SessionSecret = skeleton_secret, SessionTTLSeconds = 3600\<rparr>,
      C_Log = \<lparr>Level = ''info''\<rparr>\<rparr>"

definition chmod_file :: "call_outcome \<Rightarrow> string \<Rightarrow> nat \<Rightarrow> fs \<Rightarrow> string option \<times> fs" where
  "chmod_file res path mode fl =
     (case res of
        CallErr e \<Rightarrow> (Some e, fl)
      | CallOk \<Rightarrow>
        (case fl path of
           None \<Rightarrow> (Some ''no such file or directory'', fl)
         | Some f \<Rightarrow> (None, fl(path \<mapsto> f\<lparr>perm := mode\<rparr>))))"

definition saveStrict :: "sys \<Rightarrow> call_outcome \<Rightarrow> string \<Rightarrow> config \<Rightarrow> fs \<Rightarrow> file_error option \<times> fs" where
  "saveStrict sy chmod path c fl =
     (case Save sy path c fl of
        (Some e, fl1) \<Rightarrow> (Some e, fl1)
      | (None, fl1) \<Rightarrow>
        (case chmod_file chmod path 384 fl1 of
           (Some e, fl2) \<Rightarrow> (Some (ChmodFailed e), fl2)
         | (None, fl2) \<Rightarrow> (None, fl2)))"

section \<open>Positional arguments\<close>

definition is_positional :: "string \<Rightarrow> bool" where
  "is_positional a \<longleftrightarrow> length a > 0 \<and> hd a \<noteq> CHR ''-''"

text \<open>One positional argument, before the flags or as the only one after them.\<close>

definition one_positional :: "flag_set \<Rightarrow> string list \<Rightarrow> cli_error + (string \<times> (string \<times> string) list)" where
  "one_positional defs args =
     (let (name, flagArgs) = (case args of
            a # as \<Rightarrow> if is_positional a then (a, as) else ([], args)
          | [] \<Rightarrow> ([], args))
      in case parse_flags defs flagArgs of
           Inl e \<Rightarrow> Inl (FlagFailed e)
         | Inr (vs, rest) \<Rightarrow>
           if name = [] then
             (if length rest \<noteq> 1 then Inl UsageError else Inr (rest ! 0, vs))
           else if length rest \<noteq> 0 then Inl ExtraArguments
           else Inr (name, vs))"

text \<open>Two positional arguments; fewer than two before the flags count as none.\<close>

definition two_positionals ::
    "flag_set \<Rightarrow> string list \<Rightarrow> cli_error + ((string \<times> string) \<times> (string \<times> string) list)" where
  "two_positionals defs args =
     (let i = length (takeWhile is_positional args);
          (name, addr, flagArgs) = (if i \<ge> 2 then (args ! 0, args ! 1, drop 2 args) else ([], [], args))
      in case parse_flags defs flagArgs of
           Inl e \<Rightarrow> Inl (FlagFailed e)
         | Inr (vs, rest) \<Rightarrow>
           if name = [] \<or> addr = [] then
             (if length rest \<noteq> 2 then Inl UsageError else Inr ((rest ! 0, rest ! 1), vs))
           else if length rest \<noteq> 0 then Inl ExtraArguments
           else Inr ((name, addr), vs))"

section \<open>host.go\<close>

definition all_checks :: "string list" where
  "all_checks = [''icmp'', ''tcp'', ''udp'', ''https'']"

definition add_peer :: "string \<Rightarrow> string \<Rightarrow> string list \<Rightarrow> config \<Rightarrow> cli_error + (config \<times> string)" where
  "add_peer name addr checks c =
     (if list_ex (\<lambda>p. P_Name p = name) (C_Peers c) then Inl (AlreadyExists name)
      else Inr (c\<lparr>C_Peers := C_Peers c @ [\<lparr>P_Name = name, P_Addr = addr, Checks = checks, TCPPort = 0,
                                             UDPPort = 0, HTTPSURL = []\<rparr>]\<rparr>,
                ''added peer '' @ name @ '' ('' @ addr @ '')''))"

definition runHostAdd :: "sys \<Rightarrow> command" where
  "runHostAdd sy args w =
     (case two_positionals (addConfigFlag [''check'' \<mapsto> (\<lambda>_. True)]) args of
        Inl e \<Rightarrow> (Some e, w)
      | Inr ((name, addr), vs) \<Rightarrow>
        let given = flag_values ''check'' vs;
            checks = (if length given = 0 then all_checks else given)
        in loadAndMutate sy (config_path vs) (add_peer name addr checks) w)"

text \<open>The first element with the name is cut out; \<open>None\<close> when there is none.\<close>

fun remove_first :: "('a \<Rightarrow> bool) \<Rightarrow> 'a list \<Rightarrow> 'a list option" where
  "remove_first P [] = None"
| "remove_first P (x # xs) = (if P x then Some xs else map_option (Cons x) (remove_first P xs))"

definition remove_peer :: "string \<Rightarrow> config \<Rightarrow> cli_error + (config \<times> string)" where
  "remove_peer name c =
     (case remove_first (\<lambda>p. P_Name p = name) (C_Peers c) of
        None \<Rightarrow> Inl (NotFound name)
      | Some ps \<Rightarrow> Inr (c\<lparr>C_Peers := ps\<rparr>, ''removed peer '' @ name))"

definition runHostRemove :: "sys \<Rightarrow> command" where
  "runHostRemove sy args w =
     (case one_positional (addConfigFlag Map.empty) args of
        Inl e \<Rightarrow> (Some e, w)
      | Inr (name, vs) \<Rightarrow> loadAndMutate sy (config_path vs) (remove_peer name) w)"

text \<open>The rows handed to \<open>text/tabwriter\<close>, whose layout is the parameter \<open>layout\<close>.\<close>

fun spaced :: "string list \<Rightarrow> string" where
  "spaced [] = []"
| "spaced [x] = x"
| "spaced (x # xs) = x @ '' '' @ spaced xs"

definition host_rows :: "config \<Rightarrow> string list list" where
  "host_rows c = [''NAME'', ''ADDR'', ''CHECKS''] #
     map (\<lambda>p. [P_Name p, P_Addr p, ''['' @ spaced (Checks p) @ '']'']) (C_Peers c)"

definition runHostList :: "sys \<Rightarrow> (string list list \<Rightarrow> string) \<Rightarrow> command" where
  "runHostList sy layout args w =
     (case parse_flags (addConfigFlag Map.empty) args of
        Inl e \<Rightarrow> (Some (FlagFailed e), w)
      | Inr (vs, _) \<Rightarrow>
        (case Load sy (config_path vs) (files w) of
           Inl e \<Rightarrow> (Some (FileFailed e), w)
         | Inr c \<Rightarrow> (None, w\<lparr>stdout_text := stdout_text w @ layout (host_rows c)\<rparr>)))"

definition runHost :: "sys \<Rightarrow> (string list list \<Rightarrow> string) \<Rightarrow> command" where
  "runHost sy layout args w =
     (case args of
        [] \<Rightarrow> (Some NoSubcommand, w)
      | a # as \<Rightarrow>
        if a = ''add'' then runHostAdd sy as w
        else if a = ''remove'' then runHostRemove sy as w
        else if a = ''list'' then runHostList sy layout as w
        else (Some (UnknownSubcommand a), w))"

section \<open>user.go\<close>

definition add_user :: "string \<Rightarrow> string \<Rightarrow> config \<Rightarrow> cli_error + (config \<times> string)" where
  "add_user name hash c =
     (if list_ex (\<lambda>u. U_Name u = name) (Users (C_UI c)) then Inl (AlreadyExists name)
      else Inr (c\<lparr>C_UI := (C_UI c)\<lparr>Users := Users (C_UI c) @ [\<lparr>U_Name = name, PasswordHash = hash\<rparr>]\<rparr>\<rparr>,
                ''added user '' @ name))"

text \<open>\<open>password\<close> is what the terminal gives, \<open>bcrypt_hash\<close> is \<open>GenerateFromPassword\<close> with cost 12.\<close>

definition runUserAdd :: "sys \<Rightarrow> string + string \<Rightarrow> (string \<Rightarrow> string + string) \<Rightarrow> command" where
  "runUserAdd sy password bcrypt_hash args w =
     (case one_positional (addConfigFlag Map.empty) args of
        Inl e \<Rightarrow> (Some e, w)
      | Inr (name, vs) \<Rightarrow>
        (case password of
           Inl e \<Rightarrow> (Some (PasswordFailed e), w)
         | Inr pw \<Rightarrow>
           if pw = [] then (Some EmptyPassword, w)
           else
             (case bcrypt_hash pw of
                Inl e \<Rightarrow> (Some (HashFailed e), w)
              | Inr hash \<Rightarrow> loadAndMutate sy (config_path vs) (add_user name hash) w)))"

definition remove_user :: "string \<Rightarrow> config \<Rightarrow> cli_error + (config \<times> string)" where
  "remove_user name c =
     (case remove_first (\<lambda>u. U_Name u = name) (Users (C_UI c)) of
        None \<Rightarrow> Inl (NotFound name)
      | Some us \<Rightarrow> Inr (c\<lparr>C_UI := (C_UI c)\<lparr>Users := us\<rparr>\<rparr>, ''removed user '' @ name))"

definition runUserRemove :: "sys \<Rightarrow> command" where
  "runUserRemove sy args w =
     (case one_positional (addConfigFlag Map.empty) args of
        Inl e \<Rightarrow> (Some e, w)
      | Inr (name, vs) \<Rightarrow> loadAndMutate sy (config_path vs) (remove_user name) w)"

definition runUser :: "sys \<Rightarrow> string + string \<Rightarrow> (string \<Rightarrow> string + string) \<Rightarrow> command" where
  "runUser sy password bcrypt_hash args w =
     (case args of
        [] \<Rightarrow> (Some NoSubcommand, w)
      | a # as \<Rightarrow>
        if a = ''add'' then runUserAdd sy password bcrypt_hash as w
        else if a = ''remove'' then runUserRemove sy as w
        else (Some (UnknownSubcommand a), w))"

section \<open>config_cmd.go\<close>

definition runConfigValidate :: "sys \<Rightarrow> command" where
  "runConfigValidate sy args w =
     (case parse_flags (addConfigFlag Map.empty) args of
        Inl e \<Rightarrow> (Some (FlagFailed e), w)
      | Inr (vs, _) \<Rightarrow>
        (case Load sy (config_path vs) (files w) of
           Inl e \<Rightarrow> (Some (FileFailed e), w)
         | Inr c \<Rightarrow>
           let (ws, e) = ValidateWithWarnings c;
               w1 = w\<lparr>warnings_text := warnings_text w @ ws\<rparr>
           in (case e of
                 Some x \<Rightarrow> (Some (ConfigInvalid x), w1)
               | None \<Rightarrow> (None, say ''OK'' w1))))"

definition runConfig :: "sys \<Rightarrow> command" where
  "runConfig sy args w =
     (case args of
        [] \<Rightarrow> (Some NoSubcommand, w)
      | a # as \<Rightarrow>
        if a = ''validate'' then runConfigValidate sy as w
        else (Some (UnknownSubcommand a), w))"

section \<open>Lemmas\<close>

lemma files_say [simp]: "files (say line w) = files w"
  by (simp add: say_def)

lemma remove_first_SomeD:
  "remove_first P xs = Some ys \<Longrightarrow>
     \<exists>as x bs. xs = as @ x # bs \<and> P x \<and> (\<forall>a \<in> set as. \<not> P a) \<and> ys = as @ bs"
proof (induction xs arbitrary: ys)
  case (Cons x xs)
  show ?case
  proof (cases "P x")
    case True
    with Cons.prems show ?thesis by (intro exI [of _ "[]"] exI [of _ x] exI [of _ xs]) simp
  next
    case False
    with Cons.prems obtain zs where zs: "remove_first P xs = Some zs" "ys = x # zs" by auto
    from Cons.IH [OF zs(1)] obtain as y bs where
      "xs = as @ y # bs" "P y" "\<forall>a \<in> set as. \<not> P a" "zs = as @ bs" by blast
    with False zs(2) show ?thesis
      by (intro exI [of _ "x # as"] exI [of _ y] exI [of _ bs]) simp
  qed
qed simp

lemma remove_first_snoc:
  "\<forall>x \<in> set xs. \<not> P x \<Longrightarrow> P y \<Longrightarrow> remove_first P (xs @ [y]) = Some xs"
  by (induction xs) auto

text \<open>The edit cycle: an error leaves every file but the temporary one as it was.\<close>

lemma mutate_error:
  assumes "fst (loadAndMutate sy path fn w) = Some e" "p \<noteq> tmp_path path"
  shows "files (snd (loadAndMutate sy path fn w)) p = files w p"
proof (cases "Load sy path (files w)")
  case (Inl x)
  then show ?thesis by (simp add: loadAndMutate_def)
next
  case (Inr c)
  show ?thesis
  proof (cases "fn c")
    case (Inl x)
    with Inr show ?thesis by (simp add: loadAndMutate_def)
  next
    case r: (Inr r)
    with Inr assms show ?thesis
      using Save_failed [of sy path "fst r" "files w"] Save_frame [of p path sy "fst r" "files w"]
      by (cases "p = path") (auto simp: loadAndMutate_def Let_def case_prod_unfold)
  qed
qed

lemma mutate_ok:
  assumes "fst (loadAndMutate sy path fn w) = None"
  shows "\<exists>c c' line. Load sy path (files w) = Inr c \<and> fn c = Inr (c', line) \<and>
    fst (Save sy path c' (files w)) = None \<and>
    files (snd (loadAndMutate sy path fn w)) = snd (Save sy path c' (files w))"
  using assms by (auto simp: loadAndMutate_def Let_def case_prod_unfold split: sum.splits)

text \<open>The edits keep a configuration representable when their arguments are.\<close>

lemma add_peer_ok:
  "add_peer name addr chs c = Inr (c', line) \<Longrightarrow> config_ok c \<Longrightarrow> utf8_valid name \<Longrightarrow> utf8_valid addr \<Longrightarrow>
     list_all utf8_valid chs \<Longrightarrow> config_ok c'"
  by (auto simp: add_peer_def config_ok_def peer_ok_def is_int64_def min_int64_def max_int64_def split: if_splits)

lemma remove_peer_ok: "remove_peer name c = Inr (c', line) \<Longrightarrow> config_ok c \<Longrightarrow> config_ok c'"
  by (auto simp: remove_peer_def config_ok_def list_all_iff split: option.splits dest!: remove_first_SomeD)

lemma add_user_ok:
  "add_user name hash c = Inr (c', line) \<Longrightarrow> config_ok c \<Longrightarrow> utf8_valid name \<Longrightarrow> utf8_valid hash \<Longrightarrow> config_ok c'"
  by (auto simp: add_user_def config_ok_def user_ok_def split: if_splits)

lemma remove_user_ok: "remove_user name c = Inr (c', line) \<Longrightarrow> config_ok c \<Longrightarrow> config_ok c'"
  by (auto simp: remove_user_def config_ok_def list_all_iff split: option.splits dest!: remove_first_SomeD)

section \<open>The contract of an edit\<close>

text \<open>
  What the edit cycle relies on: an edit changes what it is meant to change, and an edit of a valid
  configuration gives a valid one.
\<close>

locale config_edit =
  fixes edit :: "config \<Rightarrow> cli_error + (config \<times> string)"
    and changes :: "config \<Rightarrow> config \<Rightarrow> bool"
  assumes edited: "edit c = Inr (c', line) \<Longrightarrow> changes c c'"
    and keeps_valid: "edit c = Inr (c', line) \<Longrightarrow> Validate c = None \<Longrightarrow> Validate c' = None"
begin

lemma saved_valid:
  assumes "fst (loadAndMutate sy path edit w) = None"
  shows "\<exists>c c' b f. Load sy path (files w) = Inr c \<and> changes c c' \<and> marshal sy c' = Inr b \<and>
    files (snd (loadAndMutate sy path edit w)) path = Some f \<and> content f = b \<and>
    (Validate c = None \<longrightarrow> Validate c' = None)"
proof -
  from mutate_ok [OF assms] obtain c c' line where m: "Load sy path (files w) = Inr c"
    "edit c = Inr (c', line)" "fst (Save sy path c' (files w)) = None"
    "files (snd (loadAndMutate sy path edit w)) = snd (Save sy path c' (files w))" by blast
  with Save_ok [OF m(3)] edited [OF m(2)] keeps_valid [OF m(2)] show ?thesis by fastforce
qed

end

lemma Validate_peers_cong:
  "Validate (c\<lparr>C_Peers := ps\<rparr>) = None \<longleftrightarrow> Validate (c\<lparr>C_Peers := []\<rparr>) = None \<and> distinct (map P_Name ps)"
  by (auto simp: Validate_None_iff)

lemma Validate_users: "Validate (c\<lparr>C_UI := (C_UI c)\<lparr>Users := us\<rparr>\<rparr>) = None \<longleftrightarrow> Validate c = None"
  by (simp add: Validate_None_iff)

text \<open>One peer (or user) more, at the end and under a new name, or one less; nothing else differs.\<close>

definition peers_edit :: "config \<Rightarrow> config \<Rightarrow> bool" where
  "peers_edit c c' \<longleftrightarrow>
     (\<exists>p. P_Name p \<notin> P_Name ` set (C_Peers c) \<and> c' = c\<lparr>C_Peers := C_Peers c @ [p]\<rparr>) \<or>
     (\<exists>as p bs. C_Peers c = as @ p # bs \<and> c' = c\<lparr>C_Peers := as @ bs\<rparr>)"

definition users_edit :: "config \<Rightarrow> config \<Rightarrow> bool" where
  "users_edit c c' \<longleftrightarrow>
     (\<exists>u. U_Name u \<notin> U_Name ` set (Users (C_UI c)) \<and>
        c' = c\<lparr>C_UI := (C_UI c)\<lparr>Users := Users (C_UI c) @ [u]\<rparr>\<rparr>) \<or>
     (\<exists>as u bs. Users (C_UI c) = as @ u # bs \<and> c' = c\<lparr>C_UI := (C_UI c)\<lparr>Users := as @ bs\<rparr>\<rparr>)"

lemma peers_edit_add: "add_peer n a chs c = Inr (c', line) \<Longrightarrow> peers_edit c c'"
  by (force simp: add_peer_def peers_edit_def list_ex_iff split: if_splits)

lemma peers_edit_remove: "remove_peer n c = Inr (c', line) \<Longrightarrow> peers_edit c c'"
  unfolding peers_edit_def
  by (rule disjI2) (fastforce simp: remove_peer_def split: option.splits dest: remove_first_SomeD)

lemma users_edit_add: "add_user n h c = Inr (c', line) \<Longrightarrow> users_edit c c'"
  by (force simp: add_user_def users_edit_def list_ex_iff split: if_splits)

lemma users_edit_remove: "remove_user n c = Inr (c', line) \<Longrightarrow> users_edit c c'"
  unfolding users_edit_def
  by (rule disjI2) (fastforce simp: remove_user_def split: option.splits dest: remove_first_SomeD)

interpretation add_peer: config_edit "add_peer n a chs" peers_edit for n a chs
  by unfold_locales
    (erule peers_edit_add, auto simp: add_peer_def Validate_None_iff list_ex_iff split: if_splits)

interpretation remove_peer: config_edit "remove_peer n" peers_edit for n
  by unfold_locales
    (erule peers_edit_remove,
      auto simp: remove_peer_def Validate_None_iff split: option.splits dest!: remove_first_SomeD)

interpretation add_user: config_edit "add_user n h" users_edit for n h
  by unfold_locales (erule users_edit_add, auto simp: add_user_def Validate_users split: if_splits)

interpretation remove_user: config_edit "remove_user n" users_edit for n
  by unfold_locales (erule users_edit_remove, auto simp: remove_user_def Validate_users split: option.splits)

text \<open>Positional arguments may stand before or after the flags.\<close>

lemma positional_NotAFlag: "is_positional a \<Longrightarrow> scan_arg a = NotAFlag"
  by (simp add: is_positional_def scan_arg_def)

lemma flags_first:
  assumes "parse_flags defs fl = Inr (vs, [])" "fl \<noteq> []"
  shows "\<not> is_positional (hd fl)"
  using assms positional_NotAFlag by (cases fl) fastforce+

lemma two_positionals_before:
  assumes "is_positional n" "is_positional a" "parse_flags defs fl = Inr (vs, [])"
  shows "two_positionals defs (n # a # fl) = Inr ((n, a), vs)"
proof -
  have "n \<noteq> []" "a \<noteq> []" using assms by (auto simp: is_positional_def)
  with assms show ?thesis by (simp add: two_positionals_def)
qed

lemma two_positionals_after:
  assumes "is_positional n" "is_positional a" "parse_flags defs fl = Inr (vs, [])" "fl \<noteq> []"
  shows "two_positionals defs (fl @ [n, a]) = Inr ((n, a), vs)"
proof -
  from assms(4) obtain f fs where fl: "fl = f # fs" by (cases fl) auto
  then have f: "\<not> is_positional f" using flags_first [OF assms(3,4)] by simp
  have "parse_flags defs (fl @ [n, a]) = Inr (vs, [n, a])"
    using assms(1) by (intro parse_flags_append [OF assms(3)]) (simp add: positional_NotAFlag)
  with f show ?thesis by (simp add: two_positionals_def fl)
qed

lemma one_positional_before:
  assumes "is_positional n" "parse_flags defs fl = Inr (vs, [])"
  shows "one_positional defs (n # fl) = Inr (n, vs)"
proof -
  have "n \<noteq> []" using assms by (auto simp: is_positional_def)
  with assms show ?thesis by (simp add: one_positional_def)
qed

lemma one_positional_after:
  assumes "is_positional n" "parse_flags defs fl = Inr (vs, [])" "fl \<noteq> []"
  shows "one_positional defs (fl @ [n]) = Inr (n, vs)"
proof -
  from assms(3) obtain f fs where fl: "fl = f # fs" by (cases fl) auto
  then have f: "\<not> is_positional f" using flags_first [OF assms(2,3)] by simp
  have "parse_flags defs (fl @ [n]) = Inr (vs, [n])"
    using assms(1) by (intro parse_flags_append [OF assms(2)]) (simp add: positional_NotAFlag)
  with f show ?thesis by (simp add: one_positional_def fl)
qed

text \<open>
  The file a command edits, read off its arguments alone: that of its \<open>--config\<close> flag, or the
  default one. A command whose arguments do not parse, or that only prints, edits none.
\<close>

definition two_path :: "string list \<Rightarrow> string option" where
  "two_path as = (case two_positionals (addConfigFlag [''check'' \<mapsto> (\<lambda>_. True)]) as of
     Inl _ \<Rightarrow> None | Inr (_, vs) \<Rightarrow> Some (config_path vs))"

definition one_path :: "string list \<Rightarrow> string option" where
  "one_path as = (case one_positional (addConfigFlag Map.empty) as of
     Inl _ \<Rightarrow> None | Inr (_, vs) \<Rightarrow> Some (config_path vs))"

definition host_edits :: "string list \<Rightarrow> string option" where
  "host_edits args = (case args of [] \<Rightarrow> None
     | a # as \<Rightarrow> if a = ''add'' then two_path as else if a = ''remove'' then one_path as else None)"

definition user_edits :: "string list \<Rightarrow> string option" where
  "user_edits args = (case args of [] \<Rightarrow> None
     | a # as \<Rightarrow> if a = ''add'' \<or> a = ''remove'' then one_path as else None)"

text \<open>
  A command with the result \<open>r\<close> either leaves the files alone, which is an error if it has a
  file to edit, or is the edit cycle on that file.
\<close>

definition edits ::
    "(config \<Rightarrow> config \<Rightarrow> bool) \<Rightarrow> sys \<Rightarrow> string option \<Rightarrow> cli_error option \<times> world \<Rightarrow> world \<Rightarrow> bool" where
  "edits ch sy path r w \<longleftrightarrow>
     files (snd r) = files w \<and> (path = None \<or> fst r \<noteq> None) \<or>
     (\<exists>p fn. path = Some p \<and> config_edit fn ch \<and> r = loadAndMutate sy p fn w)"

lemma edits_stop: "edits ch sy path (Some e, w) w"
  by (simp add: edits_def)

lemma edits_mutate: "config_edit fn ch \<Longrightarrow> edits ch sy (Some p) (loadAndMutate sy p fn w) w"
  unfolding edits_def by blast

lemma edits_runHostAdd: "edits peers_edit sy (two_path as) (runHostAdd sy as w) w"
  by (auto simp: runHostAdd_def two_path_def Let_def edits_stop
      intro!: edits_mutate add_peer.config_edit_axioms split: sum.split)

lemma edits_runHostRemove: "edits peers_edit sy (one_path as) (runHostRemove sy as w) w"
  by (auto simp: runHostRemove_def one_path_def edits_stop
      intro!: edits_mutate remove_peer.config_edit_axioms split: sum.split)

lemma edits_runUserAdd: "edits users_edit sy (one_path as) (runUserAdd sy pw h as w) w"
  by (auto simp: runUserAdd_def one_path_def edits_stop
      intro!: edits_mutate add_user.config_edit_axioms split: sum.split)

lemma edits_runUserRemove: "edits users_edit sy (one_path as) (runUserRemove sy as w) w"
  by (auto simp: runUserRemove_def one_path_def edits_stop
      intro!: edits_mutate remove_user.config_edit_axioms split: sum.split)

lemma files_runHostList: "files (snd (runHostList sy layout as w)) = files w"
  by (simp add: runHostList_def split: sum.split)

lemma edits_runHost: "edits peers_edit sy (host_edits args) (runHost sy layout args w) w"
proof (cases args)
  case (Cons a as)
  then show ?thesis
    using edits_runHostAdd [of sy as w] edits_runHostRemove [of sy as w] files_runHostList [of sy layout as w]
    by (auto simp: runHost_def host_edits_def) (simp_all add: edits_def)
qed (simp add: runHost_def edits_stop)

lemma edits_runUser: "edits users_edit sy (user_edits args) (runUser sy pw h args w) w"
proof (cases args)
  case (Cons a as)
  then show ?thesis
    using edits_runUserAdd [of sy as pw h w] edits_runUserRemove [of sy as w]
    by (auto simp: runUser_def user_edits_def edits_stop)
qed (simp add: runUser_def edits_stop)

lemma files_runConfig: "files (snd (runConfig sy args w)) = files w"
  by (simp add: runConfig_def runConfigValidate_def Let_def case_prod_unfold
      split: list.split sum.split option.split)

text \<open>The paths at which two file systems differ.\<close>

definition changed :: "world \<Rightarrow> world \<Rightarrow> string set" where
  "changed w w' = {p. files w' p \<noteq> files w p}"

lemma mutate_frame:
  assumes "p \<noteq> path" "p \<noteq> tmp_path path"
  shows "files (snd (loadAndMutate sy path fn w)) p = files w p"
  using Save_frame [OF assms] by (simp add: loadAndMutate_def Let_def case_prod_unfold split: sum.split)

lemma edits_changed:
  assumes "edits ch sy path r w"
  shows "changed w (snd r) \<subseteq> (if fst r = None then set_option path else {}) \<union> tmp_path ` set_option path"
proof -
  from assms consider "files (snd r) = files w"
    | q fn where "path = Some q" "r = loadAndMutate sy q fn w"
    unfolding edits_def by blast
  then show ?thesis
  proof cases
    case 2
    then show ?thesis
      using mutate_frame [of _ q sy fn w] mutate_error [of sy q fn w] by (fastforce simp: changed_def)
  qed (simp add: changed_def)
qed

text \<open>
  The edit of the file \<open>path\<close>: it held a configuration and now holds the text of one that differs
  from it in the way \<open>ch\<close> and is valid if it was.
\<close>

definition valid_edit :: "(config \<Rightarrow> config \<Rightarrow> bool) \<Rightarrow> sys \<Rightarrow> string \<Rightarrow> world \<Rightarrow> world \<Rightarrow> bool" where
  "valid_edit ch sy path w w' \<longleftrightarrow>
     (\<exists>c c' b f. Load sy path (files w) = Inr c \<and> ch c c' \<and> marshal sy c' = Inr b \<and>
        files w' path = Some f \<and> content f = b \<and> (Validate c = None \<longrightarrow> Validate c' = None))"

lemma edits_valid:
  assumes "edits ch sy path r w"
  shows "fst r \<noteq> None \<or> (case path of None \<Rightarrow> files (snd r) = files w | Some p \<Rightarrow> valid_edit ch sy p w (snd r))"
proof -
  from assms consider "fst r \<noteq> None" | "path = None" "files (snd r) = files w"
    | q fn where "path = Some q" "config_edit fn ch" "r = loadAndMutate sy q fn w"
    unfolding edits_def by blast
  then show ?thesis
  proof cases
    case 3
    then show ?thesis
      using config_edit.saved_valid [of fn ch sy q w] unfolding valid_edit_def by (cases "fst r") auto
  qed simp_all
qed

section \<open>Properties\<close>

text \<open>
  C32. What the configuration commands write, over every subcommand, unknown and missing ones
  included: \<open>host\<close> and \<open>user\<close> change no file but the one their own arguments name for
  editing and its \<open>.tmp\<close> neighbour, and when they report an error, whatever went wrong
  (arguments, loading, the edit, marshalling, any system call), not the former either;
  \<open>config\<close>, like \<open>host list\<close>, changes no file at all.
\<close>

theorem cli_error_untouched:
  "changed w (snd (runHost sy layout args w)) \<subseteq>
     (if fst (runHost sy layout args w) = None then set_option (host_edits args) else {}) \<union>
     tmp_path ` set_option (host_edits args) \<and>
   changed w (snd (runUser sy pw h args w)) \<subseteq>
     (if fst (runUser sy pw h args w) = None then set_option (user_edits args) else {}) \<union>
     tmp_path ` set_option (user_edits args) \<and>
   changed w (snd (runConfig sy args w)) = {}"
proof -
  have "changed w (snd (runConfig sy args w)) = {}" by (simp add: changed_def files_runConfig)
  with edits_changed [OF edits_runHost] edits_changed [OF edits_runUser] show ?thesis by blast
qed

text \<open>
  C33. A successful \<open>host\<close> or \<open>user\<close> command with a file to edit (\<open>add\<close>,
  \<open>remove\<close>) has loaded a configuration from that file and left there the text of one with one
  peer (user) more, at the end and under a new name, or one less, and no other difference, which passes
  validation if the loaded one did; a successful one without (\<open>host list\<close>) leaves all files as
  they were.
\<close>

theorem cli_edit_keeps_valid:
  "((\<exists>e. fst (runHost sy layout args w) = Some e) \<or>
    (case host_edits args of None \<Rightarrow> files (snd (runHost sy layout args w)) = files w
     | Some path \<Rightarrow> valid_edit peers_edit sy path w (snd (runHost sy layout args w)))) \<and>
   ((\<exists>e. fst (runUser sy pw h args w) = Some e) \<or>
    (case user_edits args of None \<Rightarrow> files (snd (runUser sy pw h args w)) = files w
     | Some path \<Rightarrow> valid_edit users_edit sy path w (snd (runUser sy pw h args w))))"
  using edits_valid [OF edits_runHost] edits_valid [OF edits_runUser] by blast

text \<open>
  C34. Adding a peer and removing it again restores the configuration: if \<open>host add\<close> of a name
  and then \<open>host remove\<close> of it on the same file both succeed, and the arguments were valid UTF-8,
  the file loads as the configuration it held before, through the JSON text of both edits.
\<close>

theorem host_add_remove:
  assumes "fst (runHostAdd (json_sys ns sy) args w) = None"
    and "fst (runHostRemove (json_sys ns' sy') args' (snd (runHostAdd (json_sys ns sy) args w))) = None"
    and "two_positionals (addConfigFlag [''check'' \<mapsto> (\<lambda>_. True)]) args = Inr ((name, addr), vs)"
    and "one_positional (addConfigFlag Map.empty) args' = Inr (name, vs')"
    and "config_path vs' = config_path vs"
    and "utf8_valid name" "utf8_valid addr" "list_all utf8_valid (flag_values ''check'' vs)"
  shows "\<exists>c. Load (json_sys ns sy) (config_path vs) (files w) = Inr c \<and>
    Load (json_sys ns' sy') (config_path vs)
      (files (snd (runHostRemove (json_sys ns' sy') args' (snd (runHostAdd (json_sys ns sy) args w))))) = Inr c"
proof -
  let ?sy = "json_sys ns sy" and ?sy' = "json_sys ns' sy'"
  let ?path = "config_path vs" and ?w1 = "snd (runHostAdd ?sy args w)"
  obtain chs where add: "runHostAdd ?sy args w = loadAndMutate ?sy ?path (add_peer name addr chs) w"
    and chs: "list_all utf8_valid chs"
    using assms(3,8) by (simp add: runHostAdd_def Let_def all_checks_def split: if_splits)
  have rem: "runHostRemove ?sy' args' ?w1 = loadAndMutate ?sy' ?path (remove_peer name) ?w1"
    using assms(4,5) by (simp add: runHostRemove_def)
  from mutate_ok [OF assms(1) [unfolded add]] obtain c c1 l1 where
    c: "Load ?sy ?path (files w) = Inr c" "add_peer name addr chs c = Inr (c1, l1)"
      "fst (Save ?sy ?path c1 (files w)) = None" "files ?w1 = snd (Save ?sy ?path c1 (files w))"
    unfolding add by blast
  from mutate_ok [OF assms(2) [unfolded rem]] obtain c2 c3 l3 where
    r: "Load ?sy' ?path (files ?w1) = Inr c2" "remove_peer name c2 = Inr (c3, l3)"
      "fst (Save ?sy' ?path c3 (files ?w1)) = None"
      "files (snd (runHostRemove ?sy' args' ?w1)) = snd (Save ?sy' ?path c3 (files ?w1))"
    unfolding rem by blast
  have ok: "config_ok c" using json_load_ok [OF c(1)] .
  then have "config_ok c1" using add_peer_ok [OF c(2) _ assms(6,7) chs] by simp
  have read: "sys_read sy' = CallOk" using r(1) by (simp add: Load_ok_iff json_sys_def)
  have "Load ?sy' ?path (files ?w1) = Inr c1"
    unfolding c(4) by (rule json_load_after_save [OF c(3) \<open>config_ok c1\<close> read])
  with r(1) have "c2 = c1" by simp
  moreover have "remove_peer name c1 = Inr (c, ''removed peer '' @ name)"
    using c(2) by (auto simp: add_peer_def remove_peer_def list_ex_iff remove_first_snoc split: if_splits)
  ultimately have "c3 = c" using r(2) by simp
  with json_load_after_save [OF r(3) _ read, of ns'] ok r(4) c(1) show ?thesis by auto
qed

text \<open>
  Positional arguments and flags can be given in either order: for well-formed flags,
  \<open>host add\<close>, \<open>host remove\<close> and the user commands do the same with the names before the
  flags as with the names after them.
\<close>

theorem cli_positional_order:
  assumes "is_positional n" "is_positional a" "fl \<noteq> []"
    and "parse_flags (addConfigFlag [''check'' \<mapsto> (\<lambda>_. True)]) fl = Inr (vs, [])"
    and "fl' \<noteq> []" "parse_flags (addConfigFlag Map.empty) fl' = Inr (vs', [])"
  shows "runHostAdd sy (n # a # fl) w = runHostAdd sy (fl @ [n, a]) w \<and>
    runHostRemove sy (n # fl') w = runHostRemove sy (fl' @ [n]) w \<and>
    runUserAdd sy pw h (n # fl') w = runUserAdd sy pw h (fl' @ [n]) w \<and>
    runUserRemove sy (n # fl') w = runUserRemove sy (fl' @ [n]) w"
  using two_positionals_before [OF assms(1,2,4)] two_positionals_after [OF assms(1,2,4,3)]
    one_positional_before [OF assms(1,6)] one_positional_after [OF assms(1,6,5)]
  by (simp_all add: runHostAdd_def runHostRemove_def runUserAdd_def runUserRemove_def)

theorem cli_positional_order_witness:
  "runHostAdd sample_sys [''b'', ''10.0.0.2'', ''--check=tcp'', ''--config'', ''c''] w =
   runHostAdd sample_sys [''--check=tcp'', ''--config'', ''c'', ''b'', ''10.0.0.2''] w"
proof -
  have "is_positional ''b''" "is_positional ''10.0.0.2''" by (simp_all add: is_positional_def)
  moreover have "parse_flags (addConfigFlag [''check'' \<mapsto> (\<lambda>_. True)]) [''--check=tcp'', ''--config'', ''c''] =
      Inr ([(''check'', ''tcp''), (''config'', ''c'')], [])"
    by (simp add: scan_arg_def addConfigFlag_def set_flag_def)
  moreover have "parse_flags (addConfigFlag Map.empty) [''--config'', ''c''] = Inr ([(''config'', ''c'')], [])"
    by (simp add: scan_arg_def addConfigFlag_def set_flag_def)
  ultimately show ?thesis
    using cli_positional_order [of "''b''" "''10.0.0.2''" "[''--check=tcp'', ''--config'', ''c'']" _
        "[''--config'', ''c'']" _ sample_sys w] by simp
qed

text \<open>A configuration, its text, and a file system that holds it.\<close>

definition cfg0 :: config where
  "cfg0 = newConfigSkeleton ''a'' ''10.0.0.1'' ''ca'' ''crt'' ''key'' 1 2 3 4"

definition cfg1 :: config where
  "cfg1 = cfg0\<lparr>C_Peers := [\<lparr>P_Name = ''b'', P_Addr = ''10.0.0.2'', Checks = all_checks, TCPPort = 0,
     UDPPort = 0, HTTPSURL = []\<rparr>]\<rparr>"

definition no_nil :: nil_slices where
  "no_nil = \<lparr>nil_peers = False, nil_users = False, nil_checks = (\<lambda>_. False)\<rparr>"

definition world0 :: world where
  "world0 = \<lparr>files = [defaultConfigPath \<mapsto> \<lparr>content = marshal_config no_nil cfg0, perm = 384\<rparr>],
             stdout_text = [], warnings_text = []\<rparr>"

lemma utf8_valid_itoa [simp]: "utf8_valid (itoa i)"
  by (rule utf8_valid_ascii) (auto dest!: itoa_chars simp: digit_value_def Let_def split: if_splits)

lemma cfg0_ok: "config_ok cfg0"
  by (simp add: cfg0_def newConfigSkeleton_def ok_defs skeleton_secret_def utf8_valid_append is_int64_def min_int64_def max_int64_def
      del: append.simps)

lemma add_peer_cfg0:
  "add_peer ''b'' ''10.0.0.2'' all_checks cfg0 = Inr (cfg1, ''added peer '' @ ''b'' @ '' ('' @ ''10.0.0.2'' @ '')'')"
  by (simp add: add_peer_def cfg1_def) (simp add: cfg0_def newConfigSkeleton_def)

lemma remove_peer_cfg1: "remove_peer ''b'' cfg1 = Inr (cfg0, ''removed peer '' @ ''b'')"
  by (simp add: remove_peer_def cfg1_def) (simp add: cfg0_def newConfigSkeleton_def)

lemma cfg1_ok: "config_ok cfg1"
  by (rule add_peer_ok [OF add_peer_cfg0 cfg0_ok]) (simp_all add: all_checks_def)

lemma sample_args:
  "two_positionals (addConfigFlag [''check'' \<mapsto> (\<lambda>_. True)]) [''b'', ''10.0.0.2''] = Inr ((''b'', ''10.0.0.2''), [])"
  "one_positional (addConfigFlag Map.empty) [''b''] = Inr (''b'', [])"
  "config_path [] = defaultConfigPath" "flag_values ''check'' [] = []"
  by (simp_all add: two_positionals_def one_positional_def is_positional_def config_path_def
      flag_value_def flag_values_def)

abbreviation file_sys :: sys where "file_sys \<equiv> json_sys no_nil sample_sys"

lemma Save_sample: "fst (Save file_sys path c fl) = None"
  by (simp add: Save_def) (simp add: json_sys_def sample_sys_def write_file_def rename_file_def put_file_def)

theorem host_add_remove_witness:
  "Load file_sys defaultConfigPath
     (files (snd (runHostRemove file_sys [''b''] (snd (runHostAdd file_sys [''b'', ''10.0.0.2''] world0))))) = Inr cfg0"
proof -
  let ?w1 = "snd (runHostAdd file_sys [''b'', ''10.0.0.2''] world0)"
  have read: "sys_read sample_sys = CallOk" "sys_read file_sys = CallOk" by (simp_all add: sample_sys_def json_sys_def)
  have l0: "Load file_sys defaultConfigPath (files world0) = Inr cfg0"
    using decode_marshal [OF cfg0_ok, of no_nil "[]"] by (simp add: Load_ok_iff world0_def read)
  have addd: "runHostAdd file_sys [''b'', ''10.0.0.2''] world0 =
      loadAndMutate file_sys defaultConfigPath (add_peer ''b'' ''10.0.0.2'' all_checks) world0"
    by (simp add: runHostAdd_def sample_args)
  have add: "fst (runHostAdd file_sys [''b'', ''10.0.0.2''] world0) = None"
    "files ?w1 = snd (Save file_sys defaultConfigPath cfg1 (files world0))"
    unfolding addd by (simp_all add: loadAndMutate_def l0 add_peer_cfg0 Let_def case_prod_unfold Save_sample
        del: append.simps)
  have l1: "Load file_sys defaultConfigPath (files ?w1) = Inr cfg1"
    unfolding add(2) by (rule json_load_after_save [OF Save_sample cfg1_ok read(1)])
  have remd: "runHostRemove file_sys [''b''] ?w1 = loadAndMutate file_sys defaultConfigPath (remove_peer ''b'') ?w1"
    by (simp add: runHostRemove_def sample_args)
  have rem: "fst (runHostRemove file_sys [''b''] ?w1) = None"
    unfolding remd by (simp add: loadAndMutate_def l1 remove_peer_cfg1 Let_def case_prod_unfold Save_sample
        del: append.simps)
  from host_add_remove [OF add(1) rem sample_args(1,2) refl] l0
  show ?thesis by (auto simp: sample_args)
qed

text \<open>
  The skeleton configuration is valid exactly when it names its host; its secrets decode to the
  32 bytes 0 to 31.
\<close>

theorem skeleton_valid_iff:
  "Validate (newConfigSkeleton hostName addr caCert hostCert hostKey p1 p2 p3 p4) = None \<longleftrightarrow> hostName \<noteq> []"
proof -
  have "std_decode skeleton_secret = Some (map of_nat [0..<32])"
    by code_simp
  then have "secret_ok skeleton_secret" by (simp add: secret_ok_def)
  then show ?thesis by (simp add: Validate_None_iff newConfigSkeleton_def)
qed

end
