(* ===== verification/Serve.thy ===== *)
theory Serve
  imports Cli_Config Scheduler Aggregator Udp_Prober Udp_Echo Tcp_Prober Http_Prober Icmp_Prober
    Ui_Server Inter_Host
begin

text \<open>
  \<open>internal/pkg/cli/serve.go\<close>: how the daemon checks its configuration and wires its parts
  (store, probers, jobs, scheduler, aggregator, servers), up to the point where the listeners are
  started. Certificates, pools, sockets and the files' PEM content are parameters of the environment.
\<close>

section \<open>Probers and jobs\<close>

datatype 'pool prober_impl =
    TcpImpl tcp_prober
  | HttpImpl "'pool http_prober"
  | UdpImpl udp_prober
  | IcmpImpl icmp_prober duration

definition maxInt :: "int \<Rightarrow> int \<Rightarrow> int" where
  "maxInt a b = (if a > b then a else b)"

text \<open>\<open>icmp_open\<close> is the outcome of opening the raw socket; without it there is no ICMP prober.\<close>

definition mustProbers ::
    "string + unit \<Rightarrow> 'pool \<Rightarrow> byte list \<Rightarrow> config \<Rightarrow> (protocol \<rightharpoonup> 'pool prober_impl)" where
  "mustProbers icmp_open caPool udpSecret cfg =
     (let timeout = seconds (TimeoutSeconds (C_Probe cfg));
          pr = [TCP \<mapsto> TcpImpl (New_tcp timeout),
                HTTPS \<mapsto> HttpImpl (New_http caPool timeout),
                UDP \<mapsto> UdpImpl (New_udp udpSecret (HI_Name (C_Host cfg)) timeout)]
      in case icmp_open of
           Inl _ \<Rightarrow> pr
         | Inr _ \<Rightarrow> pr(ICMP \<mapsto> IcmpImpl New_icmp timeout))"

definition peer_target :: "peer \<Rightarrow> target" where
  "peer_target p =
     \<lparr>tgt_Name = P_Name p, tgt_Addr = P_Addr p, tgt_TCPPort = TCPPort p, tgt_UDPPort = UDPPort p,
      tgt_HTTPSURL = HTTPSURL p\<rparr>"

text \<open>The loop over the checks of a peer, and the loop over the peers.\<close>

fun check_jobs ::
    "(protocol \<rightharpoonup> 'p) \<Rightarrow> peer \<Rightarrow> string list \<Rightarrow> 'p job list \<Rightarrow> 'p job list" where
  "check_jobs pr p [] jobs = jobs"
| "check_jobs pr p (ch # chs) jobs =
     (case pr ch of
        None \<Rightarrow> check_jobs pr p chs jobs
      | Some pb \<Rightarrow>
        check_jobs pr p chs (jobs @ [\<lparr>J_Peer = P_Name p, J_Protocol = ch, J_Target = peer_target p,
                                       J_Prober = pb\<rparr>]))"

fun peer_jobs :: "(protocol \<rightharpoonup> 'p) \<Rightarrow> peer list \<Rightarrow> 'p job list \<Rightarrow> 'p job list" where
  "peer_jobs pr [] jobs = jobs"
| "peer_jobs pr (p # ps) jobs = peer_jobs pr ps (check_jobs pr p (Checks p) jobs)"

definition buildJobs :: "config \<Rightarrow> (protocol \<rightharpoonup> 'p) \<Rightarrow> 'p job list" where
  "buildJobs cfg pr = peer_jobs pr (C_Peers cfg) []"

definition peerNamesList :: "config \<Rightarrow> string list" where
  "peerNamesList cfg = foldl (\<lambda>out p. out @ [P_Name p]) [] (C_Peers cfg)"

section \<open>Maps of names and addresses\<close>

definition peer_names :: "config \<Rightarrow> string \<Rightarrow> bool" where
  "peer_names cfg = foldl (\<lambda>m p. m(P_Name p := True)) ((\<lambda>_. False)(HI_Name (C_Host cfg) := True)) (C_Peers cfg)"

definition peer_urls :: "config \<Rightarrow> string \<Rightarrow> (string \<rightharpoonup> string)" where
  "peer_urls cfg ihPort =
     foldl (\<lambda>m p. m(P_Name p \<mapsto> ''https://'' @ join_host_port (P_Addr p) ihPort))
       [HI_Name (C_Host cfg) \<mapsto> ''https://'' @ join_host_port (AdvertiseAddr (C_Host cfg)) ihPort]
       (C_Peers cfg)"

definition allowed_addrs :: "config \<Rightarrow> (string \<rightharpoonup> bool)" where
  "allowed_addrs cfg = foldl (\<lambda>m p. m(P_Addr p \<mapsto> True)) Map.empty (C_Peers cfg)"

section \<open>The daemon\<close>

datatype serve_error =
    ServeFlag flag_error
  | ServeMode mode_error
  | ServeLoad file_error
  | ServeConfig config_error
  | ServeReadCA string
  | ServeNoCACerts
  | ServeKeyPair string
  | ServeLeaf string
  | ServeNameMismatch string string
  | ServeUDPSecret
  | ServeSessionSecret
  | ServeInterHostAddr addr_error
  | ServeUDPListen string

text \<open>
  The environment: the codec, the outcomes of the calls on the configuration file, of reading and
  parsing the certificates, and of opening the two sockets.
\<close>

record ('pool, 'cert) serve_env =
  se_sys :: sys
  se_stat :: call_outcome
  se_read_ca :: "string \<Rightarrow> string + string"
  se_ca_pool :: "string \<Rightarrow> 'pool option"
  se_key_pair :: "string \<Rightarrow> string \<Rightarrow> string + 'cert"
  se_leaf_cn :: "'cert \<Rightarrow> string + string"
  se_icmp_open :: "string + unit"
  se_udp_listen :: "string \<Rightarrow> string + unit"

record ('pool, 'cert) daemon =
  d_cfg :: config
  d_sched :: "'pool prober_impl scheduler"
  d_agg :: aggregator
  d_client :: client
  d_client_tls :: "('cert, 'pool) tls_config"
  d_peers :: "string \<Rightarrow> bool"
  d_interhost_tls :: "('cert, 'pool) tls_config"
  d_ui_tls :: "('cert, 'pool) tls_config"
  d_listen :: "string list"
  d_session :: session
  d_login :: login_handler
  d_sse_interval :: duration
  d_echo :: udp_echo

text \<open>The UI server identifies itself and asks the browser for no certificate.\<close>

definition ui_tls :: "'cert \<Rightarrow> ('cert, 'pool) tls_config" where
  "ui_tls cert =
     \<lparr>Certificates = [cert], ClientCAs = None, RootCAs = None, ClientAuth = NoClientCert,
      MinVersion = VersionTLS12\<rparr>"

definition sched_config_of :: "config \<Rightarrow> nat \<Rightarrow> sched_config" where
  "sched_config_of cfg njobs =
     \<lparr>Interval = seconds (IntervalSeconds (C_Probe cfg)), Jitter = JitterPercent (C_Probe cfg),
      Workers = maxInt (2 * int njobs) 4, Timeout = seconds (TimeoutSeconds (C_Probe cfg))\<rparr>"

text \<open>From the certificates on: the secrets, the parts and the maps between them.\<close>

definition serve_wire ::
    "('pool, 'cert) serve_env \<Rightarrow> config \<Rightarrow> 'pool \<Rightarrow> 'cert \<Rightarrow> serve_error + ('pool, 'cert) daemon" where
  "serve_wire env cfg caPool cert =
     (case std_decode (UDPSharedSecret (C_Probe cfg)) of
        None \<Rightarrow> Inl ServeUDPSecret
      | Some udpSecret \<Rightarrow>
        (case std_decode (SessionSecret (C_UI cfg)) of
           None \<Rightarrow> Inl ServeSessionSecret
         | Some sessionSecret \<Rightarrow>
           let st = New_store (RingbufferSize (C_Probe cfg));
               jobs = buildJobs cfg (mustProbers (se_icmp_open env) caPool udpSecret cfg);
               sched = New_sched (sched_config_of cfg (length jobs)) jobs st
           in (case split_host_port (LA_Addr (L_InterHost (C_Listeners cfg))) of
                 Inl e \<Rightarrow> Inl (ServeInterHostAddr e)
               | Inr (_, ihPort) \<Rightarrow>
                 let agg = \<lparr>localHost = HI_Name (C_Host cfg), peers = peerNamesList cfg,
                            agg_window = FailureWindow (C_Probe cfg),
                            agg_threshold = FailureThreshold (C_Probe cfg), agg_timeout = 2 * second\<rparr>;
                     sess = NewSession sessionSecret (seconds (SessionTTLSeconds (C_UI cfg)))
                 in (case NewUDPEcho (se_udp_listen env (UDPAddr (L_Probe (C_Listeners cfg)))) udpSecret
                            (allowed_addrs cfg) of
                       Inl e \<Rightarrow> Inl (ServeUDPListen e)
                     | Inr echo \<Rightarrow> Inr
                         \<lparr>d_cfg = cfg, d_sched = sched, d_agg = agg,
                          d_client = NewClient (peer_urls cfg ihPort),
                          d_client_tls = ClientTLSConfig caPool cert,
                          d_peers = peer_names cfg,
                          d_interhost_tls = ServerTLSConfig cert caPool, d_ui_tls = ui_tls cert,
                          d_listen = [LA_Addr (L_InterHost (C_Listeners cfg)), LA_Addr (L_UI (C_Listeners cfg)),
                                      HTTPAddr (L_Probe (C_Listeners cfg)), UDPAddr (L_Probe (C_Listeners cfg))],
                          d_session = sess,
                          d_login = NewLoginHandler (Users (C_UI cfg)) sess (250 * millisecond),
                          d_sse_interval = second, d_echo = echo\<rparr>))))"

definition runServe ::
    "('pool, 'cert) serve_env \<Rightarrow> string list \<Rightarrow> fs \<Rightarrow> serve_error + ('pool, 'cert) daemon" where
  "runServe env args fl =
     (case parse_flags (addConfigFlag Map.empty) args of
        Inl e \<Rightarrow> Inl (ServeFlag e)
      | Inr (vs, _) \<Rightarrow>
        let path = config_path vs in
        (case CheckMode (stat_perm (se_stat env) path fl) of
           Some e \<Rightarrow> Inl (ServeMode e)
         | None \<Rightarrow>
           (case Load (se_sys env) path fl of
              Inl e \<Rightarrow> Inl (ServeLoad e)
            | Inr cfg \<Rightarrow>
              (case snd (ValidateWithWarnings cfg) of
                 Some e \<Rightarrow> Inl (ServeConfig e)
               | None \<Rightarrow>
                 (case se_read_ca env (CACertPath (C_PKI cfg)) of
                    Inl e \<Rightarrow> Inl (ServeReadCA e)
                  | Inr pem \<Rightarrow>
                    (case se_ca_pool env pem of
                       None \<Rightarrow> Inl ServeNoCACerts
                     | Some caPool \<Rightarrow>
                       (case se_key_pair env (HostCertPath (C_PKI cfg)) (HostKeyPath (C_PKI cfg)) of
                          Inl e \<Rightarrow> Inl (ServeKeyPair e)
                        | Inr cert \<Rightarrow>
                          (case se_leaf_cn env cert of
                             Inl e \<Rightarrow> Inl (ServeLeaf e)
                           | Inr cn \<Rightarrow>
                             if cn \<noteq> HI_Name (C_Host cfg)
                             then Inl (ServeNameMismatch (HI_Name (C_Host cfg)) cn)
                             else serve_wire env cfg caPool cert))))))))"

text \<open>The handlers of the running daemon, for the outcome of a local view or of the aggregations.\<close>

definition daemon_interhost ::
    "(string \<Rightarrow> response \<Rightarrow> response) \<Rightarrow> (observer_view \<Rightarrow> string option) \<Rightarrow> (string \<Rightarrow> string) \<Rightarrow> string \<Rightarrow>
     ('pool, 'cert) daemon \<Rightarrow> panic + observer_view \<Rightarrow> handler" where
  "daemon_interhost redirect encode quote ver d local =
     NewMux_peer redirect encode quote ver \<lparr>IH_Peers = d_peers d, IH_FetchLocal = local\<rparr>"

definition daemon_ui ::
    "(string \<Rightarrow> response \<Rightarrow> response) \<Rightarrow> (mesh_view \<Rightarrow> string option) \<Rightarrow> static_fs \<Rightarrow> string \<Rightarrow>
     (string \<Rightarrow> string \<Rightarrow> bool) \<Rightarrow> bool \<Rightarrow> ('pool, 'cert) daemon \<Rightarrow> (panic + mesh_view) list \<Rightarrow> handler" where
  "daemon_ui redirect marshal_view static ver bcrypt flushable d views =
     NewMux_ui redirect static ver
       \<lparr>D_Login = Some (login_ServeHTTP bcrypt (d_login d)),
        D_SSE = Some (NewSSEHandler marshal_view flushable (d_sse_interval d) views),
        D_Session = Some (d_session d)\<rparr>"

section \<open>Lemmas\<close>

definition peer_job :: "(protocol \<rightharpoonup> 'p) \<Rightarrow> peer \<Rightarrow> string \<Rightarrow> 'p job" where
  "peer_job pr p ch =
     \<lparr>J_Peer = P_Name p, J_Protocol = ch, J_Target = peer_target p, J_Prober = the (pr ch)\<rparr>"

lemma check_jobs_eq:
  "check_jobs pr p chs jobs = jobs @ map (peer_job pr p) (filter (\<lambda>ch. pr ch \<noteq> None) chs)"
  by (induction chs arbitrary: jobs) (auto simp: peer_job_def split: option.splits)

lemma peer_jobs_eq:
  "peer_jobs pr ps jobs =
     jobs @ concat (map (\<lambda>p. map (peer_job pr p) (filter (\<lambda>ch. pr ch \<noteq> None) (Checks p))) ps)"
  by (induction ps arbitrary: jobs) (simp_all add: check_jobs_eq)

lemma set_buildJobs:
  "set (buildJobs cfg pr) =
     {peer_job pr p ch | p ch. p \<in> set (C_Peers cfg) \<and> ch \<in> set (Checks p) \<and> pr ch \<noteq> None}"
  by (auto simp: buildJobs_def peer_jobs_eq)

text \<open>The jobs as one list comprehension.\<close>

definition opt_list :: "'a option \<Rightarrow> 'a list" where
  "opt_list x = (case x of None \<Rightarrow> [] | Some y \<Rightarrow> [y])"

lemma buildJobs_list:
  "buildJobs cfg pr =
     [\<lparr>J_Peer = P_Name p, J_Protocol = ch, J_Target = peer_target p, J_Prober = pb\<rparr>.
      p \<leftarrow> C_Peers cfg, ch \<leftarrow> Checks p, pb \<leftarrow> opt_list (pr ch)]"
proof -
  have "map (peer_job pr p) (filter (\<lambda>ch. pr ch \<noteq> None) chs) =
      [\<lparr>J_Peer = P_Name p, J_Protocol = ch, J_Target = peer_target p, J_Prober = pb\<rparr>.
       ch \<leftarrow> chs, pb \<leftarrow> opt_list (pr ch)]" for p chs
    by (induction chs) (auto simp: peer_job_def opt_list_def)
  then show ?thesis by (simp add: buildJobs_def peer_jobs_eq)
qed

lemma mustProbers_dom: "mustProbers icmp_open caPool sec cfg ch \<noteq> None \<Longrightarrow> validChecks ch"
  by (auto simp: mustProbers_def validChecks_def protocol_defs Let_def split: sum.splits if_splits)

lemma peerNamesList_eq: "peerNamesList cfg = map P_Name (C_Peers cfg)"
proof -
  have "foldl (\<lambda>out p. out @ [P_Name p]) acc ps = acc @ map P_Name ps" for acc and ps :: "peer list"
    by (induction ps arbitrary: acc) auto
  then show ?thesis by (simp add: peerNamesList_def)
qed

lemma peer_names_iff: "peer_names cfg n \<longleftrightarrow> n = HI_Name (C_Host cfg) \<or> n \<in> P_Name ` set (C_Peers cfg)"
proof -
  have "foldl (\<lambda>m p. m(P_Name p := True)) m ps n \<longleftrightarrow> m n \<or> n \<in> P_Name ` set ps" for m and ps :: "peer list"
    by (induction ps arbitrary: m) auto
  then show ?thesis by (simp add: peer_names_def)
qed

lemma allowed_addrs_iff: "allowed_addrs cfg a = Some True \<longleftrightarrow> a \<in> P_Addr ` set (C_Peers cfg)"
proof -
  have "foldl (\<lambda>m p. m(P_Addr p \<mapsto> True)) m ps a = Some True \<longleftrightarrow> m a = Some True \<or> a \<in> P_Addr ` set ps"
    for m :: "string \<rightharpoonup> bool" and ps :: "peer list"
    by (induction ps arbitrary: m) auto
  then show ?thesis by (simp add: allowed_addrs_def)
qed

lemma NewUDPEcho_fields:
  "NewUDPEcho l sec al = Inr e \<Longrightarrow>
     echo_secret e = sec \<and> allowed e = al \<and> tsWindow e = 30 * second \<and> seen (replay e) = Map.empty"
  by (auto simp: NewUDPEcho_def NewReplayCache_def ok_iff)

text \<open>What a daemon that started is made of.\<close>

lemma serve_wire_InrD:
  assumes "serve_wire env cfg caPool cert = Inr d"
  shows "\<exists>udpSecret sessionSecret jobs ihPort.
    std_decode (UDPSharedSecret (C_Probe cfg)) = Some udpSecret \<and>
    std_decode (SessionSecret (C_UI cfg)) = Some sessionSecret \<and>
    jobs = buildJobs cfg (mustProbers (se_icmp_open env) caPool udpSecret cfg) \<and>
    d_cfg d = cfg \<and>
    d_sched d = New_sched (sched_config_of cfg (length jobs)) jobs (New_store (RingbufferSize (C_Probe cfg))) \<and>
    d_agg d = \<lparr>localHost = HI_Name (C_Host cfg), peers = peerNamesList cfg,
               agg_window = FailureWindow (C_Probe cfg),
               agg_threshold = FailureThreshold (C_Probe cfg), agg_timeout = 2 * second\<rparr> \<and>
    d_client d = NewClient (peer_urls cfg ihPort) \<and> d_peers d = peer_names cfg \<and>
    d_session d = NewSession sessionSecret (seconds (SessionTTLSeconds (C_UI cfg))) \<and>
    d_login d = NewLoginHandler (Users (C_UI cfg)) (d_session d) (250 * millisecond) \<and>
    NewUDPEcho (Inr ()) udpSecret (allowed_addrs cfg) = Inr (d_echo d)"
proof -
  from assms obtain us ss host port echo where
    "std_decode (UDPSharedSecret (C_Probe cfg)) = Some us" "std_decode (SessionSecret (C_UI cfg)) = Some ss"
    "split_host_port (LA_Addr (L_InterHost (C_Listeners cfg))) = Inr (host, port)"
    "NewUDPEcho (se_udp_listen env (UDPAddr (L_Probe (C_Listeners cfg)))) us (allowed_addrs cfg) = Inr echo"
    by (auto simp: serve_wire_def Let_def split: option.splits sum.splits)
  with assms show ?thesis
    by (intro exI [of _ us] exI [of _ ss]
        exI [of _ "buildJobs cfg (mustProbers (se_icmp_open env) caPool us cfg)"] exI [of _ port])
      (auto simp: serve_wire_def Let_def NewUDPEcho_def ok_iff)
qed

lemma runServe_InrD:
  assumes "runServe env args fl = Inr d"
  shows "\<exists>path f caPool cert. fl path = Some f \<and> perm f = 384 \<and>
    Load (se_sys env) path fl = Inr (d_cfg d) \<and> Validate (d_cfg d) = None \<and>
    se_key_pair env (HostCertPath (C_PKI (d_cfg d))) (HostKeyPath (C_PKI (d_cfg d))) = Inr cert \<and>
    se_leaf_cn env cert = Inr (HI_Name (C_Host (d_cfg d))) \<and>
    serve_wire env (d_cfg d) caPool cert = Inr d"
proof -
  from assms obtain vs rest cfg pem caPool cert where
    p: "parse_flags (addConfigFlag Map.empty) args = Inr (vs, rest)"
      "CheckMode (stat_perm (se_stat env) (config_path vs) fl) = None"
      "Load (se_sys env) (config_path vs) fl = Inr cfg" "Validate cfg = None"
      "se_key_pair env (HostCertPath (C_PKI cfg)) (HostKeyPath (C_PKI cfg)) = Inr cert"
      "se_leaf_cn env cert = Inr (HI_Name (C_Host cfg))"
      "serve_wire env cfg caPool cert = Inr d"
    by (auto simp: runServe_def Let_def Validate_def split: sum.splits option.splits if_splits)
  from p(2) obtain f where "fl (config_path vs) = Some f" "perm f = 384"
    by (auto simp: CheckMode_def stat_perm_def split: sum.splits call_outcome.splits option.splits if_splits)
  moreover have "d_cfg d = cfg" using serve_wire_InrD [OF p(7)] by blast
  ultimately show ?thesis using p by blast
qed

text \<open>The pool is that of the configured CA file.\<close>

lemma runServe_pool:
  assumes "runServe env args fl = Inr d"
  shows "\<exists>pem caPool cert. se_read_ca env (CACertPath (C_PKI (d_cfg d))) = Inr pem \<and>
    se_ca_pool env pem = Some caPool \<and> serve_wire env (d_cfg d) caPool cert = Inr d"
proof -
  from assms obtain cfg pem caPool cert where
    p: "se_read_ca env (CACertPath (C_PKI cfg)) = Inr pem" "se_ca_pool env pem = Some caPool"
      "serve_wire env cfg caPool cert = Inr d"
    by (auto simp: runServe_def Let_def split: sum.splits option.splits if_splits)
  moreover have "d_cfg d = cfg" using serve_wire_InrD [OF p(3)] by blast
  ultimately show ?thesis by blast
qed

text \<open>The URLs of the client: the own one and one per peer.\<close>

lemma dom_peer_urls: "dom (peer_urls cfg ihPort) = insert (HI_Name (C_Host cfg)) (P_Name ` set (C_Peers cfg))"
proof -
  have "dom (foldl (\<lambda>m p. m(P_Name p \<mapsto> ''https://'' @ join_host_port (P_Addr p) ihPort)) m ps) =
      dom m \<union> P_Name ` set ps" for m :: "string \<rightharpoonup> string" and ps :: "peer list"
    by (induction ps arbitrary: m) auto
  then show ?thesis by (simp add: peer_urls_def)
qed

text \<open>With distinct names each peer has its own address in the map.\<close>

lemma foldl_upd_other:
  "n \<notin> f ` set ps \<Longrightarrow> foldl (\<lambda>m p. m(f p \<mapsto> g p)) m ps n = m n"
  by (induction ps arbitrary: m) simp_all

lemma foldl_upd_distinct:
  "distinct (map f ps) \<Longrightarrow> p \<in> set ps \<Longrightarrow> foldl (\<lambda>m p. m(f p \<mapsto> g p)) m ps (f p) = Some (g p)"
proof (induction ps arbitrary: m)
  case (Cons q ps)
  show ?case
  proof (cases "p = q")
    case True
    with Cons.prems have "f p \<notin> f ` set ps" by auto
    from foldl_upd_other [OF this, of g "m(f p \<mapsto> g p)"] show ?thesis
      by (simp only: True foldl.simps fun_upd_same)
  next
    case False
    with Cons show ?thesis by simp
  qed
qed simp

lemma peer_urls_peer:
  assumes "distinct (map P_Name (C_Peers cfg))" "p \<in> set (C_Peers cfg)"
  shows "peer_urls cfg ihPort (P_Name p) = Some (''https://'' @ join_host_port (P_Addr p) ihPort)"
  unfolding peer_urls_def by (rule foldl_upd_distinct [OF assms])

text \<open>The keys a running daemon has results for are the checks of its peers.\<close>

lemma daemon_keys:
  assumes "runServe env args fl = Inr d" and "sched_run (d_sched d) es s" and "k \<in> fst ` set (appends es)"
  shows "\<exists>p \<in> set (C_Peers (d_cfg d)). P_Name p = Peer k \<and> Protocol k \<in> set (Checks p) \<and> validChecks (Protocol k)"
proof -
  from runServe_InrD [OF assms(1)] obtain caPool cert where
    "serve_wire env (d_cfg d) caPool cert = Inr d" by blast
  from serve_wire_InrD [OF this] obtain sec jobs where
    jobs: "jobs = buildJobs (d_cfg d) (mustProbers (se_icmp_open env) caPool sec (d_cfg d))"
    and sched: "d_sched d = New_sched (sched_config_of (d_cfg d) (length jobs)) jobs
      (New_store (RingbufferSize (C_Probe (d_cfg d))))" by blast
  have "fst ` set (appends es) = job_key ` fst ` set (finished es)"
    by (simp add: appends_def image_image)
  with assms(3) obtain j where "j \<in> fst ` set (finished es)" "k = job_key j" by blast
  with run_finished [OF assms(2)] have "j \<in> set jobs" "k = job_key j" by (auto simp: sched)
  with jobs show ?thesis
    using mustProbers_dom [of "se_icmp_open env" caPool sec "d_cfg d"]
    by (auto simp: set_buildJobs peer_job_def job_key_def)
qed

text \<open>Its store is what appending the finished results makes of the empty one.\<close>

lemma daemon_store:
  assumes "runServe env args fl = Inr d" and "sched_run (d_sched d) es s"
  shows "run_all append_key (appends es) (New_store (RingbufferSize (C_Probe (d_cfg d)))) = Inr (st_store s)"
    and "localHost (d_agg d) = HI_Name (C_Host (d_cfg d))" and "peers (d_agg d) = map P_Name (C_Peers (d_cfg d))"
    and "agg_window (d_agg d) = FailureWindow (C_Probe (d_cfg d))"
    and "agg_threshold (d_agg d) = FailureThreshold (C_Probe (d_cfg d))"
proof -
  from runServe_InrD [OF assms(1)] obtain caPool cert where
    "serve_wire env (d_cfg d) caPool cert = Inr d" by blast
  from serve_wire_InrD [OF this] have st: "sch_store (d_sched d) = New_store (RingbufferSize (C_Probe (d_cfg d)))"
    and agg: "localHost (d_agg d) = HI_Name (C_Host (d_cfg d))" "peers (d_agg d) = peerNamesList (d_cfg d)"
      "agg_window (d_agg d) = FailureWindow (C_Probe (d_cfg d))"
      "agg_threshold (d_agg d) = FailureThreshold (C_Probe (d_cfg d))" by auto
  have "store_inv (sch_store (d_sched d))" by (simp add: st)
  from run_store(1) [OF assms(2) this] show
    "run_all append_key (appends es) (New_store (RingbufferSize (C_Probe (d_cfg d)))) = Inr (st_store s)"
    by (simp add: st)
  from agg show "localHost (d_agg d) = HI_Name (C_Host (d_cfg d))" "peers (d_agg d) = map P_Name (C_Peers (d_cfg d))"
    "agg_window (d_agg d) = FailureWindow (C_Probe (d_cfg d))"
    "agg_threshold (d_agg d) = FailureThreshold (C_Probe (d_cfg d))" by (simp_all add: peerNamesList_eq)
qed

text \<open>The local view of a running daemon.\<close>

lemma daemon_view:
  assumes "runServe env args fl = Inr d" and "sched_run (d_sched d) es s"
    and "map_order (bufs (st_store s)) order"
    and "0 \<le> FailureWindow (C_Probe (d_cfg d))"
    and "FailureWindow (C_Probe (d_cfg d)) \<le> max 1 (RingbufferSize (C_Probe (d_cfg d)))"
  shows "\<exists>v. localView (d_agg d) order (st_store s) = Inr v \<and> Host v = HI_Name (C_Host (d_cfg d)) \<and> Reachable v \<and>
    (\<forall>k. if k \<in> fst ` set (appends es)
         then (\<exists>st. Classify (history k (appends es)) (FailureWindow (C_Probe (d_cfg d)))
                     (FailureThreshold (C_Probe (d_cfg d))) = Inr st \<and>
                   sample_at v k = Some \<lparr>State = state_text st, LastTS = Timestamp (last (history k (appends es)))\<rparr>)
         else sample_at v k = None)"
  using localView_history [OF daemon_store(1) [OF assms(1,2)] assms(3), of "d_agg d"] assms(4,5)
  unfolding daemon_store(2-) [OF assms(1,2)] by blast

section \<open>Properties\<close>

text \<open>
  C1. The daemon end to end: for a daemon that started with a window between 0 and the ring buffer
  size, after any run of its scheduler, under every interleaving, its local view has exactly the keys
  for which a probe finished; each state is the classification of the whole history of that key's
  results, each time stamp that of the newest; and every key is a configured peer with one of its
  known checks.
\<close>

theorem serve_view:
  assumes "runServe env args fl = Inr d" and "sched_run (d_sched d) es s"
    and "map_order (bufs (st_store s)) order"
    and "0 \<le> FailureWindow (C_Probe (d_cfg d))"
    and "FailureWindow (C_Probe (d_cfg d)) \<le> max 1 (RingbufferSize (C_Probe (d_cfg d)))"
  shows "\<exists>v. localView (d_agg d) order (st_store s) = Inr v \<and> Host v = HI_Name (C_Host (d_cfg d)) \<and>
    (\<forall>k. if k \<in> fst ` set (appends es)
         then (\<exists>st. Classify (history k (appends es)) (FailureWindow (C_Probe (d_cfg d)))
                     (FailureThreshold (C_Probe (d_cfg d))) = Inr st \<and>
                   sample_at v k = Some \<lparr>State = state_text st, LastTS = Timestamp (last (history k (appends es)))\<rparr>) \<and>
              (\<exists>p \<in> set (C_Peers (d_cfg d)). P_Name p = Peer k \<and> Protocol k \<in> set (Checks p) \<and>
                 validChecks (Protocol k))
         else sample_at v k = None)"
proof -
  from daemon_view [OF assms] obtain v where v: "localView (d_agg d) order (st_store s) = Inr v"
    "Host v = HI_Name (C_Host (d_cfg d))"
    and all: "\<forall>k. if k \<in> fst ` set (appends es)
         then (\<exists>st. Classify (history k (appends es)) (FailureWindow (C_Probe (d_cfg d)))
                     (FailureThreshold (C_Probe (d_cfg d))) = Inr st \<and>
                   sample_at v k = Some \<lparr>State = state_text st, LastTS = Timestamp (last (history k (appends es)))\<rparr>)
         else sample_at v k = None" by blast
  with daemon_keys [OF assms(1,2)] show ?thesis by (intro exI [of _ v]) simp
qed

text \<open>A configuration with one peer and one check, and an environment in which it starts.\<close>

definition sample_peer :: "string \<Rightarrow> peer" where
  "sample_peer ch = \<lparr>P_Name = ''b'', P_Addr = ''10.0.0.2'', Checks = [ch], TCPPort = 22, UDPPort = 0, HTTPSURL = []\<rparr>"

definition sample_cfg :: "string \<Rightarrow> int \<Rightarrow> config" where
  "sample_cfg ch w =
     (newConfigSkeleton ''a'' ''10.0.0.1'' ''ca'' ''crt'' ''key'' 1 2 3 4)\<lparr>
       C_Probe := \<lparr>IntervalSeconds = 10, JitterPercent = 0, TimeoutSeconds = 3, FailureWindow = w,
         FailureThreshold = w, RingbufferSize = 100, UDPSharedSecret = skeleton_secret\<rparr>,
       C_Peers := [sample_peer ch]\<rparr>"

definition sample_env :: "config \<Rightarrow> (unit, unit) serve_env" where
  "sample_env cfg =
     \<lparr>se_sys = sample_sys\<lparr>decode := (\<lambda>_. Inr cfg)\<rparr>, se_stat = CallOk, se_read_ca = (\<lambda>_. Inr ''pem''),
      se_ca_pool = (\<lambda>_. Some ()), se_key_pair = (\<lambda>_ _. Inr ()), se_leaf_cn = (\<lambda>_. Inr ''a''),
      se_icmp_open = Inl ''operation not permitted'', se_udp_listen = (\<lambda>_. Inr ())\<rparr>"

definition sample_fs :: fs where
  "sample_fs = [defaultConfigPath \<mapsto> \<lparr>content = [], perm = 384\<rparr>]"

definition sample_job :: "string \<Rightarrow> unit prober_impl job" where
  "sample_job ch = peer_job
     [TCP \<mapsto> TcpImpl (New_tcp (seconds 3)),
      UDP \<mapsto> UdpImpl (New_udp (the (std_decode skeleton_secret)) ''a'' (seconds 3))] (sample_peer ch) ch"

lemma skeleton_secret_ok: "\<exists>raw. std_decode skeleton_secret = Some raw \<and> length raw = 32"
proof -
  have "std_decode skeleton_secret = Some (map of_nat [0..<32])" by code_simp
  then show ?thesis by simp
qed

lemma sample_cfg_valid: "Validate (sample_cfg ch w) = None"
  using skeleton_secret_ok
  by (simp add: Validate_None_iff sample_cfg_def newConfigSkeleton_def secret_ok_def)

lemma sample_jobs:
  assumes "ch = ''tcp'' \<or> ch = ''udp''" "std_decode skeleton_secret = Some sec"
  shows "buildJobs (sample_cfg ch w) (mustProbers (Inl e) () sec (sample_cfg ch w)) = [(sample_job ch)]"
  using assms
  by (auto simp: buildJobs_def sample_cfg_def sample_peer_def mustProbers_def protocol_defs Let_def
      sample_job_def peer_job_def newConfigSkeleton_def)

lemma sample_starts_from:
  assumes "ch = ''tcp'' \<or> ch = ''udp''" and load: "Load sy defaultConfigPath fl = Inr (sample_cfg ch w)"
    and mode: "CheckMode (stat_perm CallOk defaultConfigPath fl) = None"
  shows "\<exists>d. runServe ((sample_env (sample_cfg ch w))\<lparr>se_sys := sy\<rparr>) [] fl = Inr d \<and> d_cfg d = sample_cfg ch w \<and>
     d_sched d = New_sched (sched_config_of (sample_cfg ch w) 1) [(sample_job ch)] (New_store 100)"
proof -
  obtain raw where raw: "std_decode skeleton_secret = Some raw" using skeleton_secret_ok by blast
  have addr: "split_host_port (''127.0.0.1:'' @ itoa 1) = Inr (''127.0.0.1'', itoa 1)"
    using split_join_host_port [of "''127.0.0.1''" "itoa 1"] itoa_no_punctuation [of 1]
    by (simp add: join_host_port_def)
  have cfg: "UDPSharedSecret (C_Probe (sample_cfg ch w)) = skeleton_secret"
    "SessionSecret (C_UI (sample_cfg ch w)) = skeleton_secret"
    "LA_Addr (L_InterHost (C_Listeners (sample_cfg ch w))) = ''127.0.0.1:'' @ itoa 1"
    "RingbufferSize (C_Probe (sample_cfg ch w)) = 100" "HI_Name (C_Host (sample_cfg ch w)) = ''a''"
    by (simp_all add: sample_cfg_def newConfigSkeleton_def)
  have val: "snd (ValidateWithWarnings (sample_cfg ch w)) = None"
    using sample_cfg_valid by (simp add: Validate_def)
  show ?thesis
    unfolding runServe_def serve_wire_def
    by (simp add: config_path_def flag_value_def load mode val sample_env_def cfg raw addr sample_jobs [OF assms(1) raw]
        NewUDPEcho_def Let_def del: append.simps)
qed

lemma sample_mode: "fl defaultConfigPath = Some \<lparr>content = t, perm = 384\<rparr> \<Longrightarrow> CheckMode (stat_perm CallOk defaultConfigPath fl) = None"
  by (simp add: CheckMode_def stat_perm_def)

lemma sample_starts:
  assumes "ch = ''tcp'' \<or> ch = ''udp''"
  shows "\<exists>d. runServe (sample_env (sample_cfg ch w)) [] sample_fs = Inr d \<and> d_cfg d = sample_cfg ch w \<and>
     d_sched d = New_sched (sched_config_of (sample_cfg ch w) 1) [(sample_job ch)] (New_store 100)"
proof -
  have "Load (sample_sys\<lparr>decode := (\<lambda>_. Inr (sample_cfg ch w))\<rparr>) defaultConfigPath sample_fs = Inr (sample_cfg ch w)"
    by (simp add: Load_ok_iff sample_sys_def sample_fs_def)
  from sample_starts_from [OF assms this sample_mode] show ?thesis
    by (simp add: sample_fs_def sample_env_def)
qed

lemma sample_run:
  "\<exists>s. sched_exec (New_sched (sched_config_of (sample_cfg ch w) 1) [(sample_job ch)] (New_store 100))
     [Tick 0 0, Fire 0, Send 0, Take 0 (sample_job ch), Finish 0 (sample_job ch) r]
     (sched_init (New_sched (sched_config_of (sample_cfg ch w) 1) [(sample_job ch)] (New_store 100))) = Some s"
proof -
  from Append_ok [OF store_inv_New, of "job_key (sample_job ch)" r 100] obtain st where
    "Append (J_Peer (sample_job ch)) (J_Protocol (sample_job ch)) r (New_store 100) = Inr st"
    by (auto simp: append_key_job)
  then show ?thesis
    by (simp add: New_sched_def sched_config_of_def sample_cfg_def newConfigSkeleton_def maxInt_def
        sched_init_def step_defs next_delay_def set_ticker_def set_worker_def is_busy_def)
qed

lemma sample_one_result:
  assumes "d_sched d = New_sched (sched_config_of (sample_cfg ch w) 1) [(sample_job ch)] (New_store 100)"
  shows "\<exists>es s. sched_run (d_sched d) es s \<and> appends es = [(job_key (sample_job ch), zero_result)] \<and>
    map_order (bufs (st_store s)) [job_key (sample_job ch)]"
proof -
  let ?es = "[Tick 0 0, Fire 0, Send 0, Take 0 (sample_job ch), Finish 0 (sample_job ch) zero_result]"
  obtain s where s: "sched_run (d_sched d) ?es s"
    using sample_run [of ch w zero_result] sched_exec_from_start unfolding assms by blast
  have app: "appends ?es = [(job_key (sample_job ch), zero_result)]" by (simp add: appends_def finished_def)
  have "run_all append_key (appends ?es) (New_store 100) = Inr (st_store s)"
    using run_store(1) [OF s] by (simp add: assms)
  then have "map_order (bufs (st_store s)) [job_key (sample_job ch)]"
    using store_run [OF store_inv_New, of "appends ?es" 100]
    by (auto simp: app map_order_def New_store_def)
  with s app show ?thesis by blast
qed

theorem serve_view_witness:
  "\<exists>d (s :: unit prober_impl sched) v. runServe (sample_env (sample_cfg ''tcp'' 1)) [] sample_fs = Inr d \<and>
     localView (d_agg d) [job_key (sample_job ''tcp'')] (st_store s) = Inr v \<and>
     sample_at v (job_key (sample_job ''tcp'')) = Some \<lparr>State = state_text Down, LastTS = zero_time\<rparr>"
proof -
  let ?k = "job_key (sample_job ''tcp'')"
  obtain d where d: "runServe (sample_env (sample_cfg ''tcp'' 1)) [] sample_fs = Inr d" "d_cfg d = sample_cfg ''tcp'' 1"
    "d_sched d = New_sched (sched_config_of (sample_cfg ''tcp'' 1) 1) [(sample_job ''tcp'')] (New_store 100)"
    using sample_starts [of "''tcp''"] by blast
  from sample_one_result [OF d(3)] obtain es s where s: "sched_run (d_sched d) es s"
    and app: "appends es = [(?k, zero_result)]" and order: "map_order (bufs (st_store s)) [?k]" by blast
  have w: "FailureWindow (C_Probe (d_cfg d)) = 1" "FailureThreshold (C_Probe (d_cfg d)) = 1"
    "RingbufferSize (C_Probe (d_cfg d)) = 100"
    by (simp_all add: d(2) sample_cfg_def)
  have cl: "Classify [zero_result] 1 1 = Inr Down"
    by (simp add: Classify_def slice_from_def zero_result_def)
  have "0 \<le> FailureWindow (C_Probe (d_cfg d))"
    "FailureWindow (C_Probe (d_cfg d)) \<le> max 1 (RingbufferSize (C_Probe (d_cfg d)))"
    by (simp_all add: w)
  from serve_view [OF d(1) s order this, unfolded w] obtain v where
    v: "localView (d_agg d) [?k] (st_store s) = Inr v"
    and all: "\<forall>k. if k \<in> fst ` set (appends es)
      then (\<exists>st. Classify (history k (appends es)) 1 1 = Inr st \<and>
              sample_at v k = Some \<lparr>State = state_text st, LastTS = Timestamp (last (history k (appends es)))\<rparr>) \<and>
           (\<exists>p \<in> set (C_Peers (d_cfg d)). P_Name p = Peer k \<and> Protocol k \<in> set (Checks p) \<and>
              validChecks (Protocol k))
      else sample_at v k = None" by blast
  from spec [OF all, of ?k] cl have
    "sample_at v ?k = Some \<lparr>State = state_text Down, LastTS = Timestamp zero_result\<rparr>"
    by (simp add: app)
  with v d(1) show ?thesis by (auto simp: zero_result_def)
qed

text \<open>
  C37. What the daemon insists on before it starts: the configuration file has mode 0600 and decodes
  to the running configuration, that configuration passes validation, the host certificate's common
  name is the configured host name, and both the UDP secret and the session secret in use are the
  32 bytes the configuration encodes.
\<close>

theorem serve_starts:
  assumes "runServe env args fl = Inr d"
  shows "(\<exists>path f. fl path = Some f \<and> perm f = 384 \<and> Load (se_sys env) path fl = Inr (d_cfg d)) \<and>
    Validate (d_cfg d) = None \<and>
    (\<exists>cert. se_key_pair env (HostCertPath (C_PKI (d_cfg d))) (HostKeyPath (C_PKI (d_cfg d))) = Inr cert \<and>
       se_leaf_cn env cert = Inr (HI_Name (C_Host (d_cfg d)))) \<and>
    std_decode (UDPSharedSecret (C_Probe (d_cfg d))) = Some (echo_secret (d_echo d)) \<and>
    std_decode (SessionSecret (C_UI (d_cfg d))) = Some (sess_secret (d_session d)) \<and>
    length (echo_secret (d_echo d)) = 32 \<and> length (sess_secret (d_session d)) = 32"
proof -
  from runServe_InrD [OF assms] obtain path f caPool cert where
    p: "fl path = Some f" "perm f = 384" "Load (se_sys env) path fl = Inr (d_cfg d)"
      "Validate (d_cfg d) = None"
      "se_key_pair env (HostCertPath (C_PKI (d_cfg d))) (HostKeyPath (C_PKI (d_cfg d))) = Inr cert"
      "se_leaf_cn env cert = Inr (HI_Name (C_Host (d_cfg d)))"
    and w: "serve_wire env (d_cfg d) caPool cert = Inr d" by blast
  from serve_wire_InrD [OF w] have
    "std_decode (UDPSharedSecret (C_Probe (d_cfg d))) = Some (echo_secret (d_echo d))"
    "std_decode (SessionSecret (C_UI (d_cfg d))) = Some (sess_secret (d_session d))"
    by (auto simp: NewSession_def dest: NewUDPEcho_fields)
  moreover from this p(4) have "length (echo_secret (d_echo d)) = 32" "length (sess_secret (d_session d)) = 32"
    by (auto simp: Validate_None_iff secret_ok_def)
  ultimately show ?thesis using p by blast
qed

theorem serve_starts_witness:
  "\<exists>d. runServe (sample_env (sample_cfg ''tcp'' 1)) [] sample_fs = Inr d \<and> length (sess_secret (d_session d)) = 32"
proof -
  obtain d where d: "runServe (sample_env (sample_cfg ''tcp'' 1)) [] sample_fs = Inr d" using sample_starts [of "''tcp''"] by blast
  from serve_starts [OF d] d show ?thesis by blast
qed

text \<open>
  A negative failure window passes validation (with any threshold that is no larger) and lets
  the daemon start, and then every local view of a node with results panics.
\<close>

theorem serve_negative_window:
  assumes "runServe env args fl = Inr d" and "sched_run (d_sched d) es s"
    and "map_order (bufs (st_store s)) order" and "FailureWindow (C_Probe (d_cfg d)) < 0"
    and "order \<noteq> []"
  shows "localView (d_agg d) order (st_store s) = Inl SliceBoundsOutOfRange"
proof -
  from runServe_InrD [OF assms(1)] obtain caPool cert where
    "serve_wire env (d_cfg d) caPool cert = Inr d" by blast
  from serve_wire_InrD [OF this] have w: "agg_window (d_agg d) < 0" and inv: "store_inv (sch_store (d_sched d))"
    using assms(4) by auto
  from assms(5) obtain k ks where ks: "order = k # ks" by (cases order) auto
  have "snapshot_key k (st_store s) = Inr (if bufs (st_store s) k = None then None else Some (store_log k (st_store s)))"
    by (rule Snapshot_ok [OF run_store(2) [OF assms(2) inv]])
  then have "view_step (d_agg d) (k, st_store s) v = Inl SliceBoundsOutOfRange" for v
    using Classify_negative [OF w] by (simp add: view_step_def snapshot_key_def Let_def)
  then show ?thesis
    unfolding localView_def localView_at_def Keys_order [OF assms(3)] by (simp add: ks)
qed

theorem serve_negative_window_witness:
  "\<exists>d (s :: unit prober_impl sched). runServe (sample_env (sample_cfg ''tcp'' (- 1))) [] sample_fs = Inr d \<and>
     localView (d_agg d) [job_key (sample_job ''tcp'')] (st_store s) = Inl SliceBoundsOutOfRange"
proof -
  obtain d where d: "runServe (sample_env (sample_cfg ''tcp'' (- 1))) [] sample_fs = Inr d" "d_cfg d = sample_cfg ''tcp'' (- 1)"
    "d_sched d = New_sched (sched_config_of (sample_cfg ''tcp'' (- 1)) 1) [(sample_job ''tcp'')] (New_store 100)"
    using sample_starts [of "''tcp''"] by blast
  from sample_one_result [OF d(3)] obtain es s where s: "sched_run (d_sched d) es s"
    "map_order (bufs (st_store s)) [job_key (sample_job ''tcp'')]" by blast
  have "FailureWindow (C_Probe (d_cfg d)) < 0" by (simp add: d(2) sample_cfg_def)
  from serve_negative_window [OF d(1) s this] d(1) show ?thesis by blast
qed

text \<open>
  C39. The jobs of a started daemon, in order and with multiplicity: one for each check of each
  configured peer, except for checks without a prober (an ICMP check when the raw socket could not be
  opened, or an unknown check). A job runs under the peer's name and probes the peer's configured
  address, ports and URL as they stand in the file (an omitted URL is probed as the empty one); its
  prober is that of the check's protocol, with the configured timeout (seconds, wrapped to 64 bits of
  nanoseconds), and with the certificates of the configured CA file (HTTPS) or the configured shared
  secret and host name (UDP).
\<close>

theorem serve_jobs:
  assumes "runServe env args fl = Inr d"
  shows "\<exists>pem pool secret.
    se_read_ca env (CACertPath (C_PKI (d_cfg d))) = Inr pem \<and> se_ca_pool env pem = Some pool \<and>
    std_decode (UDPSharedSecret (C_Probe (d_cfg d))) = Some secret \<and>
    (let timeout = seconds (TimeoutSeconds (C_Probe (d_cfg d)));
         prober_of = (\<lambda>ch.
           if ch = ''tcp'' then [TcpImpl (New_tcp timeout)]
           else if ch = ''https'' then [HttpImpl (New_http pool timeout)]
           else if ch = ''udp'' then [UdpImpl (New_udp secret (HI_Name (C_Host (d_cfg d))) timeout)]
           else if ch = ''icmp'' \<and> se_icmp_open env = Inr () then [IcmpImpl New_icmp timeout]
           else [])
     in sch_jobs (d_sched d) =
       [\<lparr>J_Peer = P_Name p, J_Protocol = ch,
         J_Target = \<lparr>tgt_Name = P_Name p, tgt_Addr = P_Addr p, tgt_TCPPort = TCPPort p,
                     tgt_UDPPort = UDPPort p, tgt_HTTPSURL = HTTPSURL p\<rparr>, J_Prober = pb\<rparr>.
        p \<leftarrow> C_Peers (d_cfg d), ch \<leftarrow> Checks p, pb \<leftarrow> prober_of ch])"
proof -
  from runServe_pool [OF assms] obtain pem pool cert where
    pool: "se_read_ca env (CACertPath (C_PKI (d_cfg d))) = Inr pem" "se_ca_pool env pem = Some pool"
      "serve_wire env (d_cfg d) pool cert = Inr d" by blast
  from serve_wire_InrD [OF pool(3)] obtain secret where
    sec: "std_decode (UDPSharedSecret (C_Probe (d_cfg d))) = Some secret"
    and jobs: "sch_jobs (d_sched d) = buildJobs (d_cfg d) (mustProbers (se_icmp_open env) pool secret (d_cfg d))" by auto
  have table: "opt_list (mustProbers (se_icmp_open env) pool secret (d_cfg d) ch) =
      (let timeout = seconds (TimeoutSeconds (C_Probe (d_cfg d))) in
       if ch = ''tcp'' then [TcpImpl (New_tcp timeout)]
       else if ch = ''https'' then [HttpImpl (New_http pool timeout)]
       else if ch = ''udp'' then [UdpImpl (New_udp secret (HI_Name (C_Host (d_cfg d))) timeout)]
       else if ch = ''icmp'' \<and> se_icmp_open env = Inr () then [IcmpImpl New_icmp timeout]
       else [])" for ch
    by (simp add: mustProbers_def protocol_defs Let_def opt_list_def split: sum.split)
  show ?thesis
    using pool(1,2) sec unfolding jobs buildJobs_list peer_target_def table Let_def by blast
qed

theorem serve_jobs_witness:
  "\<exists>d secret. runServe (sample_env (sample_cfg ''udp'' 1)) [] sample_fs = Inr d \<and>
     map (\<lambda>j. (J_Peer j, J_Protocol j, tgt_Addr (J_Target j), J_Prober j)) (sch_jobs (d_sched d)) =
       [(''b'', ''udp'', ''10.0.0.2'', UdpImpl (New_udp secret ''a'' (seconds 3)))] \<and>
     std_decode skeleton_secret = Some secret"
proof -
  obtain d where d: "runServe (sample_env (sample_cfg ''udp'' 1)) [] sample_fs = Inr d" "d_cfg d = sample_cfg ''udp'' 1"
    using sample_starts [of "''udp''"] by blast
  have c: "C_Peers (d_cfg d) = [sample_peer ''udp'']" "HI_Name (C_Host (d_cfg d)) = ''a''"
    "TimeoutSeconds (C_Probe (d_cfg d)) = 3" "UDPSharedSecret (C_Probe (d_cfg d)) = skeleton_secret"
    by (simp_all add: d(2) sample_cfg_def newConfigSkeleton_def)
  from serve_jobs [OF d(1), unfolded c] d(1) show ?thesis
    by (intro exI [of _ d]) (auto simp: sample_peer_def Let_def)
qed

end
