(* ===== verification/Serve_Run.thy ===== *)
theory Serve_Run
  imports Serve
begin

text \<open>
  The running phase of \<open>runServe\<close> (\<open>internal/pkg/cli/serve.go\<close>, from the creation of
  \<open>errCh\<close> on): four listener goroutines that send what they end with to a channel of capacity
  four, and the main goroutine, which waits for the context, shuts the servers down one after the
  other and returns nil. Nothing receives from the channel.

  The scheduler's goroutine (\<open>Scheduler\<close>) and the goroutines that serve requests are not part of this state: they
  share neither the channel nor the shutdown calls. A step says what may happen, not when: that a
  \<open>Shutdown\<close> makes its listener return is one of the reasons for a \<open>ListenerEnds\<close>, which may also happen
  before, and nothing here says that a listener ends in finite time.
\<close>

section \<open>State and steps\<close>

text \<open>The goroutines in the order of their start: interhost, ui, probe, udp-echo.\<close>

datatype listener = Listening | Ended | Crashed

record serving =
  errCh :: "string option list"
  lst :: "listener list"
  cancelled :: bool
  shut :: nat
  returned :: bool

definition errCh_cap :: nat where "errCh_cap = 4"

definition serving_init :: serving where
  "serving_init =
     \<lparr>errCh = [], lst = [Listening, Listening, Listening, Listening], cancelled = False, shut = 0,
      returned = False\<rparr>"

text \<open>
  \<open>ListenerEnds i e\<close>: listener \<open>i\<close> returns \<open>e\<close> (an error, or nil) and sends it; the UDP
  echo server's goroutine sends nil. \<open>ListenerPanics i\<close>: a panic that \<open>recoverwrap.Go\<close>
  recovers. \<open>Shutdown\<close> is one of the four calls after \<open>ctx.Done()\<close>, in order; each returns
  within the two seconds of its context, whatever its result.
\<close>

datatype serve_event =
    ListenerEnds nat "string option"
  | ListenerPanics nat
  | Cancel
  | Shutdown
  | Return

definition listener_ends :: "nat \<Rightarrow> string option \<Rightarrow> serving \<Rightarrow> serving option" where
  "listener_ends i e s =
     (if i < length (lst s) \<and> lst s ! i = Listening \<and> length (errCh s) < errCh_cap \<and> (i = 3 \<longrightarrow> e = None)
      then Some (s\<lparr>errCh := errCh s @ [e], lst := (lst s)[i := Ended]\<rparr>) else None)"

definition listener_panics :: "nat \<Rightarrow> serving \<Rightarrow> serving option" where
  "listener_panics i s =
     (if i < length (lst s) \<and> lst s ! i = Listening then Some (s\<lparr>lst := (lst s)[i := Crashed]\<rparr>) else None)"

definition cancel :: "serving \<Rightarrow> serving option" where
  "cancel s = (if cancelled s then None else Some (s\<lparr>cancelled := True\<rparr>))"

definition shutdown :: "serving \<Rightarrow> serving option" where
  "shutdown s = (if cancelled s \<and> shut s < 4 then Some (s\<lparr>shut := shut s + 1\<rparr>) else None)"

definition serve_return :: "serving \<Rightarrow> serving option" where
  "serve_return s = (if shut s = 4 \<and> \<not> returned s then Some (s\<lparr>returned := True\<rparr>) else None)"

fun serve_step :: "serve_event \<Rightarrow> serving \<Rightarrow> serving option" where
  "serve_step (ListenerEnds i e) s = listener_ends i e s"
| "serve_step (ListenerPanics i) s = listener_panics i s"
| "serve_step Cancel s = cancel s"
| "serve_step Shutdown s = shutdown s"
| "serve_step Return s = serve_return s"

inductive serve_run :: "serve_event list \<Rightarrow> serving \<Rightarrow> bool" where
  start: "serve_run [] serving_init"
| step: "serve_run es s \<Longrightarrow> serve_step e s = Some s' \<Longrightarrow> serve_run (es @ [e]) s'"

inductive_cases serve_run_NilE: "serve_run [] s"

lemmas serve_step_defs = listener_ends_def listener_panics_def cancel_def shutdown_def serve_return_def

section \<open>Lemmas\<close>

text \<open>Each listener that has not ended still has its own place in the channel.\<close>

definition serving_inv :: "serving \<Rightarrow> bool" where
  "serving_inv s \<longleftrightarrow>
     length (lst s) = 4 \<and> length (errCh s) + length (filter (\<lambda>l. l = Listening) (lst s)) \<le> errCh_cap \<and>
     shut s \<le> 4 \<and> (0 < shut s \<longrightarrow> cancelled s) \<and> (returned s \<longrightarrow> shut s = 4)"

lemma filter_update_leave:
  assumes "i < length xs" "P (xs ! i)" "\<not> P y"
  shows "Suc (length (filter P (xs[i := y]))) = length (filter P xs)"
proof -
  from assms(1) have xs: "xs = take i xs @ xs ! i # drop (Suc i) xs" by (rule id_take_nth_drop)
  have "xs[i := y] = take i xs @ y # drop (Suc i) xs" by (rule upd_conv_take_nth_drop [OF assms(1)])
  then have "Suc (length (filter P (xs[i := y]))) = length (filter P (take i xs @ xs ! i # drop (Suc i) xs))"
    using assms(2,3) by simp
  with xs show ?thesis by simp
qed

lemma serving_inv_init [inv_intros]: "serving_inv serving_init"
  by (simp add: serving_inv_def serving_init_def errCh_cap_def)

lemma serving_inv_step [inv_intros]: "serving_inv s \<Longrightarrow> serve_step e s = Some s' \<Longrightarrow> serving_inv s'"
proof (cases e)
  case (ListenerEnds i r)
  assume "serving_inv s" "serve_step e s = Some s'"
  then show ?thesis
    using ListenerEnds filter_update_leave [of i "lst s" "\<lambda>l. l = Listening" Ended]
    by (auto simp: serving_inv_def serve_step_defs split: if_splits)
next
  case (ListenerPanics i)
  assume "serving_inv s" "serve_step e s = Some s'"
  then show ?thesis
    using ListenerPanics filter_update_leave [of i "lst s" "\<lambda>l. l = Listening" Crashed]
    by (auto simp: serving_inv_def serve_step_defs split: if_splits)
qed (auto simp: serving_inv_def serve_step_defs split: if_splits)

lemma serve_run_inv: "serve_run es s \<Longrightarrow> serving_inv s"
  by (induction rule: serve_run.induct) (auto intro: inv_intros)

lemma listening_counts: "i < length xs \<Longrightarrow> xs ! i = Listening \<Longrightarrow> 0 < length (filter (\<lambda>l. l = Listening) xs)"
  by (simp add: filter_empty_conv) (metis nth_mem)

text \<open>A run of the shutdown steps after the cancellation.\<close>

lemma shutdown_runs:
  assumes "serve_run es s" "cancelled s" "\<not> returned s"
  shows "\<exists>es' s'. serve_run (es @ es') s' \<and> returned s'"
  using assms
proof (induction "4 - shut s" arbitrary: es s)
  case 0
  then have "shut s = 4" using serve_run_inv [OF "0.prems"(1)] by (simp add: serving_inv_def)
  with 0 have "serve_step Return s = Some (s\<lparr>returned := True\<rparr>)" by (simp add: serve_step_defs)
  from step [OF "0.prems"(1) this] show ?case by (intro exI [of _ "[Return]"]) auto
next
  case (Suc n)
  then have "serve_step Shutdown s = Some (s\<lparr>shut := shut s + 1\<rparr>)" by (simp add: serve_step_defs)
  from step [OF Suc.prems(1) this] have "serve_run (es @ [Shutdown]) (s\<lparr>shut := shut s + 1\<rparr>)" .
  then obtain es' s' where "serve_run ((es @ [Shutdown]) @ es') s'" "returned s'"
    using Suc.hyps(1) [of "s\<lparr>shut := shut s + 1\<rparr>" "es @ [Shutdown]"] Suc.hyps(2) Suc.prems(2,3) by fastforce
  then show ?case by (metis append_assoc)
qed

lemma cancelled_iff: "serve_run es s \<Longrightarrow> cancelled s \<longleftrightarrow> Cancel \<in> set es"
proof (induction rule: serve_run.induct)
  case (step es s e s')
  then show ?case by (cases e) (auto simp: serve_step_defs split: if_splits)
qed (simp add: serving_init_def)

section \<open>Properties\<close>

text \<open>
  C38. The running phase of the daemon: in every reachable state a listener that ends can deliver its
  result (the sends never block), \<open>runServe\<close> has returned only if the context was cancelled, and
  once it is cancelled \<open>runServe\<close> can still return.
\<close>

theorem serve_stops_on_cancel_only:
  assumes "serve_run es s"
  shows "(i < length (lst s) \<and> lst s ! i = Listening \<longrightarrow> serve_step (ListenerEnds i None) s \<noteq> None) \<and>
    (returned s \<longrightarrow> Cancel \<in> set es) \<and>
    (Cancel \<in> set es \<longrightarrow> (\<exists>es' s'. serve_run (es @ es') s' \<and> returned s'))"
proof (intro conjI impI)
  note inv = serve_run_inv [OF assms, unfolded serving_inv_def]
  show "serve_step (ListenerEnds i None) s \<noteq> None" if "i < length (lst s) \<and> lst s ! i = Listening"
  proof -
    have "0 < length (filter (\<lambda>l. l = Listening) (lst s))" using that by (intro listening_counts) auto
    with inv have "length (errCh s) < errCh_cap" by linarith
    with that show ?thesis by (simp add: serve_step_defs)
  qed
  show "Cancel \<in> set es" if "returned s" using that inv cancelled_iff [OF assms] by simp
  show "\<exists>es' s'. serve_run (es @ es') s' \<and> returned s'" if "Cancel \<in> set es"
  proof (cases "returned s")
    case True
    with assms show ?thesis by (intro exI [of _ "[]"]) auto
  next
    case False
    with that shutdown_runs [OF assms] cancelled_iff [OF assms] show ?thesis by blast
  qed
qed

theorem serve_stops_on_cancel_only_witness:
  "\<exists>es' s'. serve_run ([Cancel] @ es') s' \<and> returned s'"
proof -
  have "serve_run ([] @ [Cancel]) (serving_init\<lparr>cancelled := True\<rparr>)"
    by (rule step [OF start]) (simp add: serve_step_defs serving_init_def)
  then have "serve_run [Cancel] (serving_init\<lparr>cancelled := True\<rparr>)" by simp
  from serve_stops_on_cancel_only [OF this] show ?thesis by auto
qed

text \<open>
  A listener that fails leaves the daemon running: when the three HTTP servers have returned
  errors (a port in use, say), nothing has been shut down and the main goroutine can only wait for
  the context.
\<close>

theorem serve_listener_failure_silent:
  "\<exists>s. serve_run [ListenerEnds 0 (Some e0), ListenerEnds 1 (Some e1), ListenerEnds 2 (Some e2)] s \<and>
     errCh s = [Some e0, Some e1, Some e2] \<and> shut s = 0 \<and> \<not> returned s \<and>
     {e. serve_step e s \<noteq> None} = {ListenerEnds 3 None, ListenerPanics 3, Cancel}"
proof -
  let ?s = "serving_init\<lparr>errCh := [Some e0, Some e1, Some e2], lst := [Ended, Ended, Ended, Listening]\<rparr>"
  let ?s1 = "serving_init\<lparr>errCh := [Some e0], lst := [Ended, Listening, Listening, Listening]\<rparr>"
  let ?s2 = "serving_init\<lparr>errCh := [Some e0, Some e1], lst := [Ended, Ended, Listening, Listening]\<rparr>"
  have "serve_step (ListenerEnds 0 (Some e0)) serving_init = Some ?s1"
    "serve_step (ListenerEnds 1 (Some e1)) ?s1 = Some ?s2" "serve_step (ListenerEnds 2 (Some e2)) ?s2 = Some ?s"
    by (simp_all add: serve_step_defs serving_init_def errCh_cap_def)
  from step [OF step [OF step [OF start this(1)] this(2)] this(3)]
  have "serve_run [ListenerEnds 0 (Some e0), ListenerEnds 1 (Some e1), ListenerEnds 2 (Some e2)] ?s" by simp
  moreover have "serve_step e ?s \<noteq> None \<longleftrightarrow> e \<in> {ListenerEnds 3 None, ListenerPanics 3, Cancel}" for e
    by (cases e) (auto simp: serve_step_defs serving_init_def errCh_cap_def less_Suc_eq numeral_eq_Suc)
  then have "{e. serve_step e ?s \<noteq> None} = {ListenerEnds 3 None, ListenerPanics 3, Cancel}" by blast
  ultimately show ?thesis by (intro exI [of _ ?s]) (simp add: serving_init_def)
qed

end
