(* ===== verification/Pki.thy ===== *)
theory Pki
  imports Cli_Config Go_Time
begin

text \<open>
  \<open>internal/pkg/pki/pki.go\<close> (the mesh CA and the host certificates) and
  \<open>internal/pkg/cli/pki.go\<close> (\<open>pki init\<close> and \<open>pki cert\<close>). Keys, X.509 certificates,
  PKCS 8, PEM, IP addresses and durations in text form are parameters; what the program puts into a
  certificate, the order of its checks and what it writes to which file with which mode is modelled.
\<close>

section \<open>Certificates\<close>

datatype key_usage = KeyUsageCertSign | KeyUsageDigitalSignature | KeyUsageKeyEncipherment

datatype ext_key_usage = ExtKeyUsageServerAuth | ExtKeyUsageClientAuth

record 'ip cert_template =
  SerialNumber :: int
  CommonName :: string
  NotBefore :: time
  NotAfter :: time
  IsCA :: bool
  KeyUsages :: "key_usage set"
  ExtKeyUsages :: "ext_key_usage list"
  BasicConstraintsValid :: bool
  IPAddresses :: "'ip list"
  DNSNames :: "string list"

record ('cert, 'key) material =
  m_Cert :: 'cert
  m_DER :: "byte list"
  m_Key :: "'key option"

text \<open>The signer of a certificate: its own template (self-signed) or a CA certificate.\<close>

datatype ('cert, 'ip) signer = SelfSigned "'ip cert_template" | SignedBy 'cert

text \<open>
  The cryptography the package calls: the fresh key pair and serial number (random draws), signing,
  and the parsers.
\<close>

record ('cert, 'key, 'pub, 'ip) crypto =
  gen_key :: "string + ('pub \<times> 'key)"
  gen_serial :: "string + int"
  create_cert :: "'ip cert_template \<Rightarrow> ('cert, 'ip) signer \<Rightarrow> 'pub \<Rightarrow> 'key \<Rightarrow> string + byte list"
  parse_cert :: "byte list \<Rightarrow> string + 'cert"
  parse_ip :: "string \<Rightarrow> 'ip option"
  pem_encode :: "string \<Rightarrow> byte list \<Rightarrow> string"
  pem_decode :: "string \<Rightarrow> (string \<times> byte list) option"
  marshal_key :: "'key \<Rightarrow> string + byte list"
  parse_key :: "byte list \<Rightarrow> string + 'key option"

text \<open>How a function of the package fails.\<close>

datatype pki_failure = Fails string | Panics panic

definition lift :: "string + 'a \<Rightarrow> pki_failure + 'a" where
  "lift r = (case r of Inl e \<Rightarrow> Inl (Fails e) | Inr x \<Rightarrow> Inr x)"

text \<open>The serial number is drawn below \<open>2^128\<close>.\<close>

definition newSerial :: "('cert, 'key, 'pub, 'ip) crypto \<Rightarrow> pki_failure + int" where
  "newSerial cr = and_then (lift (gen_serial cr)) (\<lambda>n. Inr (n mod 2 ^ 128))"

definition minute :: duration where "minute = 60 * second"

text \<open>The clock is read twice, once for each end of the validity.\<close>

definition ca_template :: "string \<Rightarrow> duration \<Rightarrow> int \<Rightarrow> time \<times> time \<Rightarrow> 'ip cert_template" where
  "ca_template commonName lifetime serial now =
     \<lparr>SerialNumber = serial, CommonName = commonName, NotBefore = time_add (fst now) (- minute),
      NotAfter = time_add (snd now) lifetime, IsCA = True,
      KeyUsages = {KeyUsageCertSign, KeyUsageDigitalSignature}, ExtKeyUsages = [],
      BasicConstraintsValid = True, IPAddresses = [], DNSNames = []\<rparr>"

definition GenerateCA ::
    "('cert, 'key, 'pub, 'ip) crypto \<Rightarrow> string \<Rightarrow> duration \<Rightarrow> time \<times> time \<Rightarrow> pki_failure + ('cert, 'key) material" where
  "GenerateCA cr commonName lifetime now =
     and_then (lift (gen_key cr)) (\<lambda>(pub, priv).
     and_then (newSerial cr) (\<lambda>serial.
       let tmpl = ca_template commonName lifetime serial now in
       and_then (lift (create_cert cr tmpl (SelfSigned tmpl) pub priv)) (\<lambda>der.
       and_then (lift (parse_cert cr der)) (\<lambda>cert.
         Inr \<lparr>m_Cert = cert, m_DER = der, m_Key = Some priv\<rparr>))))"

text \<open>The loop over the names: an IP address or a DNS name each.\<close>

fun add_sans :: "(string \<Rightarrow> 'ip option) \<Rightarrow> string list \<Rightarrow> 'ip cert_template \<Rightarrow> 'ip cert_template" where
  "add_sans pip [] tmpl = tmpl"
| "add_sans pip (s # ss) tmpl =
     (case pip s of
        Some ip \<Rightarrow> add_sans pip ss (tmpl\<lparr>IPAddresses := IPAddresses tmpl @ [ip]\<rparr>)
      | None \<Rightarrow> add_sans pip ss (tmpl\<lparr>DNSNames := DNSNames tmpl @ [s]\<rparr>))"

definition host_template ::
    "(string \<Rightarrow> 'ip option) \<Rightarrow> string \<Rightarrow> string list \<Rightarrow> duration \<Rightarrow> int \<Rightarrow> time \<times> time \<Rightarrow> 'ip cert_template" where
  "host_template pip hostName sans lifetime serial now =
     add_sans pip sans
       \<lparr>SerialNumber = serial, CommonName = hostName, NotBefore = time_add (fst now) (- minute),
        NotAfter = time_add (snd now) lifetime, IsCA = False,
        KeyUsages = {KeyUsageDigitalSignature, KeyUsageKeyEncipherment},
        ExtKeyUsages = [ExtKeyUsageServerAuth, ExtKeyUsageClientAuth],
        BasicConstraintsValid = False, IPAddresses = [], DNSNames = []\<rparr>"

definition GenerateHostCert ::
    "('cert, 'key, 'pub, 'ip) crypto \<Rightarrow> ('cert, 'key) material option \<Rightarrow> string \<Rightarrow> string list \<Rightarrow> duration \<Rightarrow> time \<times> time \<Rightarrow>
     pki_failure + ('cert, 'key) material" where
  "GenerateHostCert cr ca hostName sans lifetime now =
     (case ca of
        None \<Rightarrow> Inl (Fails ''pki: ca material missing private key'')
      | Some m \<Rightarrow>
        (case m_Key m of
           None \<Rightarrow> Inl (Fails ''pki: ca material missing private key'')
         | Some caKey \<Rightarrow>
           and_then (lift (gen_key cr)) (\<lambda>(pub, priv).
           and_then (newSerial cr) (\<lambda>serial.
             let tmpl = host_template (parse_ip cr) hostName sans lifetime serial now in
             and_then (lift (create_cert cr tmpl (SignedBy (m_Cert m)) pub caKey)) (\<lambda>der.
             and_then (lift (parse_cert cr der)) (\<lambda>cert.
               Inr \<lparr>m_Cert = cert, m_DER = der, m_Key = Some priv\<rparr>))))))"

section \<open>PEM\<close>

text \<open>
  Marshalling a missing key panics in the library (it slices the nil key); the program only encodes
  material it generated, which has one.
\<close>

definition Encode :: "('cert, 'key, 'pub, 'ip) crypto \<Rightarrow> ('cert, 'key) material \<Rightarrow> pki_failure + (string \<times> string)" where
  "Encode cr m =
     (case m_Key m of
        None \<Rightarrow> Inl (Panics SliceBoundsOutOfRange)
      | Some k \<Rightarrow>
        and_then (lift (marshal_key cr k)) (\<lambda>keyDER.
          Inr (pem_encode cr ''CERTIFICATE'' (m_DER m), pem_encode cr ''PRIVATE KEY'' keyDER)))"

text \<open>\<open>parse_key\<close> gives \<open>None\<close> for a key of another algorithm than Ed25519.\<close>

definition Decode ::
    "('cert, 'key, 'pub, 'ip) crypto \<Rightarrow> string \<Rightarrow> string option \<Rightarrow> pki_failure + ('cert, 'key) material" where
  "Decode cr certPEM keyPEM =
     (case pem_decode cr certPEM of
        None \<Rightarrow> Inl (Fails ''pki: invalid cert PEM'')
      | Some (ty, der) \<Rightarrow>
        if ty \<noteq> ''CERTIFICATE'' then Inl (Fails ''pki: invalid cert PEM'')
        else
          and_then (lift (parse_cert cr der)) (\<lambda>cert.
            let m = \<lparr>m_Cert = cert, m_DER = der, m_Key = None\<rparr> in
            (case keyPEM of
               None \<Rightarrow> Inr m
             | Some kp \<Rightarrow>
               (case pem_decode cr kp of
                  None \<Rightarrow> Inl (Fails ''pki: invalid key PEM'')
                | Some (kty, kder) \<Rightarrow>
                  if kty \<noteq> ''PRIVATE KEY'' then Inl (Fails ''pki: invalid key PEM'')
                  else
                    and_then (lift (parse_key cr kder)) (\<lambda>k.
                      case k of
                        None \<Rightarrow> Inl (Fails ''pki: key is not ed25519'')
                      | Some edKey \<Rightarrow> Inr (m\<lparr>m_Key := Some edKey\<rparr>))))))"

definition LoadCertOnly :: "('cert, 'key, 'pub, 'ip) crypto \<Rightarrow> string \<Rightarrow> pki_failure + ('cert, 'key) material" where
  "LoadCertOnly cr certPEM = Decode cr certPEM None"

section \<open>Commands\<close>

datatype pki_error =
    PkiNoSubcommand
  | PkiUnknown string
  | PkiFlag flag_error
  | PkiMissingFlags
  | PkiUsage
  | PkiCrypto pki_failure
  | PkiRead string
  | PkiWrite string

text \<open>The outcomes of the system calls of one command, in their order.\<close>

record pki_sys =
  ps_read_cert :: call_outcome
  ps_read_key :: call_outcome
  ps_write_cert :: write_outcome
  ps_chmod_cert :: call_outcome
  ps_write_key :: write_outcome
  ps_chmod_key :: call_outcome

definition writeStrict ::
    "write_outcome \<Rightarrow> call_outcome \<Rightarrow> string \<Rightarrow> string \<Rightarrow> nat \<Rightarrow> fs \<Rightarrow> string option \<times> fs" where
  "writeStrict wr ch path data mode fl =
     (case write_file wr path data mode fl of
        (Some e, fl1) \<Rightarrow> (Some e, fl1)
      | (None, fl1) \<Rightarrow> chmod_file ch path mode fl1)"

text \<open>The certificate with mode 0644 (420), then the key with mode 0600 (384).\<close>

definition write_pair :: "pki_sys \<Rightarrow> string \<Rightarrow> string \<Rightarrow> string \<Rightarrow> string \<Rightarrow> world \<Rightarrow> pki_error option \<times> world" where
  "write_pair ps certPath keyPath certPEM keyPEM w =
     (case writeStrict (ps_write_cert ps) (ps_chmod_cert ps) certPath certPEM 420 (files w) of
        (Some e, fl1) \<Rightarrow> (Some (PkiWrite e), w\<lparr>files := fl1\<rparr>)
      | (None, fl1) \<Rightarrow>
        (case writeStrict (ps_write_key ps) (ps_chmod_key ps) keyPath keyPEM 384 fl1 of
           (Some e, fl2) \<Rightarrow> (Some (PkiWrite e), w\<lparr>files := fl2\<rparr>)
         | (None, fl2) \<Rightarrow>
           (None, say (''wrote '' @ certPath @ '' and '' @ keyPath) (w\<lparr>files := fl2\<rparr>))))"

text \<open>\<open>parse_duration\<close> is \<open>time.ParseDuration\<close>; a flag not given has its default.\<close>

definition duration_value :: "(string \<Rightarrow> duration option) \<Rightarrow> string \<Rightarrow> duration \<Rightarrow> (string \<times> string) list \<Rightarrow> duration" where
  "duration_value parse_duration name dflt vs =
     (case map_of (rev vs) name of
        None \<Rightarrow> dflt
      | Some v \<Rightarrow> (case parse_duration v of None \<Rightarrow> dflt | Some d \<Rightarrow> d))"

definition hour :: duration where "hour = 60 * minute"

definition any_value :: "string \<Rightarrow> bool" where "any_value v = True"

definition pki_init_flags :: "(string \<Rightarrow> duration option) \<Rightarrow> flag_set" where
  "pki_init_flags parse_duration =
     [''ca-cert'' \<mapsto> any_value, ''ca-key'' \<mapsto> any_value, ''cn'' \<mapsto> any_value,
      ''lifetime'' \<mapsto> (\<lambda>v. parse_duration v \<noteq> None)]"

definition runPKIInit ::
    "('cert, 'key, 'pub, 'ip) crypto \<Rightarrow> (string \<Rightarrow> duration option) \<Rightarrow> pki_sys \<Rightarrow> time \<times> time \<Rightarrow> string list \<Rightarrow> world \<Rightarrow>
     pki_error option \<times> world" where
  "runPKIInit cr parse_duration ps now args w =
     (case parse_flags (pki_init_flags parse_duration) args of
        Inl e \<Rightarrow> (Some (PkiFlag e), w)
      | Inr (vs, _) \<Rightarrow>
        let caCert = flag_value ''ca-cert'' [] vs;
            caKey = flag_value ''ca-key'' [] vs;
            cn = flag_value ''cn'' ''mesh-checker CA'' vs;
            lifetime = duration_value parse_duration ''lifetime'' (10 * 365 * 24 * hour) vs
        in if caCert = [] \<or> caKey = [] then (Some PkiMissingFlags, w)
           else
             (case and_then (GenerateCA cr cn lifetime now) (Encode cr) of
                Inl e \<Rightarrow> (Some (PkiCrypto e), w)
              | Inr (certPEM, keyPEM) \<Rightarrow> write_pair ps caCert caKey certPEM keyPEM w))"

definition pki_cert_flags :: "(string \<Rightarrow> duration option) \<Rightarrow> flag_set" where
  "pki_cert_flags parse_duration =
     [''ca-cert'' \<mapsto> any_value, ''ca-key'' \<mapsto> any_value, ''out-cert'' \<mapsto> any_value,
      ''out-key'' \<mapsto> any_value, ''san'' \<mapsto> any_value,
      ''lifetime'' \<mapsto> (\<lambda>v. parse_duration v \<noteq> None)]"

definition pki_positional_error :: "cli_error \<Rightarrow> pki_error" where
  "pki_positional_error e = (case e of FlagFailed f \<Rightarrow> PkiFlag f | _ \<Rightarrow> PkiUsage)"

definition runPKICert ::
    "('cert, 'key, 'pub, 'ip) crypto \<Rightarrow> (string \<Rightarrow> duration option) \<Rightarrow> pki_sys \<Rightarrow> time \<times> time \<Rightarrow> string list \<Rightarrow> world \<Rightarrow>
     pki_error option \<times> world" where
  "runPKICert cr parse_duration ps now args w =
     (case one_positional (pki_cert_flags parse_duration) args of
        Inl e \<Rightarrow> (Some (pki_positional_error e), w)
      | Inr (hostName, vs) \<Rightarrow>
        let caCert = flag_value ''ca-cert'' [] vs;
            caKey = flag_value ''ca-key'' [] vs;
            outCert = flag_value ''out-cert'' [] vs;
            outKey = flag_value ''out-key'' [] vs;
            sans = flag_values ''san'' vs;
            lifetime = duration_value parse_duration ''lifetime'' (365 * 24 * hour) vs
        in if caCert = [] \<or> caKey = [] \<or> outCert = [] \<or> outKey = [] then (Some PkiMissingFlags, w)
           else
             (case read_file (ps_read_cert ps) caCert (files w) of
                Inl e \<Rightarrow> (Some (PkiRead e), w)
              | Inr caCertPEM \<Rightarrow>
                (case read_file (ps_read_key ps) caKey (files w) of
                   Inl e \<Rightarrow> (Some (PkiRead e), w)
                 | Inr caKeyPEM \<Rightarrow>
                   (case and_then (Decode cr caCertPEM (Some caKeyPEM)) (\<lambda>ca.
                          and_then (GenerateHostCert cr (Some ca) hostName sans lifetime now) (Encode cr)) of
                      Inl e \<Rightarrow> (Some (PkiCrypto e), w)
                    | Inr (certPEM, keyPEM) \<Rightarrow> write_pair ps outCert outKey certPEM keyPEM w))))"

definition runPKI ::
    "('cert, 'key, 'pub, 'ip) crypto \<Rightarrow> (string \<Rightarrow> duration option) \<Rightarrow> pki_sys \<Rightarrow> time \<times> time \<Rightarrow> string list \<Rightarrow> world \<Rightarrow>
     pki_error option \<times> world" where
  "runPKI cr parse_duration ps now args w =
     (case args of
        [] \<Rightarrow> (Some PkiNoSubcommand, w)
      | a # as \<Rightarrow>
        if a = ''init'' then runPKIInit cr parse_duration ps now as w
        else if a = ''cert'' then runPKICert cr parse_duration ps now as w
        else (Some (PkiUnknown a), w))"

section \<open>Lemmas\<close>

lemma lift_ok_iff [ok_iff, simp]: "lift r = Inr x \<longleftrightarrow> r = Inr x"
  by (auto simp: lift_def split: sum.splits)

lemma lift_Inr [simp]: "lift (Inr x) = Inr x"
  by (simp add: lift_def)

text \<open>Each name ends up in one of the two lists, in its order.\<close>

lemma add_sans_eq:
  "add_sans pip sans tmpl = tmpl\<lparr>
     IPAddresses := IPAddresses tmpl @ List.map_filter pip sans,
     DNSNames := DNSNames tmpl @ filter (\<lambda>s. pip s = None) sans\<rparr>"
  by (induction sans arbitrary: tmpl) (auto simp: map_filter_simps split: option.splits)

lemma GenerateCA_ok:
  "GenerateCA cr cn lifetime now = Inr m \<Longrightarrow>
     (\<exists>k. m_Key m = Some k) \<and> parse_cert cr (m_DER m) = Inr (m_Cert m)"
  by (auto simp: GenerateCA_def ok_iff Let_def split: prod.splits)

text \<open>A generated host certificate was signed with the CA's key for a template with the host's name.\<close>

lemma GenerateHostCert_ok:
  assumes "GenerateHostCert cr (Some ca) hn sans lifetime now = Inr m"
  shows "\<exists>pub priv caKey serial tmpl. gen_key cr = Inr (pub, priv) \<and> m_Key ca = Some caKey \<and>
     tmpl = host_template (parse_ip cr) hn sans lifetime serial now \<and>
     create_cert cr tmpl (SignedBy (m_Cert ca)) pub caKey = Inr (m_DER m) \<and> m_Key m = Some priv \<and>
     parse_cert cr (m_DER m) = Inr (m_Cert m)"
  using assms by (auto simp: GenerateHostCert_def ok_iff Let_def split: prod.splits option.splits)

lemma host_template_simps:
  "CommonName (host_template pip hn sans lifetime serial now) = hn"
  "\<not> IsCA (host_template pip hn sans lifetime serial now)"
  "NotAfter (host_template pip hn sans lifetime serial now) = time_add (snd now) lifetime"
  "DNSNames (host_template pip hn sans lifetime serial now) = filter (\<lambda>s. pip s = None) sans"
  by (simp_all add: host_template_def add_sans_eq)

text \<open>What the PEM codec, for the two block types the program writes, and the key codec promise.\<close>

definition codecs_lossless :: "('cert, 'key, 'pub, 'ip) crypto \<Rightarrow> bool" where
  "codecs_lossless cr \<longleftrightarrow>
     (\<forall>ty bs. ty = ''CERTIFICATE'' \<or> ty = ''PRIVATE KEY'' \<longrightarrow> pem_decode cr (pem_encode cr ty bs) = Some (ty, bs)) \<and>
     (\<forall>k bs. marshal_key cr k = Inr bs \<longrightarrow> parse_key cr bs = Inr (Some k))"

lemma Decode_Encode:
  assumes "codecs_lossless cr" "m_Key m = Some k" "parse_cert cr (m_DER m) = Inr (m_Cert m)"
    and "Encode cr m = Inr (certPEM, keyPEM)"
  shows "Decode cr certPEM (Some keyPEM) = Inr m"
    and "Decode cr certPEM None = Inr (m\<lparr>m_Key := None\<rparr>)"
  using assms by (auto simp: Encode_def Decode_def codecs_lossless_def ok_iff Let_def)

lemma write_file_ok:
  "write_file wr path b mode fl = (None, fl') \<longleftrightarrow> wr = WriteOk \<and> fl' = put_file path b mode fl"
  by (auto simp: write_file_def split: write_outcome.splits)

lemma writeStrict_ok:
  "writeStrict wr ch path b mode fl = (None, fl') \<Longrightarrow> fl' = fl(path \<mapsto> \<lparr>content = b, perm = mode\<rparr>)"
  by (auto simp: writeStrict_def write_file_ok chmod_file_def put_file_def
      split: prod.splits option.splits call_outcome.splits)

lemma write_pair_ok:
  assumes "fst (write_pair ps certPath keyPath certPEM keyPEM w) = None"
  shows "files (snd (write_pair ps certPath keyPath certPEM keyPEM w)) =
    (files w)(certPath \<mapsto> \<lparr>content = certPEM, perm = 420\<rparr>, keyPath \<mapsto> \<lparr>content = keyPEM, perm = 384\<rparr>)"
  using assms
  by (auto simp: write_pair_def split: prod.splits option.splits dest!: writeStrict_ok)

text \<open>What the two commands have done when they succeed.\<close>

lemma runPKIInit_ok:
  assumes "fst (runPKIInit cr pd ps now args w) = None" "parse_flags (pki_init_flags pd) args = Inr (vs, rest)"
  shows "\<exists>ca c k. GenerateCA cr (flag_value ''cn'' ''mesh-checker CA'' vs)
      (duration_value pd ''lifetime'' (10 * 365 * 24 * hour) vs) now = Inr ca \<and> Encode cr ca = Inr (c, k) \<and>
    files (snd (runPKIInit cr pd ps now args w)) =
      (files w)(flag_value ''ca-cert'' [] vs \<mapsto> \<lparr>content = c, perm = 420\<rparr>,
                flag_value ''ca-key'' [] vs \<mapsto> \<lparr>content = k, perm = 384\<rparr>)"
proof -
  let ?cert = "flag_value ''ca-cert'' [] vs" and ?key = "flag_value ''ca-key'' [] vs"
  obtain ca c k where "GenerateCA cr (flag_value ''cn'' ''mesh-checker CA'' vs)
      (duration_value pd ''lifetime'' (10 * 365 * 24 * hour) vs) now = Inr ca" "Encode cr ca = Inr (c, k)"
    "runPKIInit cr pd ps now args w = write_pair ps ?cert ?key c k w"
    using assms by (auto simp: runPKIInit_def Let_def ok_iff split: if_splits sum.splits)
  with assms(1) write_pair_ok [of ps ?cert ?key c k w] show ?thesis by auto
qed

lemma runPKICert_ok:
  assumes "fst (runPKICert cr pd ps now args w) = None" "one_positional (pki_cert_flags pd) args = Inr (hn, vs)"
  shows "\<exists>f g ca host c k. files w (flag_value ''ca-cert'' [] vs) = Some f \<and>
    files w (flag_value ''ca-key'' [] vs) = Some g \<and> Decode cr (content f) (Some (content g)) = Inr ca \<and>
    GenerateHostCert cr (Some ca) hn (flag_values ''san'' vs)
      (duration_value pd ''lifetime'' (365 * 24 * hour) vs) now = Inr host \<and> Encode cr host = Inr (c, k) \<and>
    files (snd (runPKICert cr pd ps now args w)) =
      (files w)(flag_value ''out-cert'' [] vs \<mapsto> \<lparr>content = c, perm = 420\<rparr>,
                flag_value ''out-key'' [] vs \<mapsto> \<lparr>content = k, perm = 384\<rparr>)"
proof -
  let ?cert = "flag_value ''out-cert'' [] vs" and ?key = "flag_value ''out-key'' [] vs"
  obtain f g ca host c k where r: "files w (flag_value ''ca-cert'' [] vs) = Some f"
    "files w (flag_value ''ca-key'' [] vs) = Some g" "Decode cr (content f) (Some (content g)) = Inr ca"
    "GenerateHostCert cr (Some ca) hn (flag_values ''san'' vs)
      (duration_value pd ''lifetime'' (365 * 24 * hour) vs) now = Inr host" "Encode cr host = Inr (c, k)"
    "runPKICert cr pd ps now args w = write_pair ps ?cert ?key c k w"
    using assms
    by (auto simp: runPKICert_def Let_def ok_iff read_file_def
        split: if_splits sum.splits option.splits call_outcome.splits)
  with assms(1) write_pair_ok [of ps ?cert ?key c k w] show ?thesis by auto
qed

section \<open>Properties\<close>

text \<open>
  C35. \<open>pki init\<close> followed by \<open>pki cert\<close> on its output, when both succeed and
  each writes its two files to different paths: the CA files have modes 0644 and 0600 whatever was there
  before and decode, for lossless library codecs, to the CA that \<open>init\<close> generated; the host
  files have modes 0644 and 0600 and decode to a certificate that was signed with that CA's key, as that
  CA, for a non-CA template with the host name of the command line, the DNS names and the end of
  validity it asks for and the public half of the very key in the key file.
\<close>

theorem pki_init_then_cert:
  assumes "codecs_lossless cr" and "codecs_lossless cr'"
    and "fst (runPKIInit cr pd ps now args w) = None"
    and "parse_flags (pki_init_flags pd) args = Inr (vs, rest)"
    and "one_positional (pki_cert_flags pd) args' = Inr (hn, vs')"
    and "flag_value ''ca-cert'' [] vs' = flag_value ''ca-cert'' [] vs"
    and "flag_value ''ca-key'' [] vs' = flag_value ''ca-key'' [] vs"
    and "flag_value ''ca-cert'' [] vs \<noteq> flag_value ''ca-key'' [] vs"
    and "flag_value ''out-cert'' [] vs' \<noteq> flag_value ''out-key'' [] vs'"
    and "w1 = snd (runPKIInit cr pd ps now args w)"
    and "fst (runPKICert cr' pd ps' now' args' w1) = None"
    and "w2 = snd (runPKICert cr' pd ps' now' args' w1)"
    and "pem_decode cr' = pem_decode cr" "parse_cert cr' = parse_cert cr" "parse_key cr' = parse_key cr"
  shows "\<exists>ca caKey caCertPEM caKeyPEM host tmpl pub priv certPEM keyPEM.
    GenerateCA cr (flag_value ''cn'' ''mesh-checker CA'' vs)
      (duration_value pd ''lifetime'' (10 * 365 * 24 * hour) vs) now = Inr ca \<and> m_Key ca = Some caKey \<and>
    files w1 (flag_value ''ca-cert'' [] vs) = Some \<lparr>content = caCertPEM, perm = 420\<rparr> \<and>
    files w1 (flag_value ''ca-key'' [] vs) = Some \<lparr>content = caKeyPEM, perm = 384\<rparr> \<and>
    Decode cr caCertPEM (Some caKeyPEM) = Inr ca \<and>
    gen_key cr' = Inr (pub, priv) \<and> m_Key host = Some priv \<and>
    create_cert cr' tmpl (SignedBy (m_Cert ca)) pub caKey = Inr (m_DER host) \<and>
    CommonName tmpl = hn \<and> \<not> IsCA tmpl \<and>
    DNSNames tmpl = filter (\<lambda>s. parse_ip cr' s = None) (flag_values ''san'' vs') \<and>
    NotAfter tmpl = time_add (snd now') (duration_value pd ''lifetime'' (365 * 24 * hour) vs') \<and>
    files w2 (flag_value ''out-cert'' [] vs') = Some \<lparr>content = certPEM, perm = 420\<rparr> \<and>
    files w2 (flag_value ''out-key'' [] vs') = Some \<lparr>content = keyPEM, perm = 384\<rparr> \<and>
    Decode cr' certPEM (Some keyPEM) = Inr host"
proof -
  let ?cert = "flag_value ''ca-cert'' [] vs" and ?key = "flag_value ''ca-key'' [] vs"
  obtain ca c k where ca: "GenerateCA cr (flag_value ''cn'' ''mesh-checker CA'' vs)
      (duration_value pd ''lifetime'' (10 * 365 * 24 * hour) vs) now = Inr ca"
    "Encode cr ca = Inr (c, k)"
    and files1: "files w1 = (files w)(?cert \<mapsto> \<lparr>content = c, perm = 420\<rparr>, ?key \<mapsto> \<lparr>content = k, perm = 384\<rparr>)"
    using runPKIInit_ok [OF assms(3,4)] assms(10) by blast
  from GenerateCA_ok [OF ca(1)] obtain kk where kk: "m_Key ca = Some kk" "parse_cert cr (m_DER ca) = Inr (m_Cert ca)"
    by blast
  from Decode_Encode(1) [OF assms(1) kk ca(2)] have dec: "Decode cr c (Some k) = Inr ca" .
  moreover have "Decode cr' c (Some k) = Decode cr c (Some k)"
    by (simp only: Decode_def assms(13-15))
  moreover have "map_option content (files w1 ?cert) = Some c" "map_option content (files w1 ?key) = Some k"
    using assms(8) by (simp_all add: files1)
  ultimately obtain host c2 k2 where host:
    "GenerateHostCert cr' (Some ca) hn (flag_values ''san'' vs')
      (duration_value pd ''lifetime'' (365 * 24 * hour) vs') now' = Inr host"
    "Encode cr' host = Inr (c2, k2)"
    and files2: "files w2 = (files w1)(flag_value ''out-cert'' [] vs' \<mapsto> \<lparr>content = c2, perm = 420\<rparr>,
      flag_value ''out-key'' [] vs' \<mapsto> \<lparr>content = k2, perm = 384\<rparr>)"
    using runPKICert_ok [OF assms(11,5)] assms(6,7,12) by fastforce
  from GenerateHostCert_ok [OF host(1)] obtain pub priv serial tmpl where h:
    "gen_key cr' = Inr (pub, priv)"
    "tmpl = host_template (parse_ip cr') hn (flag_values ''san'' vs')
       (duration_value pd ''lifetime'' (365 * 24 * hour) vs') serial now'"
    "create_cert cr' tmpl (SignedBy (m_Cert ca)) pub kk = Inr (m_DER host)"
    "m_Key host = Some priv" "parse_cert cr' (m_DER host) = Inr (m_Cert host)"
    using kk(1) by auto
  have "Decode cr' c2 (Some k2) = Inr host" by (rule Decode_Encode(1) [OF assms(2) h(4,5) host(2)])
  with ca(1) kk(1) files1 dec h files2 assms(8,9) show ?thesis
    by (intro exI [of _ ca] exI [of _ kk] exI [of _ c] exI [of _ k] exI [of _ host] exI [of _ tmpl]
        exI [of _ pub] exI [of _ priv] exI [of _ c2] exI [of _ k2]) (simp add: host_template_simps)
qed

text \<open>A toy signature scheme with a lossless text form, for the witness.\<close>

definition toy_pem :: "string \<Rightarrow> byte list \<Rightarrow> string" where
  "toy_pem ty bs = replicate (length ty) CHR ''x'' @ CHR ''|'' # ty @ string_of bs"

definition toy_unpem :: "string \<Rightarrow> (string \<times> byte list) option" where
  "toy_unpem s =
     (let n = length (takeWhile (\<lambda>c. c = CHR ''x'') s); r = drop (Suc n) s
      in Some (take n r, bytes_of (drop n r)))"

definition toy_crypto :: "(byte list, byte, unit, unit) crypto" where
  "toy_crypto =
     \<lparr>gen_key = Inr ((), 7), gen_serial = Inr 5, create_cert = (\<lambda>tmpl sg pub k. Inr (k # bytes_of (CommonName tmpl))),
      parse_cert = (\<lambda>der. Inr der), parse_ip = (\<lambda>_. None), pem_encode = toy_pem,
      pem_decode = toy_unpem, marshal_key = (\<lambda>k. Inr [k]),
      parse_key = (\<lambda>bs. case bs of [k] \<Rightarrow> Inr (Some k) | _ \<Rightarrow> Inl ''bad key'')\<rparr>"

lemma toy_lossless: "codecs_lossless toy_crypto"
proof -
  have "takeWhile (\<lambda>c. c = CHR ''x'') (replicate n CHR ''x'' @ CHR ''|'' # r) = replicate n CHR ''x''" for n r
    by (induction n) auto
  then have "toy_unpem (toy_pem ty bs) = Some (ty, bs)" for ty bs
    by (simp add: toy_unpem_def toy_pem_def Let_def)
  then show ?thesis by (simp add: codecs_lossless_def toy_crypto_def)
qed

definition pki_all_ok :: pki_sys where
  "pki_all_ok = \<lparr>ps_read_cert = CallOk, ps_read_key = CallOk, ps_write_cert = WriteOk, ps_chmod_cert = CallOk,
     ps_write_key = WriteOk, ps_chmod_key = CallOk\<rparr>"

definition empty_world :: world where
  "empty_world = \<lparr>files = Map.empty, stdout_text = [], warnings_text = []\<rparr>"

lemma write_pair_all_ok:
  "fst (write_pair pki_all_ok a b c k w) = None"
  by (simp add: write_pair_def pki_all_ok_def writeStrict_def write_file_def put_file_def chmod_file_def)

theorem pki_init_then_cert_witness:
  "\<exists>w2 c k. w2 = snd (runPKICert toy_crypto (\<lambda>_. None) pki_all_ok (9, 10)
        [''h'', ''--ca-cert=c'', ''--ca-key=k'', ''--out-cert=hc'', ''--out-key=hk'']
        (snd (runPKIInit toy_crypto (\<lambda>_. None) pki_all_ok (3, 4) [''--ca-cert=c'', ''--ca-key=k''] empty_world))) \<and>
     files w2 ''hc'' = Some \<lparr>content = c, perm = 420\<rparr> \<and> files w2 ''hk'' = Some \<lparr>content = k, perm = 384\<rparr> \<and>
     (\<exists>host. Decode toy_crypto c (Some k) = Inr host \<and> m_DER host = 7 # bytes_of ''h'')"
proof -
  let ?args = "[''--ca-cert=c'', ''--ca-key=k'']"
  let ?args' = "[''h'', ''--ca-cert=c'', ''--ca-key=k'', ''--out-cert=hc'', ''--out-key=hk'']"
  let ?vs = "[(''ca-cert'', ''c''), (''ca-key'', ''k'')]"
  let ?vs' = "[(''ca-cert'', ''c''), (''ca-key'', ''k''), (''out-cert'', ''hc''), (''out-key'', ''hk'')]"
  let ?w1 = "snd (runPKIInit toy_crypto (\<lambda>_. None) pki_all_ok (3, 4) ?args empty_world)"
  have p: "parse_flags (pki_init_flags (\<lambda>_. None)) ?args = Inr (?vs, [])"
    by (simp add: scan_arg_def pki_init_flags_def set_flag_def any_value_def)
  have p': "one_positional (pki_cert_flags (\<lambda>_. None)) ?args' = Inr (''h'', ?vs')"
    by (simp add: one_positional_def is_positional_def scan_arg_def pki_cert_flags_def set_flag_def any_value_def)
  have vals: "flag_value ''ca-cert'' [] ?vs = ''c''" "flag_value ''ca-key'' [] ?vs = ''k''"
    "flag_value ''ca-cert'' [] ?vs' = ''c''" "flag_value ''ca-key'' [] ?vs' = ''k''"
    "flag_value ''out-cert'' [] ?vs' = ''hc''" "flag_value ''out-key'' [] ?vs' = ''hk''"
    "flag_value ''cn'' ''mesh-checker CA'' ?vs = ''mesh-checker CA''"
    by (simp_all add: flag_value_def)
  let ?dn = "bytes_of ''mesh-checker CA''" and ?h = "bytes_of ''h''"
  let ?ca = "\<lparr>m_Cert = 7 # ?dn, m_DER = 7 # ?dn, m_Key = Some 7\<rparr> :: (byte list, byte) material"
  let ?host = "\<lparr>m_Cert = 7 # ?h, m_DER = 7 # ?h, m_Key = Some 7\<rparr> :: (byte list, byte) material"
  have gen: "GenerateCA toy_crypto ''mesh-checker CA'' lt now = Inr ?ca"
    "GenerateHostCert toy_crypto (Some ?ca) ''h'' sans lt now = Inr ?host"
    "Encode toy_crypto \<lparr>m_Cert = d', m_DER = d, m_Key = Some k\<rparr> =
       Inr (toy_pem ''CERTIFICATE'' d, toy_pem ''PRIVATE KEY'' [k])" for lt now sans d' d k
    by (simp_all add: GenerateCA_def GenerateHostCert_def Encode_def toy_crypto_def newSerial_def Let_def
        ca_template_def host_template_simps)
  have init: "runPKIInit toy_crypto (\<lambda>_. None) pki_all_ok (3, 4) ?args empty_world =
      write_pair pki_all_ok ''c'' ''k'' (toy_pem ''CERTIFICATE'' (7 # ?dn)) (toy_pem ''PRIVATE KEY'' [7]) empty_world"
    unfolding runPKIInit_def p by (simp add: vals gen Let_def)
  have init_ok: "fst (runPKIInit toy_crypto (\<lambda>_. None) pki_all_ok (3, 4) ?args empty_world) = None"
    unfolding init by (rule write_pair_all_ok)
  have files1: "files ?w1 = [''c'' \<mapsto> \<lparr>content = toy_pem ''CERTIFICATE'' (7 # ?dn), perm = 420\<rparr>,
      ''k'' \<mapsto> \<lparr>content = toy_pem ''PRIVATE KEY'' [7], perm = 384\<rparr>]"
    unfolding init write_pair_ok [OF write_pair_all_ok] by (simp add: empty_world_def)
  have dec: "Decode toy_crypto (toy_pem ''CERTIFICATE'' d) (Some (toy_pem ''PRIVATE KEY'' [7])) =
      Inr \<lparr>m_Cert = d, m_DER = d, m_Key = Some 7\<rparr>" for d
    by (rule Decode_Encode(1) [OF toy_lossless _ _ gen(3)]) (simp_all add: toy_crypto_def)
  have cert: "runPKICert toy_crypto (\<lambda>_. None) pki_all_ok (9, 10) ?args' ?w1 =
      write_pair pki_all_ok ''hc'' ''hk'' (toy_pem ''CERTIFICATE'' (7 # ?h)) (toy_pem ''PRIVATE KEY'' [7]) ?w1"
  proof -
    have reads: "ps_read_cert pki_all_ok = CallOk" "ps_read_key pki_all_ok = CallOk"
      by (simp_all add: pki_all_ok_def)
    have "read_file (ps_read_cert pki_all_ok) ''c'' (files ?w1) = Inr (toy_pem ''CERTIFICATE'' (7 # ?dn))"
      "read_file (ps_read_key pki_all_ok) ''k'' (files ?w1) = Inr (toy_pem ''PRIVATE KEY'' [7])"
      unfolding files1 reads by (simp_all add: read_file_def)
    then show ?thesis unfolding runPKICert_def p' by (simp add: vals dec gen Let_def)
  qed
  have cert_ok: "fst (runPKICert toy_crypto (\<lambda>_. None) pki_all_ok (9, 10) ?args' ?w1) = None"
    unfolding cert by (rule write_pair_all_ok)
  have neq: "flag_value ''ca-cert'' [] ?vs \<noteq> flag_value ''ca-key'' [] ?vs"
    "flag_value ''out-cert'' [] ?vs' \<noteq> flag_value ''out-key'' [] ?vs'" by (simp_all add: vals)
  from pki_init_then_cert [OF toy_lossless toy_lossless init_ok p p' _ _ neq refl cert_ok refl refl refl refl]
  obtain ca caKey host tmpl pub c k where out: "GenerateCA toy_crypto ''mesh-checker CA''
      (duration_value (\<lambda>_. None) ''lifetime'' (10 * 365 * 24 * hour) ?vs) (3, 4) = Inr ca" "m_Key ca = Some caKey"
    "create_cert toy_crypto tmpl (SignedBy (m_Cert ca)) pub caKey = Inr (m_DER host)" "CommonName tmpl = ''h''"
    "files (snd (runPKICert toy_crypto (\<lambda>_. None) pki_all_ok (9, 10) ?args' ?w1)) ''hc'' = Some \<lparr>content = c, perm = 420\<rparr>"
    "files (snd (runPKICert toy_crypto (\<lambda>_. None) pki_all_ok (9, 10) ?args' ?w1)) ''hk'' = Some \<lparr>content = k, perm = 384\<rparr>"
    "Decode toy_crypto c (Some k) = Inr host"
    unfolding vals by blast
  have "caKey = 7" using out(1,2) unfolding gen by auto
  then have "m_DER host = 7 # ?h" using out(3,4) by (simp add: toy_crypto_def)
  with out(5-7) show ?thesis by blast
qed

end
