(* ===== verification/Cli_Main.thy ===== *)
theory Cli_Main
  imports Serve_Run Pki "HOL-Library.Char_ord" "HOL-Library.List_Lexorder"
begin

text \<open>
  \<open>internal/pkg/cli/cli.go\<close> (the table of subcommands and its dispatcher),
  \<open>internal/pkg/cli/status.go\<close> (the \<open>status\<close> table) and the \<open>main\<close> function of
  \<open>cmd/mesh-checker/main.go\<close>. Strings are ordered byte by byte, as \<open>sort.Strings\<close> does.
\<close>

section \<open>status.go\<close>

datatype status_error =
    StatusFlag flag_error
  | StatusLoad file_error
  | StatusReadCA string
  | StatusKeyPair string
  | StatusAddr addr_error

text \<open>
  The environment of the command: the configuration file's codec, the certificate files, the order
  in which the map of URLs is iterated, and the HTTP client's calls (per host, one request each).
\<close>

record ('pool, 'cert) status_env =
  st_sys :: sys
  st_read_ca :: "string \<Rightarrow> string + string"
  st_ca_pool :: "string \<Rightarrow> 'pool"
  st_key_pair :: "string \<Rightarrow> string \<Rightarrow> string + 'cert"
  st_order :: "(string \<rightharpoonup> string) \<Rightarrow> string list"
  st_new_request :: "string \<Rightarrow> string option"
  st_do_get :: "('cert, 'pool) tls_config \<Rightarrow> string \<Rightarrow> string \<Rightarrow> string + (int \<times> string)"
  st_decode :: "string \<Rightarrow> string + observer_view"

text \<open>A row of the table: the host of the answer and the number of its peers, or the error.\<close>

datatype status_row = RowYes string nat | RowNo string fetch_error

definition samples_count :: "observer_view \<Rightarrow> nat" where
  "samples_count v = (case Samples v of None \<Rightarrow> 0 | Some m \<Rightarrow> card (dom m))"

fun status_rows :: "(string \<Rightarrow> fetch_error + observer_view) \<Rightarrow> string list \<Rightarrow> status_row list" where
  "status_rows fetch [] = []"
| "status_rows fetch (name # names) =
     (case fetch name of
        Inl err \<Rightarrow> RowNo name err # status_rows fetch names
      | Inr v \<Rightarrow> RowYes (Host v) (samples_count v) # status_rows fetch names)"

definition status_table ::
    "('pool, 'cert) status_env \<Rightarrow> string list \<Rightarrow> fs \<Rightarrow> status_error + status_row list" where
  "status_table env args fl =
     (case parse_flags (addConfigFlag Map.empty) args of
        Inl e \<Rightarrow> Inl (StatusFlag e)
      | Inr (vs, _) \<Rightarrow>
        (case Load (st_sys env) (config_path vs) fl of
           Inl e \<Rightarrow> Inl (StatusLoad e)
         | Inr cfg \<Rightarrow>
           (case st_read_ca env (CACertPath (C_PKI cfg)) of
              Inl e \<Rightarrow> Inl (StatusReadCA e)
            | Inr caPEM \<Rightarrow>
              let caPool = st_ca_pool env caPEM in
              (case st_key_pair env (HostCertPath (C_PKI cfg)) (HostKeyPath (C_PKI cfg)) of
                 Inl e \<Rightarrow> Inl (StatusKeyPair e)
               | Inr tlsCert \<Rightarrow>
                 (case split_host_port (LA_Addr (L_InterHost (C_Listeners cfg))) of
                    Inl e \<Rightarrow> Inl (StatusAddr e)
                  | Inr (_, ihPort) \<Rightarrow>
                    let m = peer_urls cfg ihPort;
                        cl = NewClient m;
                        tls = ClientTLSConfig caPool tlsCert
                    in Inr (status_rows
                              (\<lambda>name. Fetch (st_new_request env) (st_do_get env tls name) (st_decode env) cl name)
                              (st_order env m)))))))"

text \<open>The rows are laid out by \<open>text/tabwriter\<close>, the parameter \<open>layout\<close>.\<close>

definition runStatus ::
    "('pool, 'cert) status_env \<Rightarrow> (status_row list \<Rightarrow> string) \<Rightarrow> string list \<Rightarrow> world \<Rightarrow>
     status_error option \<times> world" where
  "runStatus env layout args w =
     (case status_table env args (files w) of
        Inl e \<Rightarrow> (Some e, w)
      | Inr rows \<Rightarrow> (None, w\<lparr>stdout_text := stdout_text w @ layout rows\<rparr>))"

section \<open>cli.go\<close>

record ('w, 'e) subcommand =
  summary :: string
  sc_run :: "string list \<Rightarrow> 'w \<Rightarrow> 'e option \<times> 'w"

type_synonym ('w, 'e) registry = "string \<rightharpoonup> ('w, 'e) subcommand"

definition register ::
    "string \<Rightarrow> string \<Rightarrow> (string list \<Rightarrow> 'w \<Rightarrow> 'e option \<times> 'w) \<Rightarrow> ('w, 'e) registry \<Rightarrow> panic + ('w, 'e) registry" where
  "register name smry run m =
     (if m name \<noteq> None then Inl (CalleePanic (''cli: duplicate subcommand '' @ name))
      else Inr (m(name \<mapsto> \<lparr>summary = smry, sc_run = run\<rparr>)))"

text \<open>\<open>%-12s\<close> pads on the right to twelve characters.\<close>

definition pad12 :: "string \<Rightarrow> string" where
  "pad12 s = s @ replicate (12 - length s) CHR '' ''"

text \<open>\<open>order\<close> is the order in which the map of subcommands is iterated; the names are then sorted.\<close>

definition printUsage :: "('w, 'e) registry \<Rightarrow> string list \<Rightarrow> string list" where
  "printUsage m order =
     ''usage: mesh-checker <subcommand> [flags]'' # ''subcommands:'' #
     map (\<lambda>n. ''  '' @ pad12 n @ '' '' @ (case m n of None \<Rightarrow> [] | Some sc \<Rightarrow> summary sc)) (sort order)"

datatype 'e run_error = NoSubcommandGiven | UnknownSubcommandGiven string | Failed 'e

text \<open>The error, the lines of the usage message (on the standard error output), and the world.\<close>

definition Run_cli ::
    "('w, 'e) registry \<Rightarrow> string list \<Rightarrow> string list \<Rightarrow> 'w \<Rightarrow> 'e run_error option \<times> string list \<times> 'w" where
  "Run_cli m order args w =
     (case args of
        [] \<Rightarrow> (Some NoSubcommandGiven, printUsage m order, w)
      | name # rest \<Rightarrow>
        (case m name of
           None \<Rightarrow> (Some (UnknownSubcommandGiven name), printUsage m order, w)
         | Some sc \<Rightarrow> (case sc_run sc rest w of (e, w') \<Rightarrow> (map_option Failed e, [], w'))))"

section \<open>The program's table\<close>

datatype command_error =
    InConfig cli_error
  | InHost cli_error
  | InPKI pki_error
  | InServe serve_error
  | InStatus status_error
  | InUser cli_error

definition with_error :: "('e \<Rightarrow> 'f) \<Rightarrow> 'e option \<times> 'w \<Rightarrow> 'f option \<times> 'w" where
  "with_error f r = (map_option f (fst r), snd r)"

text \<open>What the commands need from outside.\<close>

record ('pool, 'cert, 'key, 'pub, 'ip) program_env =
  e_sys :: sys
  e_layout :: "string list list \<Rightarrow> string"
  e_password :: "string + string"
  e_bcrypt_hash :: "string \<Rightarrow> string + string"
  e_crypto :: "('cert, 'key, 'pub, 'ip) crypto"
  e_duration :: "string \<Rightarrow> duration option"
  e_pki_sys :: pki_sys
  e_now :: "time \<times> time"
  e_serve :: "('pool, 'cert) serve_env"
  e_status :: "('pool, 'cert) status_env"
  e_status_layout :: "status_row list \<Rightarrow> string"

text \<open>After the wiring \<open>serve\<close> returns nil when its context is cancelled (\<open>Serve_Run\<close>).\<close>

definition serve_command ::
    "('pool, 'cert, 'key, 'pub, 'ip) program_env \<Rightarrow> string list \<Rightarrow> world \<Rightarrow> command_error option \<times> world" where
  "serve_command env args w =
     (case runServe (e_serve env) args (files w) of
        Inl e \<Rightarrow> (Some (InServe e), w)
      | Inr _ \<Rightarrow> (None, w))"

text \<open>The \<open>init\<close> function of each file of the package.\<close>

type_synonym table = "(world, command_error) registry"

definition init_config :: "('pool, 'cert, 'key, 'pub, 'ip) program_env \<Rightarrow> table \<Rightarrow> panic + table" where
  "init_config env = register ''config'' ''configuration helpers: validate''
     (\<lambda>args w. with_error InConfig (runConfig (e_sys env) args w))"

definition init_host :: "('pool, 'cert, 'key, 'pub, 'ip) program_env \<Rightarrow> table \<Rightarrow> panic + table" where
  "init_host env = register ''host'' ''manage peer hosts: add|remove|list''
     (\<lambda>args w. with_error InHost (runHost (e_sys env) (e_layout env) args w))"

definition init_pki :: "('pool, 'cert, 'key, 'pub, 'ip) program_env \<Rightarrow> table \<Rightarrow> panic + table" where
  "init_pki env = register ''pki''
     (''PKI helpers: '' @ [CHR 0x27] @ ''pki init'' @ [CHR 0x27] @ '' or '' @
      [CHR 0x27] @ ''pki cert <host>'' @ [CHR 0x27])
     (\<lambda>args w. with_error InPKI (runPKI (e_crypto env) (e_duration env) (e_pki_sys env) (e_now env) args w))"

definition init_serve :: "('pool, 'cert, 'key, 'pub, 'ip) program_env \<Rightarrow> table \<Rightarrow> panic + table" where
  "init_serve env = register ''serve'' ''run daemon + all three listeners'' (serve_command env)"

definition init_status :: "('pool, 'cert, 'key, 'pub, 'ip) program_env \<Rightarrow> table \<Rightarrow> panic + table" where
  "init_status env = register ''status'' ''show mesh status table''
     (\<lambda>args w. with_error InStatus (runStatus (e_status env) (e_status_layout env) args w))"

definition init_user :: "('pool, 'cert, 'key, 'pub, 'ip) program_env \<Rightarrow> table \<Rightarrow> panic + table" where
  "init_user env = register ''user'' ''manage UI users: add|remove''
     (\<lambda>args w. with_error InUser (runUser (e_sys env) (e_password env) (e_bcrypt_hash env) args w))"

text \<open>The run-time system calls them in the order of the files.\<close>

definition program :: "('pool, 'cert, 'key, 'pub, 'ip) program_env \<Rightarrow> panic + table" where
  "program env =
     run_all (\<lambda>ini. ini env) [init_config, init_host, init_pki, init_serve, init_status, init_user] Map.empty"

lemmas cli_init_defs = init_config_def init_host_def init_pki_def init_serve_def init_status_def init_user_def

text \<open>\<open>main\<close>: the exit code and the lines on the standard error output; \<open>text_of\<close> is the error's text.\<close>

definition main_exit ::
    "('e run_error \<Rightarrow> string) \<Rightarrow> ('w, 'e) registry \<Rightarrow> string list \<Rightarrow> string list \<Rightarrow> 'w \<Rightarrow> int \<times> string list \<times> 'w" where
  "main_exit text_of m order args w =
     (case Run_cli m order args w of
        (None, lines, w') \<Rightarrow> (0, lines, w')
      | (Some err, lines, w') \<Rightarrow> (1, lines @ [''error: '' @ text_of err], w'))"

section \<open>Lemmas\<close>

text \<open>The usage message does not depend on the order in which the map is iterated.\<close>

lemma usage_order_irrelevant:
  assumes "distinct order" "set order = dom m"
  shows "printUsage m order = printUsage m (sorted_list_of_set (dom m))"
proof -
  have "sort order = sorted_list_of_set (dom m)"
    using assms by (metis sorted_list_of_set_sort_remdups distinct_remdups_id)
  moreover have "sort (sorted_list_of_set (dom m)) = sorted_list_of_set (dom m)"
    by (rule sorted_sort_id) simp
  ultimately show ?thesis by (simp add: printUsage_def)
qed

lemma program_registered: "\<exists>m. program env = Inr m \<and>
    dom m = {''config'', ''host'', ''pki'', ''serve'', ''status'', ''user''}"
  by (auto simp: program_def cli_init_defs register_def)

lemma status_rows_eq:
  "status_rows fetch names =
     map (\<lambda>n. case fetch n of Inl e \<Rightarrow> RowNo n e | Inr v \<Rightarrow> RowYes (Host v) (samples_count v)) names"
  by (induction names) (auto split: sum.splits)

lemma status_table_InrD:
  assumes "status_table env args fl = Inr rows"
  shows "\<exists>vs rest cfg tls ihPort. parse_flags (addConfigFlag Map.empty) args = Inr (vs, rest) \<and>
    Load (st_sys env) (config_path vs) fl = Inr cfg \<and>
    rows = status_rows (\<lambda>n. Fetch (st_new_request env) (st_do_get env tls n) (st_decode env)
                              (NewClient (peer_urls cfg ihPort)) n) (st_order env (peer_urls cfg ihPort)) \<and>
    (\<exists>host. split_host_port (LA_Addr (L_InterHost (C_Listeners cfg))) = Inr (host, ihPort)) \<and>
    (\<exists>caPool cert. tls = ClientTLSConfig caPool cert \<and>
       st_key_pair env (HostCertPath (C_PKI cfg)) (HostKeyPath (C_PKI cfg)) = Inr cert)"
proof -
  from assms obtain vs rest cfg pem cert h ihPort where
    "parse_flags (addConfigFlag Map.empty) args = Inr (vs, rest)"
    "Load (st_sys env) (config_path vs) fl = Inr cfg"
    "st_read_ca env (CACertPath (C_PKI cfg)) = Inr pem"
    "st_key_pair env (HostCertPath (C_PKI cfg)) (HostKeyPath (C_PKI cfg)) = Inr cert"
    "split_host_port (LA_Addr (L_InterHost (C_Listeners cfg))) = Inr (h, ihPort)"
    by (auto simp: status_table_def Let_def split: sum.splits)
  with assms show ?thesis
    by (intro exI [of _ vs] exI [of _ rest] exI [of _ cfg]
        exI [of _ "ClientTLSConfig (st_ca_pool env pem) cert"] exI [of _ ihPort])
      (auto simp: status_table_def Let_def)
qed

end
