(* ===== verification/View_Json.thy ===== *)
theory View_Json
  imports Config_Codec Go_Rfc3339 Aggregator "HOL-Library.Char_ord" "HOL-Library.List_Lexorder"
begin

text \<open>
  The text of the views: the tags of \<open>Sample\<close>, \<open>ObserverView\<close> and \<open>MeshView\<close> in
  \<open>internal/pkg/aggregator/aggregator.go\<close> as \<open>encoding/json\<close> prints them (compact, the members
  of a map in the order of its keys) and as a plain \<open>json.Decoder\<close> reads an \<open>ObserverView\<close>
  (unknown members are skipped). Names and errors are those of \<open>Config_Json\<close>. The laws: what is
  printed of a view of valid UTF-8 strings decodes to that view, and the text is one line.
\<close>

section \<open>Printing\<close>

text \<open>
  What the text depends on and the model of a view does not hold: the zone offset, in seconds, in which a
  time is expressed, and which of the empty inner maps are nil.
\<close>

record view_repr =
  vr_zone :: "time \<Rightarrow> int"
  vr_nil :: "string \<Rightarrow> bool"

text \<open>A map's members, sorted by key; \<open>None\<close> when a value cannot be marshalled.\<close>

definition members_json :: "(string \<Rightarrow> 'v \<Rightarrow> json option) \<Rightarrow> (string \<rightharpoonup> 'v) \<Rightarrow> string list \<Rightarrow> (string \<times> json) list option" where
  "members_json f m ks = those (map (\<lambda>k. map_option (Pair k) (f k (the (m k)))) ks)"

definition map_json :: "bool \<Rightarrow> (string \<Rightarrow> 'v \<Rightarrow> json option) \<Rightarrow> (string \<rightharpoonup> 'v) \<Rightarrow> json option" where
  "map_json is_nil f m =
     (if is_nil \<and> dom m = {} then Some JNull
      else map_option JObj (members_json f m (sorted_list_of_set (dom m))))"

definition sample_json :: "(time \<Rightarrow> int) \<Rightarrow> sample \<Rightarrow> json option" where
  "sample_json zone x =
     map_option (\<lambda>t. JObj [(''state'', JStr (State x)), (''lastTs'', JStr t)])
       (format_rfc3339 (zone (LastTS x)) (LastTS x))"

definition samples_json :: "view_repr \<Rightarrow> (string \<rightharpoonup> (protocol \<rightharpoonup> sample)) option \<Rightarrow> json option" where
  "samples_json r s =
     (case s of
        None \<Rightarrow> Some JNull
      | Some m \<Rightarrow> map_json False (\<lambda>p. map_json (vr_nil r p) (\<lambda>_. sample_json (vr_zone r))) m)"

definition view_json :: "view_repr \<Rightarrow> observer_view \<Rightarrow> json option" where
  "view_json r v =
     map_option (\<lambda>j. JObj ([(''host'', JStr (Host v)), (''samples'', j), (''reachable'', JBool (Reachable v))] @
         (if Reason v = [] then [] else [(''reason'', JStr (Reason v))])))
       (samples_json r (Samples v))"

definition mesh_json :: "int \<Rightarrow> (string \<Rightarrow> view_repr) \<Rightarrow> mesh_view \<Rightarrow> json option" where
  "mesh_json off rs mv =
     (case format_rfc3339 off (GeneratedAt mv) of
        None \<Rightarrow> None
      | Some t \<Rightarrow>
        map_option (\<lambda>j. JObj [(''generatedAt'', JStr t), (''observers'', j)])
          (map_json False (\<lambda>p. view_json (rs p)) (Observers mv)))"

definition encode_view :: "view_repr \<Rightarrow> observer_view \<Rightarrow> string option" where
  "encode_view r v = map_option (print_json False 0) (view_json r v)"

definition encode_mesh :: "int \<Rightarrow> (string \<Rightarrow> view_repr) \<Rightarrow> mesh_view \<Rightarrow> string option" where
  "encode_mesh off rs mv = map_option (print_json False 0) (mesh_json off rs mv)"

section \<open>Decoding\<close>

text \<open>As \<open>decode_members\<close>, without \<open>DisallowUnknownFields\<close>.\<close>

fun read_members :: "'s fields \<Rightarrow> (string \<times> json) list \<Rightarrow> 's \<Rightarrow> json_error + 's" where
  "read_members fs [] s = Inr s"
| "read_members fs ((k, j) # ms) s =
     (case find_field fs k of
        None \<Rightarrow> read_members fs ms s
      | Some f \<Rightarrow> and_then (f j s) (read_members fs ms))"

definition read_struct :: "'s fields \<Rightarrow> json \<Rightarrow> 's \<Rightarrow> json_error + 's" where
  "read_struct fs j s =
     (case j of JObj ms \<Rightarrow> read_members fs ms s | JNull \<Rightarrow> Inr s | _ \<Rightarrow> Inl JsonType)"

definition decode_bool :: "(bool \<Rightarrow> 's \<Rightarrow> 's) \<Rightarrow> json \<Rightarrow> 's \<Rightarrow> json_error + 's" where
  "decode_bool put j s = (case j of JBool b \<Rightarrow> Inr (put b s) | JNull \<Rightarrow> Inr s | _ \<Rightarrow> Inl JsonType)"

text \<open>
  \<open>Time.UnmarshalJSON\<close>; \<open>lenient\<close> is the general \<open>time.Parse\<close>, which the library tries on a
  text that its parser of RFC 3339 refuses.
\<close>

definition decode_time :: "(string \<Rightarrow> time option) \<Rightarrow> (time \<Rightarrow> 's \<Rightarrow> 's) \<Rightarrow> json \<Rightarrow> 's \<Rightarrow> json_error + 's" where
  "decode_time lenient put j s =
     (case j of
        JStr t \<Rightarrow>
          (case parse_rfc3339 t of
             Some x \<Rightarrow> Inr (put x s)
           | None \<Rightarrow> (case lenient t of Some x \<Rightarrow> Inr (put x s) | None \<Rightarrow> Inl JsonType))
      | JNull \<Rightarrow> Inr s
      | _ \<Rightarrow> Inl JsonType)"

text \<open>Members are decoded into a zero value each and written into the map, which null makes nil.\<close>

fun read_map :: "(json \<Rightarrow> json_error + 'v) \<Rightarrow> (string \<times> json) list \<Rightarrow> (string \<rightharpoonup> 'v) \<Rightarrow> json_error + (string \<rightharpoonup> 'v)" where
  "read_map f [] m = Inr m"
| "read_map f ((k, j) # ms) m = and_then (f j) (\<lambda>v. read_map f ms (m(k \<mapsto> v)))"

definition decode_map :: "(json \<Rightarrow> json_error + 'v) \<Rightarrow> json \<Rightarrow> (string \<rightharpoonup> 'v) option \<Rightarrow> json_error + (string \<rightharpoonup> 'v) option" where
  "decode_map f j old =
     (case j of
        JNull \<Rightarrow> Inr None
      | JObj ms \<Rightarrow> and_then (read_map f ms (case old of None \<Rightarrow> Map.empty | Some m \<Rightarrow> m)) (\<lambda>m. Inr (Some m))
      | _ \<Rightarrow> Inl JsonType)"

definition zero_sample :: sample where "zero_sample = \<lparr>State = [], LastTS = zero_time\<rparr>"

definition sample_fields :: "(string \<Rightarrow> time option) \<Rightarrow> sample fields" where
  "sample_fields lenient =
     [(''state'', decode_string (\<lambda>t x. x\<lparr>State := t\<rparr>)),
      (''lastTs'', decode_time lenient (\<lambda>t x. x\<lparr>LastTS := t\<rparr>))]"

text \<open>A nil inner map and an empty one are the same in the model.\<close>

definition decode_inner :: "(string \<Rightarrow> time option) \<Rightarrow> json \<Rightarrow> json_error + (protocol \<rightharpoonup> sample)" where
  "decode_inner lenient j =
     and_then (decode_map (\<lambda>x. read_struct (sample_fields lenient) x zero_sample) j None) (\<lambda>mo.
       Inr (case mo of None \<Rightarrow> Map.empty | Some m \<Rightarrow> m))"

definition view_fields :: "(string \<Rightarrow> time option) \<Rightarrow> observer_view fields" where
  "view_fields lenient =
     [(''host'', decode_string (\<lambda>t v. v\<lparr>Host := t\<rparr>)),
      (''samples'', \<lambda>j v. and_then (decode_map (decode_inner lenient) j (Samples v)) (\<lambda>m. Inr (v\<lparr>Samples := m\<rparr>))),
      (''reachable'', decode_bool (\<lambda>b v. v\<lparr>Reachable := b\<rparr>)),
      (''reason'', decode_string (\<lambda>t v. v\<lparr>Reason := t\<rparr>))]"

definition zero_view :: observer_view where
  "zero_view = \<lparr>Host = [], Samples = None, Reachable = False, Reason = []\<rparr>"

text \<open>\<open>Decode\<close> on the body of an answer: its first value.\<close>

definition decode_view :: "(string \<Rightarrow> time option) \<Rightarrow> string \<Rightarrow> json_error + observer_view" where
  "decode_view lenient s =
     (case parse_json s of
        None \<Rightarrow> Inl JsonSyntax
      | Some (j, _) \<Rightarrow> read_struct (view_fields lenient) j zero_view)"

text \<open>The decoder of the client; the text of an error is not modelled.\<close>

definition view_decoder :: "(string \<Rightarrow> time option) \<Rightarrow> string \<Rightarrow> string + observer_view" where
  "view_decoder lenient s = (case decode_view lenient s of Inl _ \<Rightarrow> Inl ''json'' | Inr v \<Rightarrow> Inr v)"

section \<open>Maps\<close>

lemma members_json_Cons:
  "members_json f m (k # ks) = Some ms \<longleftrightarrow>
     (\<exists>j ms'. f k (the (m k)) = Some j \<and> members_json f m ks = Some ms' \<and> ms = (k, j) # ms')"
  by (auto simp: members_json_def split: option.splits)

lemma members_json_Nil [simp]: "members_json f m [] = Some []"
  by (simp add: members_json_def)

lemma read_members_json:
  assumes "members_json f m ks = Some ms" "distinct ks" "set ks \<subseteq> dom m"
    and "\<And>k v j. m k = Some v \<Longrightarrow> f k v = Some j \<Longrightarrow> g j = Inr v"
  shows "read_map g ms acc = Inr (acc ++ m |` set ks)"
  using assms(1-3)
proof (induction ks arbitrary: ms acc)
  case (Cons k ks)
  then obtain j ms' v where j: "f k (the (m k)) = Some j" "members_json f m ks = Some ms'" "ms = (k, j) # ms'" "m k = Some v"
    by (auto simp: members_json_Cons)
  have "acc(k \<mapsto> v) ++ m |` set ks = acc ++ m |` set (k # ks)"
    using j(4) Cons.prems(2) by (auto simp: fun_eq_iff map_add_def restrict_map_def split: option.splits)
  moreover have "read_map g ms' (acc(k \<mapsto> v)) = Inr (acc(k \<mapsto> v) ++ m |` set ks)"
    by (rule Cons.IH [OF j(2)]) (use Cons.prems in auto)
  ultimately show ?case using j assms(4) [of k v j] by (simp del: fun_upd_apply)
qed simp

lemma decode_map_json:
  assumes "map_json b f m = Some j" "finite (dom m)"
    and "\<And>k v j. m k = Some v \<Longrightarrow> f k v = Some j \<Longrightarrow> g j = Inr v"
  shows "decode_map g j None = Inr (if b \<and> dom m = {} then None else Some m)"
proof (cases "b \<and> dom m = {}")
  case True
  with assms(1) show ?thesis by (simp add: map_json_def decode_map_def split: if_splits)
next
  case False
  with assms(1) obtain ms where ms: "members_json f m (sorted_list_of_set (dom m)) = Some ms" "j = JObj ms"
    by (auto simp: map_json_def)
  have "read_map g ms Map.empty = Inr (Map.empty ++ m |` set (sorted_list_of_set (dom m)))"
    using ms(1) by (rule read_members_json) (use assms in auto)
  moreover have "m |` dom m = m" by (auto simp: fun_eq_iff restrict_map_def dom_def)
  ultimately show ?thesis using False assms(2) ms(2) by (auto simp: decode_map_def)
qed

lemma printable_members:
  assumes "members_json f m ks = Some ms" "set ks \<subseteq> dom m"
    and "\<And>k v. m k = Some v \<Longrightarrow> utf8_valid k \<and> (\<forall>j. f k v = Some j \<longrightarrow> printable d j)"
  shows "list_all (\<lambda>m. utf8_valid (fst m) \<and> printable d (snd m)) ms"
  using assms(1,2)
proof (induction ks arbitrary: ms)
  case (Cons k ks)
  then obtain j ms' v where "f k (the (m k)) = Some j" "members_json f m ks = Some ms'" "ms = (k, j) # ms'" "m k = Some v"
    by (auto simp: members_json_Cons)
  with Cons assms(3) show ?case by simp
qed simp

lemma printable_map_json:
  assumes "map_json b f m = Some j" "finite (dom m)" "0 < d"
    and "\<And>k v. m k = Some v \<Longrightarrow> utf8_valid k \<and> (\<forall>j. f k v = Some j \<longrightarrow> printable (d - 1) j)"
  shows "printable d j"
proof -
  from assms(1) have "j = JNull \<or> (\<exists>ms. members_json f m (sorted_list_of_set (dom m)) = Some ms \<and> j = JObj ms)"
    by (auto simp: map_json_def split: if_splits)
  then show ?thesis
    using printable_members [where f = f and m = m and d = "d - 1" and ks = "sorted_list_of_set (dom m)"] assms(2-4)
    by auto
qed

lemma members_json_total:
  "(\<And>k v. m k = Some v \<Longrightarrow> \<exists>j. f k v = Some j) \<Longrightarrow> set ks \<subseteq> dom m \<Longrightarrow> \<exists>ms. members_json f m ks = Some ms"
proof (induction ks)
  case (Cons k ks)
  then obtain v ms where v: "m k = Some v" "members_json f m ks = Some ms" by auto
  from Cons.prems(1) [OF v(1)] obtain j where "f k v = Some j" by blast
  with v have "m k = Some v" "f k v = Some j" "members_json f m ks = Some ms" by simp_all
  then have "members_json f m (k # ks) = Some ((k, j) # ms)" by (simp add: members_json_Cons)
  then show ?case by blast
qed simp

lemma map_json_total:
  assumes "\<And>k v. m k = Some v \<Longrightarrow> \<exists>j. f k v = Some j" "finite (dom m)"
  shows "\<exists>j. map_json b f m = Some j"
  using members_json_total [where m = m and f = f and ks = "sorted_list_of_set (dom m)"] assms
  by (auto simp: map_json_def)

section \<open>Representable views\<close>

definition time_ok :: "(time \<Rightarrow> int) \<Rightarrow> time \<Rightarrow> bool" where
  "time_ok zone t \<longleftrightarrow> \<bar>zone t\<bar> < 86400 \<and> zone t mod 60 = 0 \<and> printable_time (t + zone t * second)"

definition sample_ok :: "(time \<Rightarrow> int) \<Rightarrow> sample \<Rightarrow> bool" where
  "sample_ok zone x \<longleftrightarrow> utf8_valid (State x) \<and> time_ok zone (LastTS x)"

definition inner_ok :: "(time \<Rightarrow> int) \<Rightarrow> (protocol \<rightharpoonup> sample) \<Rightarrow> bool" where
  "inner_ok zone i \<longleftrightarrow> finite (dom i) \<and> (\<forall>c x. i c = Some x \<longrightarrow> utf8_valid c \<and> sample_ok zone x)"

text \<open>Valid UTF-8, and times with years of four digits in a zone of whole minutes.\<close>

definition view_ok :: "(time \<Rightarrow> int) \<Rightarrow> observer_view \<Rightarrow> bool" where
  "view_ok zone v \<longleftrightarrow> utf8_valid (Host v) \<and> utf8_valid (Reason v) \<and>
     (case Samples v of
        None \<Rightarrow> True
      | Some m \<Rightarrow> finite (dom m) \<and> (\<forall>p i. m p = Some i \<longrightarrow> utf8_valid p \<and> inner_ok zone i))"

lemma sample_json_ok:
  assumes "sample_ok zone x"
  shows "\<exists>j. sample_json zone x = Some j \<and> read_struct (sample_fields lenient) j zero_sample = Inr x \<and>
    (\<forall>d \<ge> 1. printable d j)"
proof -
  from assms obtain t where t: "format_rfc3339 (zone (LastTS x)) (LastTS x) = Some t"
    using format_printable by (auto simp: sample_ok_def time_ok_def)
  have "parse_rfc3339 t = Some (LastTS x)" using parse_format [OF t] assms by (simp add: sample_ok_def time_ok_def)
  moreover have "utf8_valid t" using utf8_valid_lit [of t] ascii_format [OF t] by simp
  ultimately show ?thesis
    using assms t
    by (cases x) (simp add: sample_json_def read_struct_def find_field_exact sample_fields_def decode_time_def zero_sample_def
        sample_ok_def)
qed

lemma inner_json_ok:
  assumes "inner_ok zone i"
  shows "\<exists>j. map_json b (\<lambda>_. sample_json zone) i = Some j \<and> decode_inner lenient j = Inr i \<and> (\<forall>d \<ge> 2. printable d j)"
proof -
  have ok: "finite (dom i)" "\<And>c x. i c = Some x \<Longrightarrow> utf8_valid c \<and> sample_ok zone x"
    using assms by (auto simp: inner_ok_def)
  obtain j where j: "map_json b (\<lambda>_. sample_json zone) i = Some j"
    using map_json_total [where m = i and f = "\<lambda>_. sample_json zone"] ok sample_json_ok by meson
  have "decode_map (\<lambda>x. read_struct (sample_fields lenient) x zero_sample) j None =
      Inr (if b \<and> dom i = {} then None else Some i)"
    using j ok(1) by (rule decode_map_json) (use ok(2) sample_json_ok in fastforce)
  then have "decode_inner lenient j = Inr i" by (auto simp: decode_inner_def)
  moreover have "printable d j" if "2 \<le> d" for d
    using j ok(1) by (rule printable_map_json) (use that ok(2) sample_json_ok in fastforce)+
  ultimately show ?thesis using j by blast
qed

lemma samples_json_ok:
  assumes "case s of None \<Rightarrow> True | Some m \<Rightarrow> finite (dom m) \<and> (\<forall>p i. m p = Some i \<longrightarrow> utf8_valid p \<and> inner_ok (vr_zone r) i)"
  shows "\<exists>j. samples_json r s = Some j \<and> decode_map (decode_inner lenient) j None = Inr s \<and> (\<forall>d \<ge> 3. printable d j)"
proof (cases s)
  case None
  then show ?thesis by (simp add: samples_json_def decode_map_def)
next
  case (Some m)
  let ?f = "\<lambda>p. map_json (vr_nil r p) (\<lambda>_. sample_json (vr_zone r))"
  have ok: "finite (dom m)" "\<And>p i. m p = Some i \<Longrightarrow> utf8_valid p \<and> inner_ok (vr_zone r) i"
    using assms Some by auto
  obtain j where j: "map_json False ?f m = Some j"
    using map_json_total [where m = m and f = ?f] ok inner_json_ok by meson
  have inner: "decode_inner lenient j = Inr i" "2 \<le> d \<Longrightarrow> printable d j" if "m p = Some i" "?f p i = Some j" for p i j d
    using inner_json_ok [of "vr_zone r" i "vr_nil r p" lenient] ok(2) [OF that(1)] that(2) by auto
  have "decode_map (decode_inner lenient) j None = Inr (if False \<and> dom m = {} then None else Some m)"
    using j ok(1) by (rule decode_map_json) (fact inner(1))
  moreover have "printable d j" if "3 \<le> d" for d
    using j ok(1) by (rule printable_map_json) (use that ok(2) inner(2) in auto)
  ultimately show ?thesis using j Some by (simp add: samples_json_def)
qed

lemma view_json_ok:
  assumes "view_ok (vr_zone r) v"
  shows "\<exists>j. view_json r v = Some j \<and> read_struct (view_fields lenient) j zero_view = Inr v \<and> (\<forall>d \<ge> 4. printable d j)"
proof -
  from assms have ok: "utf8_valid (Host v)" "utf8_valid (Reason v)"
    "case Samples v of None \<Rightarrow> True | Some m \<Rightarrow> finite (dom m) \<and> (\<forall>p i. m p = Some i \<longrightarrow> utf8_valid p \<and> inner_ok (vr_zone r) i)"
    by (simp_all add: view_ok_def)
  from samples_json_ok [OF ok(3), of lenient] obtain j where j: "samples_json r (Samples v) = Some j"
    "decode_map (decode_inner lenient) j None = Inr (Samples v)" "\<forall>d \<ge> 3. printable d j" by blast
  have fields: "map_of (view_fields lenient) ''host'' = Some (decode_string (\<lambda>t v. v\<lparr>Host := t\<rparr>))"
    "map_of (view_fields lenient) ''samples'' = Some (\<lambda>j v. and_then (decode_map (decode_inner lenient) j (Samples v))
       (\<lambda>m. Inr (v\<lparr>Samples := m\<rparr>)))"
    "map_of (view_fields lenient) ''reachable'' = Some (decode_bool (\<lambda>b v. v\<lparr>Reachable := b\<rparr>))"
    "map_of (view_fields lenient) ''reason'' = Some (decode_string (\<lambda>t v. v\<lparr>Reason := t\<rparr>))"
    by (simp_all add: view_fields_def)
  let ?j = "JObj ([(''host'', JStr (Host v)), (''samples'', j), (''reachable'', JBool (Reachable v))] @
    (if Reason v = [] then [] else [(''reason'', JStr (Reason v))]))"
  have "view_json r v = Some ?j" by (simp add: view_json_def j(1))
  moreover have "read_struct (view_fields lenient) ?j zero_view = Inr v"
    by (cases v) (use j(2) in \<open>simp add: read_struct_def find_field_exact fields decode_bool_def zero_view_def\<close>)
  moreover have "printable d ?j" if "4 \<le> d" for d
    using that j(3) ok(1,2) by simp
  ultimately show ?thesis by blast
qed

text \<open>Whatever follows the line break after the text is not read.\<close>

lemma decode_encode_view:
  assumes "view_ok (vr_zone r) v"
  shows "\<exists>b. encode_view r v = Some b \<and> decode_view lenient (b @ CHR 0x0A # junk) = Inr v"
proof -
  from view_json_ok [OF assms, of lenient] obtain j where
    j: "view_json r v = Some j" "read_struct (view_fields lenient) j zero_view = Inr v" "\<forall>d \<ge> 4. printable d j" by blast
  have "printable maxNestingDepth j" using j(3) by (simp add: maxNestingDepth_def)
  then have "parse_json (print_json False 0 j @ CHR 0x0A # junk) = Some (j, CHR 0x0A # junk)"
    by (rule parse_print) simp
  with j(1,2) show ?thesis by (simp add: encode_view_def decode_view_def)
qed

lemma view_decoder_encode:
  assumes "view_ok (vr_zone r) v"
  obtains b where "encode_view r v = Some b" "view_decoder lenient (b @ [CHR 0x0A]) = Inr v"
  using decode_encode_view [OF assms, of lenient "[]"] by (auto simp: view_decoder_def)

section \<open>The text is one line\<close>

definition no_control :: "string \<Rightarrow> bool" where
  "no_control s \<longleftrightarrow> (\<forall>c \<in> set s. 32 \<le> ord c)"

lemma no_control_simps [simp]:
  "no_control []" "no_control (c # s) \<longleftrightarrow> 32 \<le> ord c \<and> no_control s"
  "no_control (s @ t) \<longleftrightarrow> no_control s \<and> no_control t"
  by (auto simp: no_control_def)

lemma no_control_unicode_escape [simp]: "no_control (unicode_escape n)"
proof -
  have "32 \<le> ord (hex_digit d)" if "d < 16" for d
    using that by (simp add: hex_digit_def)
  then show ?thesis by (simp add: unicode_escape_def)
qed

lemma no_control_escape [simp]: "no_control (escape s)"
proof (induction s rule: escape.induct)
  case (2 c cs)
  show ?case
  proof (cases "ord c < 128")
    case True
    have "no_control (escape_ascii c)" by (simp add: escape_ascii_def)
    with True 2 show ?thesis by simp
  next
    case False
    define w where "w = rune_width (c # cs)"
    have "no_control (take w (c # cs))" if "w \<noteq> 0"
      using that rune_bytes [of "c # cs"] rune_width_ge_2 [OF False, of cs] by (force simp: no_control_def w_def)
    then have "no_control (escape_rune (take w (c # cs)))" if "w \<noteq> 0" using that by (simp add: escape_rune_def)
    with False 2(2-) w_def show ?thesis by (auto simp: Let_def)
  qed
qed simp

text \<open>The values of views have no numbers.\<close>

fun no_number :: "json \<Rightarrow> bool" where
  "no_number (JNum l) = False"
| "no_number (JArr js) = list_all no_number js"
| "no_number (JObj ms) = list_all (\<lambda>m. no_number (snd m)) ms"
| "no_number _ = True"

lemma print_one_line:
  "no_number j \<Longrightarrow> no_control (print_json False n j)"
  "list_all no_number js \<Longrightarrow> no_control (print_elems False n js)"
  "list_all (\<lambda>m. no_number (snd m)) ms \<Longrightarrow> no_control (print_members False n ms)"
  by (induction "False" n j and "False" n js and "False" n ms rule: print_json_print_elems_print_members.induct)
    (auto simp: quote_string_def nl_def)

lemma no_number_members:
  "members_json f m ks = Some ms \<Longrightarrow> (\<And>k v j. f k v = Some j \<Longrightarrow> no_number j) \<Longrightarrow> list_all (\<lambda>m. no_number (snd m)) ms"
  by (induction ks arbitrary: ms) (auto simp: members_json_Cons)

lemma no_number_map: "map_json b f m = Some j \<Longrightarrow> (\<And>k v j. f k v = Some j \<Longrightarrow> no_number j) \<Longrightarrow> no_number j"
  using no_number_members [where f = f and m = m and ks = "sorted_list_of_set (dom m)"]
  by (auto simp: map_json_def split: if_splits)

lemma no_number_view: "view_json r v = Some j \<Longrightarrow> no_number j"
proof -
  have inner: "map_json b (\<lambda>_. sample_json z) i = Some j \<Longrightarrow> no_number j" for b z i j
    by (erule no_number_map) (auto simp: sample_json_def)
  have outer: "map_json False (\<lambda>p. map_json (vr_nil r p) (\<lambda>_. sample_json (vr_zone r))) m = Some j \<Longrightarrow> no_number j" for m j
    by (erule no_number_map) (erule inner)
  have "samples_json r s = Some j \<Longrightarrow> no_number j" for s j
    by (auto simp: samples_json_def split: option.splits dest: outer)
  then show "view_json r v = Some j \<Longrightarrow> no_number j" by (auto simp: view_json_def)
qed

lemma encode_mesh_one_line:
  assumes "encode_mesh off rs mv = Some b"
  shows "no_control b"
proof -
  from assms obtain j where j: "mesh_json off rs mv = Some j" "b = print_json False 0 j"
    by (auto simp: encode_mesh_def)
  have "no_number j"
    using j(1) by (auto simp: mesh_json_def split: option.splits elim!: no_number_map intro: no_number_view)
  with j(2) show ?thesis by (simp add: print_one_line)
qed

section \<open>Properties\<close>

text \<open>
  C24. What a node answers to \<open>/api/peer/status\<close> decodes at the other node to the very view
  that was encoded, for every view of valid UTF-8 strings whose times have years of four digits and are
  printed in zones of whole minutes less than a day off (RFC 3339 has no seconds in a zone), and
  whatever follows the line break the encoder ends with.
\<close>

theorem view_text_roundtrip:
  assumes "view_ok (vr_zone r) v"
  shows "\<exists>b. encode_view r v = Some b \<and> decode_view lenient (b @ CHR 0x0A # junk) = Inr v"
  using assms by (rule decode_encode_view)

theorem view_text_roundtrip_witness:
  "\<exists>b. encode_view \<lparr>vr_zone = (\<lambda>_. 3600), vr_nil = (\<lambda>_. False)\<rparr>
       \<lparr>Host = ''a'', Samples = Some [''b'' \<mapsto> [''tcp'' \<mapsto> \<lparr>State = ''Up'', LastTS = 5\<rparr>]], Reachable = True, Reason = []\<rparr> = Some b \<and>
     decode_view (\<lambda>_. None) (b @ [CHR 0x0A]) =
       Inr \<lparr>Host = ''a'', Samples = Some [''b'' \<mapsto> [''tcp'' \<mapsto> \<lparr>State = ''Up'', LastTS = 5\<rparr>]], Reachable = True, Reason = []\<rparr>"
proof -
  let ?v = "\<lparr>Host = ''a'', Samples = Some [''b'' \<mapsto> [''tcp'' \<mapsto> \<lparr>State = ''Up'', LastTS = 5\<rparr>]], Reachable = True, Reason = []\<rparr>"
  let ?r = "\<lparr>vr_zone = (\<lambda>_. 3600), vr_nil = (\<lambda>_. False)\<rparr>"
  have "view_ok (vr_zone ?r) ?v"
    by (auto simp: view_ok_def inner_ok_def sample_ok_def time_ok_def printable_time_def second_def split: if_splits)
  from view_text_roundtrip [OF this, of "\<lambda>_. None" "[]"] show ?thesis by simp
qed

end
