(* ===== verification/Event_Stream.thy ===== *)
theory Event_Stream
  imports Serve View_Json
begin

text \<open>
  What a browser makes of the stream of \<open>internal/pkg/server/ui/sse.go\<close>: the interpretation of an
  event stream by the HTML standard, as the specification of the handler, and that a logged-in user's
  browser receives one \<open>status\<close> event per view the daemon could marshal, with the view's text as its
  data.
\<close>

section \<open>Event streams\<close>

definition line_end :: "char \<Rightarrow> bool" where
  "line_end c \<longleftrightarrow> c = CHR 0x0A \<or> c = CHR 0x0D"

text \<open>Lines end with a line feed, a carriage return or both; an unfinished line is not interpreted.\<close>

function sse_lines :: "string \<Rightarrow> string list" where
  "sse_lines s =
     (case dropWhile (\<lambda>c. \<not> line_end c) s of
        [] \<Rightarrow> []
      | c # cs \<Rightarrow> takeWhile (\<lambda>c. \<not> line_end c) s #
          sse_lines (if c = CHR 0x0D \<and> take 1 cs = [CHR 0x0A] then drop 1 cs else cs))"
  by pat_completeness auto
termination
proof (relation "measure length")
  fix s c cs
  assume "dropWhile (\<lambda>c. \<not> line_end c) s = c # cs"
  then have "length (c # cs) \<le> length s" by (metis length_dropWhile_le)
  then show "(if c = CHR 0x0D \<and> take 1 cs = [CHR 0x0A] then drop 1 cs else cs, s) \<in> measure length" by (cases cs) auto
qed simp

declare sse_lines.simps [simp del]

text \<open>The name and the value of a field; one space after the colon is not part of the value.\<close>

definition sse_field :: "string \<Rightarrow> string \<times> string" where
  "sse_field l =
     (case split2 CHR '':'' l of
        [n, v] \<Rightarrow> (n, if take 1 v = '' '' then drop 1 v else v)
      | _ \<Rightarrow> (l, []))"

text \<open>The event type and the data collected so far; a blank line dispatches an event that has data.\<close>

fun sse_dispatch :: "string list \<Rightarrow> string \<Rightarrow> string \<Rightarrow> (string \<times> string) list" where
  "sse_dispatch [] type_buf data_buf = []"
| "sse_dispatch (l # ls) type_buf data_buf =
     (if l = [] then
        (if data_buf = [] then sse_dispatch ls [] []
         else (if type_buf = [] then ''message'' else type_buf, butlast data_buf) # sse_dispatch ls [] [])
      else let (n, v) = sse_field l in
        if n = ''event'' then sse_dispatch ls v data_buf
        else if n = ''data'' then sse_dispatch ls type_buf (data_buf @ v @ newline)
        else sse_dispatch ls type_buf data_buf)"

definition sse_parse :: "string \<Rightarrow> (string \<times> string) list" where
  "sse_parse s = sse_dispatch (sse_lines s) [] []"

section \<open>Lemmas\<close>

lemma sse_lines_line:
  assumes "no_control l"
  shows "sse_lines (l @ CHR 0x0A # t) = l # sse_lines t"
proof -
  have l: "\<forall>c \<in> set l. \<not> line_end c" using assms by (auto simp: no_control_def line_end_def)
  have "takeWhile (\<lambda>c. \<not> line_end c) (l @ CHR 0x0A # t) = l"
    "dropWhile (\<lambda>c. \<not> line_end c) (l @ CHR 0x0A # t) = CHR 0x0A # t"
    using l by (simp_all add: takeWhile_append2 dropWhile_append2 line_end_def)
  then show ?thesis by (subst sse_lines.simps) simp
qed

lemma sse_lines_Nil [simp]: "sse_lines [] = []"
  by (subst sse_lines.simps) simp

text \<open>The events of a stream that the handler wrote piece by piece.\<close>

lemma sse_parse_event:
  assumes "no_control b"
  shows "sse_parse (sse_event b @ t) = (''status'', b) # sse_parse t"
proof -
  have "no_control (''data: '' @ b)" "no_control ''event: status''" using assms by simp_all
  from sse_lines_line [OF this(2)] sse_lines_line [OF this(1)] sse_lines_line [of "[]"]
  have "sse_lines (sse_event b @ t) = ''event: status'' # (''data: '' @ b) # [] # sse_lines t"
    by (simp add: sse_event_def newline_def)
  moreover have "sse_field ''event: status'' = (''event'', ''status'')" by (simp add: sse_field_def)
  moreover have "sse_field (''data: '' @ b) = (''data'', b)"
    using split2_append [of "CHR '':''" "''data''" "'' '' @ b"] by (simp add: sse_field_def)
  ultimately show ?thesis
    by (simp add: sse_parse_def newline_def)
qed

text \<open>The views that were aggregated before a panic ended the handler.\<close>

definition delivered :: "(panic + mesh_view) list \<Rightarrow> mesh_view list" where
  "delivered views = map projr (takeWhile (\<lambda>x. \<not> isl x) views)"

lemma sse_loop_events:
  assumes "\<And>mv b. enc mv = Some b \<Longrightarrow> no_control b"
  shows "\<exists>out. Body (sse_loop enc views w) = Body w @ out \<and>
    sse_parse out = map (Pair ''status'') (List.map_filter enc (delivered views))"
proof (induction views arbitrary: w)
  case Nil
  then show ?case by (simp add: delivered_def sse_parse_def List.map_filter_def)
next
  case (Cons x views)
  show ?case
  proof (cases x)
    case (Inl p)
    then show ?thesis by (simp add: delivered_def sse_parse_def List.map_filter_def)
  next
    case (Inr mv)
    from Cons.IH [of "emit enc mv w"] obtain out where
      out: "Body (sse_loop enc views (emit enc mv w)) = Body (emit enc mv w) @ out"
        "sse_parse out = map (Pair ''status'') (List.map_filter enc (delivered views))" by blast
    have d: "delivered (x # views) = mv # delivered views" by (simp add: delivered_def Inr)
    show ?thesis
    proof (cases "enc mv")
      case None
      with out Inr d show ?thesis by (simp add: emit_def List.map_filter_def)
    next
      case (Some b)
      have "Body (sse_loop enc (x # views) w) = Body w @ sse_event b @ out"
        using out(1) by (simp add: Inr emit_def Some write_body_def write_header_def)
      moreover have "sse_parse (sse_event b @ out) = (''status'', b) # sse_parse out"
        by (rule sse_parse_event) (rule assms [OF Some])
      ultimately show ?thesis using out(2) d Some by (simp add: List.map_filter_def)
    qed
  qed
qed

lemma sse_interval: "runServe env args fl = Inr d \<Longrightarrow> d_sse_interval d = second"
proof -
  assume "runServe env args fl = Inr d"
  from runServe_InrD [OF this] obtain caPool cert where
    "serve_wire env (d_cfg d) caPool cert = Inr d" by blast
  moreover have "serve_wire env cfg caPool cert = Inr d \<Longrightarrow> d_sse_interval d = second" for cfg
    by (auto simp: serve_wire_def Let_def split: option.splits sum.splits)
  ultimately show ?thesis by blast
qed

section \<open>Properties\<close>

text \<open>
  C25. The event stream of a started daemon: a browser with a valid session that opens
  \<open>/ui/sse/status\<close> receives, whatever the views contain (names and errors with line breaks
  included), exactly one \<open>status\<close> event per mesh view that can be marshalled, in order, up to the
  first aggregation that panics, and the event's data is the view's JSON text.
\<close>

theorem ui_stream_events:
  assumes "runServe env args fl = Inr d"
    and "URLPath r = ''/ui/sse/status''" and "session_user (Some (d_session d)) r now \<noteq> None"
  shows "sse_parse (Body (daemon_ui redirect (encode_mesh off rs) static ver bcrypt True d views now r new_response)) =
    map (Pair ''status'') (List.map_filter (encode_mesh off rs) (delivered views))"
proof -
  obtain u where u: "session_user (Some (d_session d)) r now = Some u" using assms(3) by blast
  have Body: "Body (set_header k v w) = Body w" for k v w by (simp add: set_header_def)
  let ?w = "set_header ''Connection'' ''keep-alive'' (set_header ''Cache-Control'' ''no-store''
    (set_header ''Content-Type'' ''text/event-stream'' (set_header ''Referrer-Policy'' ''same-origin''
      (set_header ''X-Content-Type-Options'' ''nosniff'' new_response))))"
  have "daemon_ui redirect (encode_mesh off rs) static ver bcrypt True d views now r new_response =
      sse_loop (encode_mesh off rs) views ?w"
    using u sse_interval [OF assms(1)] assms(2)
    by (simp add: daemon_ui_def NewMux_ui_def withCommonHeaders_def ui_route authMiddleware_eq NewSSEHandler_def second_def)
  moreover have "Body ?w = []" by (simp add: Body) (simp add: new_response_def)
  ultimately have "\<exists>w. Body w = [] \<and>
      daemon_ui redirect (encode_mesh off rs) static ver bcrypt True d views now r new_response =
      sse_loop (encode_mesh off rs) views w" by blast
  with sse_loop_events [of "encode_mesh off rs" views] encode_mesh_one_line show ?thesis
    by (metis append_Nil)
qed

definition ex_repr :: "string \<Rightarrow> view_repr" where
  "ex_repr p = \<lparr>vr_zone = (\<lambda>_. 0), vr_nil = (\<lambda>_. False)\<rparr>"

theorem ui_stream_events_witness:
  "\<exists>(d :: (unit, unit) daemon) r b. runServe (sample_env (sample_cfg ''tcp'' 1)) [] sample_fs = Inr d \<and>
     sse_parse (Body (daemon_ui (\<lambda>_ w. w) (encode_mesh 0 ex_repr) (\<lambda>_. None) ''dev'' (\<lambda>_ _. False) True d
       [Inr \<lparr>GeneratedAt = 0, Observers = Map.empty\<rparr>, Inl IndexOutOfRange] 0 r new_response)) = [(''status'', b)]"
proof -
  obtain d where d: "runServe (sample_env (sample_cfg ''tcp'' 1)) [] sample_fs = Inr d" "d_cfg d = sample_cfg ''tcp'' 1"
    using sample_starts [of "''tcp''"] by blast
  from runServe_InrD [OF d(1)] obtain caPool cert where
    "serve_wire (sample_env (sample_cfg ''tcp'' 1)) (d_cfg d) caPool cert = Inr d" by blast
  from serve_wire_InrD [OF this] have ttl: "sess_ttl (d_session d) = seconds (SessionTTLSeconds (C_UI (d_cfg d)))"
    by (auto simp: NewSession_def)
  have unix: "unix (0 + sess_ttl (d_session d)) = 3600"
    by (simp add: ttl d(2) sample_cfg_def newConfigSkeleton_def seconds_def wrap64_def second_def unix_def)
  obtain tok where tok: "Issue (d_session d) ''admin'' 0 = Inr tok"
    using Issue_ok_iff [of "d_session d" "''admin''" 0] by auto
  define r where "r = (anonymous_request ''/ui/sse/status'')\<lparr>Cookies := [(cookieName, tok)]\<rparr>"
  have r: "cookie_value r cookieName = Some tok" "URLPath r = ''/ui/sse/status''"
    by (simp_all add: r_def anonymous_request_def cookie_value_def)
  have "session_user (Some (d_session d)) r 0 \<noteq> None"
    using session_user_token [OF r(1) tok, of 0] unix
    by (simp add: time_add_def is_int64_def min_int64_def max_int64_def unix_def)
  note stream = ui_stream_events [OF d(1) r(2) this]
  let ?mv = "\<lparr>GeneratedAt = 0, Observers = Map.empty\<rparr>"
  have "\<exists>t. format_rfc3339 0 0 = Some t" by (rule format_printable) (simp_all add: printable_time_def second_def)
  then obtain b where b: "encode_mesh 0 ex_repr ?mv = Some b"
    by (auto simp: encode_mesh_def mesh_json_def map_json_def)
  have "delivered [Inr ?mv, Inl IndexOutOfRange] = [?mv]" by (simp add: delivered_def)
  with stream [where views = "[Inr ?mv, Inl IndexOutOfRange]" and off = 0 and rs = ex_repr] b d(1) show ?thesis
    by (intro exI [of _ d] exI [of _ r] exI [of _ b]) (simp add: List.map_filter_def)
qed

end
