(* ===== verification/Mesh_Exchange.thy ===== *)
theory Mesh_Exchange
  imports Serve View_Json
begin

text \<open>
  The views between daemons, with their text: the local view of a running daemon has a text that
  decodes to it, so that over a connection that delivers what the peer API answered the fetching node
  obtains exactly that view, and the mesh view of the one shows the classified history of the other.
\<close>

section \<open>The local view is representable\<close>

lemma state_text_utf8 [simp]: "utf8_valid (state_text st)"
  by (cases st) simp_all

text \<open>A result's time stamp has a year of four digits in the zone it is printed in.\<close>

definition results_ok :: "(time \<Rightarrow> int) \<Rightarrow> (key \<times> result) list \<Rightarrow> bool" where
  "results_ok zone ops \<longleftrightarrow> list_all (\<lambda>kr. time_ok zone (Timestamp (snd kr))) ops"

lemma last_history_in:
  assumes "k \<in> fst ` set ops"
  shows "\<exists>kr \<in> set ops. last (history k ops) = snd kr"
proof -
  have "history k ops \<noteq> []" using assms by (simp add: history_Nil_iff)
  then have "last (history k ops) \<in> set (history k ops)" by (rule last_in_set)
  then show ?thesis by (auto simp: history_def)
qed

lemma daemon_view_ok:
  assumes "runServe env args fl = Inr d" and "se_sys env = json_sys ns sy" and "sched_run (d_sched d) es s"
    and "map_order (bufs (st_store s)) order"
    and "0 \<le> FailureWindow (C_Probe (d_cfg d))"
    and "FailureWindow (C_Probe (d_cfg d)) \<le> max 1 (RingbufferSize (C_Probe (d_cfg d)))"
    and "localView (d_agg d) order (st_store s) = Inr v" and "results_ok zone (appends es)"
  shows "view_ok zone v"
proof -
  from runServe_InrD [OF assms(1)] obtain path where "Load (se_sys env) path fl = Inr (d_cfg d)" by blast
  then have cfg: "config_ok (d_cfg d)" using json_load_ok [of ns sy path fl] assms(2) by simp
  have peer: "utf8_valid (Peer k) \<and> utf8_valid (Protocol k)" if "k \<in> fst ` set (appends es)" for k
    using daemon_keys [OF assms(1,3) that] cfg by (auto simp: config_ok_def list_all_iff peer_ok_def)
  from daemon_view [OF assms(1,3-6)] assms(7) have v: "Host v = HI_Name (C_Host (d_cfg d))"
    and all: "\<forall>k. if k \<in> fst ` set (appends es)
         then (\<exists>st. Classify (history k (appends es)) (FailureWindow (C_Probe (d_cfg d)))
                     (FailureThreshold (C_Probe (d_cfg d))) = Inr st \<and>
                   sample_at v k = Some \<lparr>State = state_text st, LastTS = Timestamp (last (history k (appends es)))\<rparr>)
         else sample_at v k = None" by auto
  have sample: "k \<in> fst ` set (appends es) \<and> sample_ok zone x" if "sample_at v k = Some x" for k x
  proof -
    have k: "k \<in> fst ` set (appends es)" using spec [OF all, of k] that by (auto split: if_splits)
    from last_history_in [OF k] obtain kr where "kr \<in> set (appends es)" "last (history k (appends es)) = snd kr" by blast
    moreover from spec [OF all, of k] that k obtain st where
      "x = \<lparr>State = state_text st, LastTS = Timestamp (last (history k (appends es)))\<rparr>" by auto
    ultimately show ?thesis using k assms(8) by (auto simp: sample_ok_def results_ok_def list_all_iff)
  qed
  have bufs: "dom (bufs (st_store s)) = fst ` set (appends es)"
    using New_run(2) [OF daemon_store(1) [OF assms(1,3)]] by (intro set_eqI) (metis domIff)
  from localView_dom [OF assms(7,4)] obtain m where m: "Samples v = Some m" "dom m = Peer ` fst ` set (appends es)"
    unfolding bufs by blast
  have inner: "utf8_valid p \<and> inner_ok zone i" if "m p = Some i" for p i
  proof -
    have at: "sample_at v \<lparr>Peer = p, Protocol = c\<rparr> = i c" for c using m(1) that by (simp add: sample_at_def)
    have c: "c \<in> Protocol ` fst ` set (appends es) \<and> utf8_valid c \<and> sample_ok zone x" if "i c = Some x" for c x
    proof -
      have "sample_at v \<lparr>Peer = p, Protocol = c\<rparr> = Some x" by (simp only: at that)
      note k = sample [OF this]
      have "c \<in> Protocol ` fst ` set (appends es)" by (rule rev_image_eqI [OF conjunct1 [OF k]]) simp
      with k peer [OF conjunct1 [OF k]] show ?thesis by simp
    qed
    then have "dom i \<subseteq> Protocol ` fst ` set (appends es)" by (auto simp: dom_def)
    then have "finite (dom i)" by (rule finite_subset) simp
    moreover have "p \<in> Peer ` fst ` set (appends es)" using m(2) that by blast
    then have "utf8_valid p" using peer by blast
    ultimately show ?thesis using c by (simp add: inner_ok_def)
  qed
  have "Reason v = []" using localView_Reason [OF assms(7)] .
  moreover have "utf8_valid (HI_Name (C_Host (d_cfg d)))" using cfg by (simp add: config_ok_def host_ok_def)
  ultimately show ?thesis using v m inner by (simp add: view_ok_def)
qed

section \<open>Fetching\<close>

text \<open>
  What the client gets for a URL whose answer is that of a running daemon: the client certificate of the
  connection, as the daemon verified it, names \<open>cn\<close>.
\<close>

lemma daemon_exchange:
  assumes "runServe envB argsB flB = Inr dB" and "view_ok (vr_zone rp) v"
    and "urls c peer = Some base" and "new_request (base @ ''/api/peer/status'') = None"
    and "do_get (base @ ''/api/peer/status'') =
         (let w = daemon_interhost redirect (encode_view rp) quote ver dB (Inr v) now r new_response
          in if Aborted w \<noteq> None then Inl ''EOF''
             else Inr (case Status w of None \<Rightarrow> 200 | Some st \<Rightarrow> st, Body w))"
    and "URLPath r = ''/api/peer/status''" and "leaf_cn r = Some cn"
  shows "if cn = HI_Name (C_Host (d_cfg dB)) \<or> cn \<in> P_Name ` set (C_Peers (d_cfg dB))
    then Fetch new_request do_get (view_decoder lenient) c peer = Inr v
    else (\<exists>e. Fetch new_request do_get (view_decoder lenient) c peer = Inl e)"
proof -
  let ?dep = "\<lparr>IH_Peers = d_peers dB, IH_FetchLocal = Inr v\<rparr>"
  obtain b where b: "encode_view rp v = Some b" "view_decoder lenient (b @ newline) = Inr v"
    using view_decoder_encode [OF assms(2), of lenient] by (auto simp: newline_def)
  have "do_get (base @ ''/api/peer/status'') =
      (let w = NewMux_peer redirect (encode_view rp) quote ver ?dep now r new_response
       in if Aborted w \<noteq> None then Inl ''EOF''
          else Inr (case Status w of None \<Rightarrow> 200 | Some s \<Rightarrow> s, Body w))"
    using assms(5) by (simp only: daemon_interhost_def)
  from exchange [where do_get = do_get and d = ?dep and decode = "view_decoder lenient" and new_request = new_request
      and c = c and peer = peer and base = base and r = r and v = v and encode = "encode_view rp" and b = b
      and redirect = redirect and quote = quote and ver = ver and now = now,
      OF assms(3,4,6) this _ b] have
    "if known_peer ?dep r then Fetch new_request do_get (view_decoder lenient) c peer = Inr v
     else (\<exists>e. Fetch new_request do_get (view_decoder lenient) c peer = Inl e)" by simp
  moreover from runServe_InrD [OF assms(1)] obtain caPool cert where
    "serve_wire envB (d_cfg dB) caPool cert = Inr dB" by blast
  from serve_wire_InrD [OF this] have "d_peers dB = peer_names (d_cfg dB)" by blast
  then have "known_peer ?dep r \<longleftrightarrow> cn = HI_Name (C_Host (d_cfg dB)) \<or> cn \<in> P_Name ` set (C_Peers (d_cfg dB))"
    by (simp add: known_peer_def assms(7) peer_names_iff)
  ultimately show ?thesis by simp
qed

text \<open>The goroutine of one peer, with the client of the daemon; \<open>text_of\<close> is \<open>err.Error()\<close>.\<close>

definition fetch_result :: "(fetch_error \<Rightarrow> string) \<Rightarrow> fetch_error + observer_view \<Rightarrow> fetch_outcome" where
  "fetch_result text_of res = (case res of Inl e \<Rightarrow> FetchErr (text_of e) | Inr v \<Rightarrow> Fetched v)"

lemma daemon_client_url:
  assumes "runServe env args fl = Inr d" and "p \<in> set (C_Peers (d_cfg d))"
    and "split_host_port (LA_Addr (L_InterHost (C_Listeners (d_cfg d)))) = Inr (h, ihPort)"
  shows "urls (d_client d) (P_Name p) = Some (''https://'' @ join_host_port (P_Addr p) ihPort)"
proof -
  from runServe_InrD [OF assms(1)] obtain caPool cert where v: "Validate (d_cfg d) = None"
    and w: "serve_wire env (d_cfg d) caPool cert = Inr d" by blast
  have "serve_wire env cfg caPool cert = Inr d \<Longrightarrow>
      split_host_port (LA_Addr (L_InterHost (C_Listeners cfg))) = Inr (h, ihPort) \<Longrightarrow> d_client d = NewClient (peer_urls cfg ihPort)" for cfg
    by (auto simp: serve_wire_def Let_def split: option.splits sum.splits)
  from this [OF w assms(3)] have "urls (d_client d) = peer_urls (d_cfg d) ihPort" by (simp add: NewClient_def)
  moreover from v have "distinct (map P_Name (C_Peers (d_cfg d)))" by (simp add: Validate_None_iff)
  ultimately show ?thesis using peer_urls_peer assms(2) by simp
qed

lemma merged_entry:
  assumes "runServe env args fl = Inr d" and "all_peers_complete (d_agg d) cs"
    and "Aggregate (d_agg d) now order st cs = Inr mv" and "(p, out) \<in> set cs" and "outcome_entry p out = Some e"
  shows "Observers mv p = Some e"
proof -
  from runServe_InrD [OF assms(1)] obtain caPool cert where v: "Validate (d_cfg d) = None"
    and "serve_wire env (d_cfg d) caPool cert = Inr d" by blast
  from serve_wire_InrD [OF this(2)] have "peers (d_agg d) = map P_Name (C_Peers (d_cfg d))"
    by (auto simp: peerNamesList_eq)
  with v have "distinct (peers (d_agg d))" by (simp add: Validate_None_iff)
  with all_peers_complete_distinct [OF assms(2)] have dist: "distinct (map fst cs)" .
  with assms(4) have "map_of cs p = Some out" by simp
  with assms(3,5) merge_Observers [OF dist] show ?thesis by (auto simp: Aggregate_def ok_iff)
qed

section \<open>Properties\<close>

text \<open>
  C2. The mesh view end to end: let two nodes A and B have started, B from a configuration file, let
  B's scheduler run in any interleaving, and let A aggregate while the address it uses for its peer
  \<open>p\<close> is served by B. If B knows the name in A's certificate, then A's mesh view has under
  \<open>p\<close>, through both JSON codecs, B's own view: reachable, B's host name, for every key that B has a
  result for the classification of its whole history and the time of the newest, and nothing else.
  If B does not know that name, the entry says that \<open>p\<close> is not reachable and shows no samples.
\<close>

theorem mesh_view_end_to_end:
  assumes "runServe envA argsA flA = Inr dA" and "runServe envB argsB flB = Inr dB"
    and "se_sys envB = json_sys ns sy" and "sched_run (d_sched dB) es s"
    and "map_order (bufs (st_store s)) order"
    and "0 \<le> FailureWindow (C_Probe (d_cfg dB))"
    and "FailureWindow (C_Probe (d_cfg dB)) \<le> max 1 (RingbufferSize (C_Probe (d_cfg dB)))"
    and "localView (d_agg dB) order (st_store s) = Inr v" and "results_ok (vr_zone rp) (appends es)"
    and "p \<in> set (C_Peers (d_cfg dA))"
    and "split_host_port (LA_Addr (L_InterHost (C_Listeners (d_cfg dA)))) = Inr (h, ihPort)"
    and "new_request ((''https://'' @ join_host_port (P_Addr p) ihPort) @ ''/api/peer/status'') = None"
    and "do_get ((''https://'' @ join_host_port (P_Addr p) ihPort) @ ''/api/peer/status'') =
         (let w = daemon_interhost redirect (encode_view rp) quote ver dB (Inr v) now r new_response
          in if Aborted w \<noteq> None then Inl ''EOF''
             else Inr (case Status w of None \<Rightarrow> 200 | Some st \<Rightarrow> st, Body w))"
    and "URLPath r = ''/api/peer/status''" and "leaf_cn r = Some cn"
    and "all_peers_complete (d_agg dA) cs" and "Aggregate (d_agg dA) nowA orderA stA cs = Inr mv"
    and "(P_Name p, fetch_result text_of (Fetch new_request do_get (view_decoder lenient) (d_client dA) (P_Name p))) \<in> set cs"
  shows "\<exists>e. Observers mv (P_Name p) = Some e \<and>
    (if cn = HI_Name (C_Host (d_cfg dB)) \<or> cn \<in> P_Name ` set (C_Peers (d_cfg dB))
     then Reachable e \<and> Host e = HI_Name (C_Host (d_cfg dB)) \<and>
       (\<forall>k. if k \<in> fst ` set (appends es)
         then (\<exists>st. Classify (history k (appends es)) (FailureWindow (C_Probe (d_cfg dB)))
                     (FailureThreshold (C_Probe (d_cfg dB))) = Inr st \<and>
                   sample_at e k = Some \<lparr>State = state_text st, LastTS = Timestamp (last (history k (appends es)))\<rparr>)
         else sample_at e k = None)
     else \<not> Reachable e \<and> Host e = P_Name p \<and> Samples e = None)"
proof -
  have ok: "view_ok (vr_zone rp) v" by (rule daemon_view_ok) (fact assms)+
  from daemon_view [OF assms(2,4-7)] assms(8) have view: "Host v = HI_Name (C_Host (d_cfg dB))" "Reachable v"
    "\<forall>k. if k \<in> fst ` set (appends es)
         then (\<exists>st. Classify (history k (appends es)) (FailureWindow (C_Probe (d_cfg dB)))
                     (FailureThreshold (C_Probe (d_cfg dB))) = Inr st \<and>
                   sample_at v k = Some \<lparr>State = state_text st, LastTS = Timestamp (last (history k (appends es)))\<rparr>)
         else sample_at v k = None" by auto
  note entry = merged_entry [OF assms(1,16,17,18)]
  have ex: "if cn = HI_Name (C_Host (d_cfg dB)) \<or> cn \<in> P_Name ` set (C_Peers (d_cfg dB))
    then Fetch new_request do_get (view_decoder lenient) (d_client dA) (P_Name p) = Inr v
    else (\<exists>e. Fetch new_request do_get (view_decoder lenient) (d_client dA) (P_Name p) = Inl e)"
    by (rule daemon_exchange [where do_get = do_get and new_request = new_request and rp = rp and r = r and now = now
        and redirect = redirect and quote = quote and ver = ver and v = v,
        OF assms(2) ok daemon_client_url [OF assms(1,10,11)] assms(12,13,14,15)])
  show ?thesis
  proof (cases "cn = HI_Name (C_Host (d_cfg dB)) \<or> cn \<in> P_Name ` set (C_Peers (d_cfg dB))")
    case True
    with ex have "fetch_result text_of (Fetch new_request do_get (view_decoder lenient) (d_client dA) (P_Name p)) = Fetched v"
      by (simp add: fetch_result_def)
    moreover have "sample_at (v\<lparr>Reachable := True\<rparr>) = sample_at v" by (simp add: fun_eq_iff sample_at_def)
    ultimately show ?thesis
      using entry [of "v\<lparr>Reachable := True\<rparr>"] True view by simp
  next
    case False
    with ex obtain e where "fetch_result text_of (Fetch new_request do_get (view_decoder lenient) (d_client dA) (P_Name p)) = FetchErr e"
      by (auto simp: fetch_result_def)
    then show ?thesis
      using entry [of "\<lparr>Host = P_Name p, Samples = None, Reachable = False, Reason = e\<rparr>"] False by simp
  qed
qed

text \<open>A daemon that started from the text of the sample configuration.\<close>

definition ex_nil :: nil_slices where
  "ex_nil = \<lparr>nil_peers = False, nil_users = True, nil_checks = (\<lambda>_. False)\<rparr>"

definition ex_file :: "config \<Rightarrow> fs" where
  "ex_file cfg = [defaultConfigPath \<mapsto> \<lparr>content = marshal_config ex_nil cfg, perm = 384\<rparr>]"

lemma sample_cfg_ok: "is_int64 w \<Longrightarrow> utf8_valid ch \<Longrightarrow> config_ok (sample_cfg ch w)"
  by (simp add: sample_cfg_def sample_peer_def newConfigSkeleton_def ok_defs skeleton_secret_def utf8_valid_append
      is_int64_def min_int64_def max_int64_def del: append.simps)

lemma ex_daemon:
  "\<exists>d. runServe ((sample_env (sample_cfg ''tcp'' 1))\<lparr>se_sys := json_sys ex_nil sample_sys\<rparr>) [] (ex_file (sample_cfg ''tcp'' 1)) = Inr d \<and>
     d_cfg d = sample_cfg ''tcp'' 1 \<and>
     d_sched d = New_sched (sched_config_of (sample_cfg ''tcp'' 1) 1) [sample_job ''tcp''] (New_store 100)"
proof (rule sample_starts_from)
  have "config_ok (sample_cfg ''tcp'' 1)"
    by (rule sample_cfg_ok) (simp_all add: is_int64_def min_int64_def max_int64_def)
  from decode_marshal [OF this, of ex_nil "[]"] show
    "Load (json_sys ex_nil sample_sys) defaultConfigPath (ex_file (sample_cfg ''tcp'' 1)) = Inr (sample_cfg ''tcp'' 1)"
    by (simp add: Load_ok_iff ex_file_def) (simp add: json_sys_def sample_sys_def)
  show "CheckMode (stat_perm CallOk defaultConfigPath (ex_file (sample_cfg ''tcp'' 1))) = None"
    by (rule sample_mode) (simp add: ex_file_def)
qed simp

theorem mesh_view_end_to_end_witness:
  "\<exists>(d :: (unit, unit) daemon) cs mv e. Aggregate (d_agg d) 0 [] (New_store 1) cs = Inr mv \<and> Observers mv ''b'' = Some e \<and>
     Reachable e \<and> sample_at e (job_key (sample_job ''tcp'')) = Some \<lparr>State = state_text Down, LastTS = zero_time\<rparr>"
proof -
  let ?cfg = "sample_cfg ''tcp'' 1" and ?job = "sample_job ''tcp''"
  let ?rp = "\<lparr>vr_zone = (\<lambda>_. 0), vr_nil = (\<lambda>_. False)\<rparr>"
  let ?env = "(sample_env ?cfg)\<lparr>se_sys := json_sys ex_nil sample_sys\<rparr>"
  obtain d where d: "runServe ?env [] (ex_file ?cfg) = Inr d" "d_cfg d = ?cfg"
    "d_sched d = New_sched (sched_config_of ?cfg 1) [?job] (New_store 100)"
    using ex_daemon by blast
  from sample_one_result [OF d(3)] obtain es s where s: "sched_run (d_sched d) es s"
    and app: "appends es = [(job_key ?job, zero_result)]"
    and order: "map_order (bufs (st_store s)) [job_key ?job]" by blast
  have w: "FailureWindow (C_Probe (d_cfg d)) = 1" "FailureThreshold (C_Probe (d_cfg d)) = 1"
    "RingbufferSize (C_Probe (d_cfg d)) = 100" "HI_Name (C_Host (d_cfg d)) = ''a''"
    "C_Peers (d_cfg d) = [sample_peer ''tcp'']" "LA_Addr (L_InterHost (C_Listeners (d_cfg d))) = ''127.0.0.1:'' @ itoa 1"
    by (simp_all add: d(2) sample_cfg_def newConfigSkeleton_def)
  have win: "0 \<le> FailureWindow (C_Probe (d_cfg d))"
    "FailureWindow (C_Probe (d_cfg d)) \<le> max 1 (RingbufferSize (C_Probe (d_cfg d)))" by (simp_all add: w)
  from daemon_view [OF d(1) s order win] obtain v where v: "localView (d_agg d) [job_key ?job] (st_store s) = Inr v" by blast
  have res: "results_ok (vr_zone ?rp) (appends es)"
    by (simp add: app results_ok_def time_ok_def printable_zero_time zero_result_def)
  have addr: "split_host_port (LA_Addr (L_InterHost (C_Listeners (d_cfg d)))) = Inr (''127.0.0.1'', itoa 1)"
    using split_join_host_port [of "''127.0.0.1''" "itoa 1"] itoa_no_punctuation [of 1]
    by (simp add: w(6) join_host_port_def)
  define r where "r = stranger_request\<lparr>TLSChains := Some [[''a'', ''ca'']]\<rparr>"
  define answer where "answer = (let w = daemon_interhost (\<lambda>_ w. w) (encode_view ?rp) id ''dev'' d (Inr v) 0 r new_response
    in if Aborted w \<noteq> None then Inl ''EOF''
       else Inr (case Status w of None \<Rightarrow> 200 | Some st \<Rightarrow> st, Body w))"
  define cs where "cs = [(P_Name (sample_peer ''tcp''), fetch_result (\<lambda>_. ''error'')
    (Fetch (\<lambda>_. None) (\<lambda>_. answer) (view_decoder (\<lambda>_. None)) (d_client d) (P_Name (sample_peer ''tcp''))))]"
  have r: "URLPath r = ''/api/peer/status''" "leaf_cn r = Some ''a''"
    by (simp_all add: r_def leaf_cn_def stranger_request_def)
  have peer: "sample_peer ''tcp'' \<in> set (C_Peers (d_cfg d))" by (simp add: w(5))
  have compl: "all_peers_complete (d_agg d) cs"
    by (simp add: all_peers_complete_def daemon_store(3) [OF d(1) s] cs_def w(5))
  obtain mv where mv: "Aggregate (d_agg d) 0 [] (New_store 1) cs = Inr mv"
    by (simp add: Aggregate_def localView_def localView_at_def Keys_def)
  have "\<exists>e. Observers mv (P_Name (sample_peer ''tcp'')) = Some e \<and>
    (if ''a'' = HI_Name (C_Host (d_cfg d)) \<or> ''a'' \<in> P_Name ` set (C_Peers (d_cfg d))
     then Reachable e \<and> Host e = HI_Name (C_Host (d_cfg d)) \<and>
       (\<forall>k. if k \<in> fst ` set (appends es)
         then (\<exists>st. Classify (history k (appends es)) (FailureWindow (C_Probe (d_cfg d)))
                     (FailureThreshold (C_Probe (d_cfg d))) = Inr st \<and>
                   sample_at e k = Some \<lparr>State = state_text st, LastTS = Timestamp (last (history k (appends es)))\<rparr>)
         else sample_at e k = None)
     else \<not> Reachable e \<and> Host e = P_Name (sample_peer ''tcp'') \<and> Samples e = None)"
    by (rule mesh_view_end_to_end [where do_get = "\<lambda>_. answer" and new_request = "\<lambda>_. None" and
        text_of = "\<lambda>_. ''error''" and lenient = "\<lambda>_. None" and redirect = "\<lambda>_ w. w" and quote = id and ver = "''dev''",
        OF d(1) d(1) _ s order win v res peer addr refl answer_def r compl mv])
      (simp_all add: cs_def sample_env_def)
  moreover have known: "''a'' = HI_Name (C_Host (d_cfg d)) \<or> ''a'' \<in> P_Name ` set (C_Peers (d_cfg d))" by (simp add: w(4))
  ultimately obtain e where e: "Observers mv (P_Name (sample_peer ''tcp'')) = Some e" "Reachable e"
    and all: "\<forall>k. if k \<in> fst ` set (appends es)
         then (\<exists>st. Classify (history k (appends es)) (FailureWindow (C_Probe (d_cfg d)))
                     (FailureThreshold (C_Probe (d_cfg d))) = Inr st \<and>
                   sample_at e k = Some \<lparr>State = state_text st, LastTS = Timestamp (last (history k (appends es)))\<rparr>)
         else sample_at e k = None"
    unfolding if_P [OF known] by blast
  from spec [OF all, of "job_key ?job"] obtain st where st: "Classify [zero_result] 1 1 = Inr st"
    "sample_at e (job_key ?job) = Some \<lparr>State = state_text st, LastTS = Timestamp zero_result\<rparr>"
    by (auto simp: w(1,2) app)
  have "Classify [zero_result] 1 1 = Inr Down"
    by (simp add: Classify_def slice_from_def zero_result_def)
  with st have "sample_at e (job_key ?job) = Some \<lparr>State = state_text Down, LastTS = zero_time\<rparr>"
    by (simp add: zero_result_def)
  moreover have "Observers mv ''b'' = Some e" using e(1) by (simp add: sample_peer_def)
  ultimately show ?thesis using mv e(2) by blast
qed

end
