(* ===== verification/Spec2Isabelle.thy ===== *)
theory Spec2Isabelle
  imports Mesh_Prelude Go_Time Go_Binary Go_Base64 Go_Hmac Go_Text Go_Net Go_Http Go_Flag Go_Utf8 Go_Json Go_Json_Laws
    Go_Rfc3339 Probe_Types
    Classifier Store Scheduler Tcp_Prober Http_Prober Icmp_Prober Aggregator Udp_Payload Udp_Prober
    Udp_Echo Config Config_File Config_Json Config_Codec Session Login Probe_Server Ui_Server Inter_Host Cli_Config Serve
    Serve_Run Pki Cli_Main View_Json Event_Stream Mesh_Exchange
begin

text \<open>
  A model of \<open>mesh-checker\<close>, the daemon that probes the reachability of the nodes of a mesh over
  ICMP, TCP, UDP and HTTPS, and of its command line. All paths below are under \<open>src/\<close>; Go
  package \<open>x\<close> means \<open>internal/pkg/x\<close>.

  \<^bold>\<open>The program.\<close> \<open>mesh-checker serve\<close> (\<open>cli/serve.go\<close>) reads a JSON configuration, builds
  one job per peer and check, and starts a scheduler: a ticker per job sends it into a channel, a pool
  of workers probes and appends the results to a store of ring buffers. On demand the aggregator
  classifies the newest results of each ring (its local view) and merges it with the views it fetches
  from the other nodes. Three HTTP servers and a UDP server offer the view to other nodes (mutual
  TLS), the mesh view to logged-in users (server-sent events) and the counterparts of the HTTPS and
  UDP probes. The other subcommands edit the configuration, create certificates and show a table.

  \<^bold>\<open>Theories, bottom up.\<close>
  \<^item> \<open>Mesh_Prelude\<close>: bytes, panics as values, slices with their bounds checks, the trailing window
    of a list, the collections \<open>ok_iff\<close> (when a fallible operation succeeds) and \<open>inv_intros\<close>.
  \<^item> The library of the language, as far as the program uses it: \<open>Go_Time\<close>, \<open>Go_Binary\<close>,
    \<open>Go_Base64\<close>, \<open>Go_Hmac\<close> (SHA-256 and HMAC), \<open>Go_Text\<close> (\<open>strconv\<close>, \<open>strings\<close>),
    \<open>Go_Net\<close>, \<open>Go_Http\<close> (requests, response writer, mux), \<open>Go_Flag\<close>, \<open>Go_Utf8\<close>, \<open>Go_Json\<close> (printing,
    scanner and parser of JSON text; its laws in \<open>Go_Json_Laws\<close>), \<open>Go_Rfc3339\<close> (times as text). These
    are executable.
  \<^item> \<open>Probe_Types\<close> (\<open>probe/probe.go\<close>) with the locale \<open>prober\<close>, the contract of the
    \<open>Prober\<close> interface; \<open>Tcp_Prober\<close>, \<open>Http_Prober\<close>, \<open>Udp_Prober\<close>, \<open>Icmp_Prober\<close>
    (\<open>probe/tcp\<close>, \<open>http\<close>, \<open>udp\<close>, \<open>icmp\<close>) interpret it. The ICMP prober, shared by all
    probes, is an interleaving of the atomic steps of its read loop and of the probes.
  \<^item> \<open>Classifier\<close> (\<open>classifier\<close>), \<open>Store\<close> (\<open>store\<close>: the ring and the store refine "the last
    n results of each key", locale and two interpretations), \<open>Aggregator\<close> (\<open>aggregator\<close>).
  \<^item> \<open>Scheduler\<close> (\<open>scheduler\<close>, \<open>recoverwrap\<close>): tickers, channel, workers and the closing
    of the channel as atomic steps; \<open>sched_run sc es s\<close> says that the trace \<open>es\<close> leads to \<open>s\<close>.
  \<^item> \<open>Udp_Payload\<close> (\<open>probe/udp/payload.go\<close>: wire format, replay cache) and \<open>Udp_Echo\<close>
    (\<open>server/probe/udp_echo.go\<close>); \<open>Probe_Server\<close> (\<open>server/probe/server.go\<close>, \<open>version\<close>).
  \<^item> \<open>Session\<close>, \<open>Login\<close>, \<open>Ui_Server\<close> (\<open>server/ui\<close>: tokens with the locale
    \<open>token_authority\<close>, login, routes, event stream) and \<open>Inter_Host\<close> (\<open>server/interhost\<close>:
    peer API and its client).
  \<^item> \<open>View_Json\<close> (the JSON text of views, in both directions), \<open>Event_Stream\<close> (what a browser makes of
    the event stream) and \<open>Mesh_Exchange\<close> (views between daemons).
  \<^item> \<open>Config\<close> and \<open>Config_File\<close> (\<open>config\<close>: schema, validation, file mode, load and atomic save
    on a map of paths to contents and permissions, for any text codec); \<open>Config_Json\<close> (the struct tags:
    the text \<open>json.MarshalIndent\<close> prints and the strict decoder) and \<open>Config_Codec\<close> (that this codec is
    lossless).
  \<^item> \<open>Cli_Config\<close> (\<open>cli/configio.go\<close>, \<open>host.go\<close>, \<open>user.go\<close>, \<open>config_cmd.go\<close>; locale
    \<open>config_edit\<close>, the contract of an edit), \<open>Pki\<close> (\<open>pki/pki.go\<close>, \<open>cli/pki.go\<close>),
    \<open>Serve\<close> and \<open>Serve_Run\<close> (\<open>cli/serve.go\<close>: the wiring, and the running phase as
    steps), \<open>Cli_Main\<close> (\<open>cli/cli.go\<close>, \<open>status.go\<close>, \<open>cmd/mesh-checker/main.go\<close>).
  \<^item> This theory: the properties that span two nodes or several components.

  \<^bold>\<open>Correspondence.\<close> A Go struct is a record with the source's fields, an error return a sum or
  option with a constructor per error, a run-time panic the value \<open>Inl\<close> of a \<open>panic\<close>. Strings are
  byte strings. A mutex-protected operation is one atomic step; goroutines are step functions on a
  state, and every statement about them is for all interleavings. Clock readings, random bytes, the
  outcomes of system calls and sockets, and the iteration order of maps are arguments.

  \<^bold>\<open>What the lemmas show.\<close> Per component: functional behaviour on every branch (\<open>..._iff\<close>),
  invariants kept by each step, round trips of the codecs, refinement of the abstract logs. Across
  components: \<open>serve_view\<close> (from a started daemon through every interleaving of its scheduler to
  its view), \<open>udp_exchange\<close> (the UDP check between two started daemons), \<open>mesh_view_end_to_end\<close>
  (what one daemon's mesh view shows of another's measurements), \<open>status_shows_peer\<close> (the status command
  against a running daemon), \<open>ui_login_flow\<close> and \<open>ui_stream_events\<close> (a browser's session and the
  events it receives).

  \<^bold>\<open>Bounds.\<close> No recursion uses fuel. The integers of the configuration are unbounded here, where
  the program has \<open>int\<close>; durations are integers, and the wrap-around of \<open>int64\<close> is written out
  where it matters (delays, UDP time stamps).

  \<^bold>\<open>Parameters and what is not modelled.\<close> Third-party code is a parameter: bcrypt
  (\<open>golang.org/x/crypto\<close>), ICMP messages (\<open>golang.org/x/net/icmp\<close>), the terminal. So are, of the
  standard library, X.509, PEM, TLS handshakes, HTTP transport and sockets. Log
  lines, the text of error messages, \<open>text/tabwriter\<close>'s layout, and the browser's JavaScript under
  \<open>server/ui/static\<close> are not modelled. Theorems that rest on a parameter state the law they use
  as a hypothesis (a transport that delivers what the handler answered, say). A time is an instant: the zone in
  which it is printed is an argument, and \<open>time.Parse\<close> on texts that are not RFC 3339 a parameter.
  The mux routes on the decoded path alone (no host patterns, \<open>CONNECT\<close> or escaped paths). The state of
  \<open>Serve_Run\<close> is the four listeners, their channel and the main goroutine, not the scheduler's or the
  requests'. An ICMP probe's send succeeds or fails as the environment says, whatever
  \<open>buildEcho\<close> made. \<open>serve_view\<close> is of a store at rest; \<open>localView_during_appends\<close> is the view
  taken while results keep coming in.

  \<^bold>\<open>Where the code and its documents differ\<close>, the theorems state what the code does and their texts say
  so: the time window of the echo server (\<open>udp_exchange\<close>), the entry of a peer that cannot be reached
  (\<open>Aggregate_entries\<close>), the omitted URL of an HTTPS check (\<open>serve_jobs\<close>), a listener that cannot
  bind (\<open>serve_listener_failure_silent\<close>), the table of the status command (\<open>status_shows_peer\<close>).
\<close>

section \<open>The daemon and its UDP check\<close>

lemma mustProbers_Udp:
  "mustProbers io pool sec cfg ch = Some (UdpImpl p) \<Longrightarrow>
     p = New_udp sec (HI_Name (C_Host cfg)) (seconds (TimeoutSeconds (C_Probe cfg)))"
  by (auto simp: mustProbers_def Let_def split: sum.splits if_splits)

text \<open>The UDP prober of a job of a started daemon.\<close>

lemma daemon_udp_prober:
  assumes "runServe env args fl = Inr d" "j \<in> set (sch_jobs (d_sched d))" "J_Prober j = UdpImpl p"
  shows "std_decode (UDPSharedSecret (C_Probe (d_cfg d))) = Some (prober_Secret p)"
    and "prober_HostName p = HI_Name (C_Host (d_cfg d))" and "HI_Name (C_Host (d_cfg d)) \<noteq> []"
proof -
  from runServe_InrD [OF assms(1)] obtain caPool cert where
    w: "serve_wire env (d_cfg d) caPool cert = Inr d" and v: "Validate (d_cfg d) = None" by blast
  from serve_wire_InrD [OF w] obtain sec where
    sec: "std_decode (UDPSharedSecret (C_Probe (d_cfg d))) = Some sec"
    and jobs: "sch_jobs (d_sched d) = buildJobs (d_cfg d) (mustProbers (se_icmp_open env) caPool sec (d_cfg d))"
    by auto
  from assms(2,3) jobs obtain ch where "mustProbers (se_icmp_open env) caPool sec (d_cfg d) ch = Some (UdpImpl p)"
    by (auto simp: set_buildJobs peer_job_def)
  from mustProbers_Udp [OF this] sec show
    "std_decode (UDPSharedSecret (C_Probe (d_cfg d))) = Some (prober_Secret p)"
    "prober_HostName p = HI_Name (C_Host (d_cfg d))" by (simp_all add: New_udp_def)
  from v show "HI_Name (C_Host (d_cfg d)) \<noteq> []" by (simp add: Validate_None_iff)
qed

text \<open>The echo server of a started daemon.\<close>

lemma daemon_echo:
  assumes "runServe env args fl = Inr d"
  shows "std_decode (UDPSharedSecret (C_Probe (d_cfg d))) = Some (echo_secret (d_echo d))"
    and "allowed (d_echo d) = allowed_addrs (d_cfg d)" and "tsWindow (d_echo d) = 30 * second"
proof -
  from runServe_InrD [OF assms] obtain caPool cert where
    "serve_wire env (d_cfg d) caPool cert = Inr d" by blast
  from serve_wire_InrD [OF this] show
    "std_decode (UDPSharedSecret (C_Probe (d_cfg d))) = Some (echo_secret (d_echo d))"
    "allowed (d_echo d) = allowed_addrs (d_cfg d)" "tsWindow (d_echo d) = 30 * second"
    by (auto dest: NewUDPEcho_fields)
qed

text \<open>What a prober makes of the answer of a server with the same secret.\<close>

lemma probe_meets_handler:
  assumes "echo_secret s = prober_Secret p" "tsWindow s = 30 * second"
    and "split_host_port src = Inr (host, port)"
    and "prober_HostName p \<noteq> []" "length (prober_HostName p) \<le> 1992"
    and "NewNonce random = Inr n" "is_nonce n" "\<not> fst (SeenOrAdd n now (replay s))"
    and "is_int64 start" "is_int64 now"
    and "dial net (join_host_port (tgt_Addr tgt) (itoa (tgt_UDPPort tgt))) = Inr ()"
    and "\<And>req. net_write net req = Inr ()"
    and "\<And>req. EncodeRequest (prober_Secret p) n start (prober_HostName p) = Inr req \<Longrightarrow>
      net_read net = (case fst (handle (take 2048 req) src now s) of None \<Rightarrow> Inl e | Some resp \<Rightarrow> Inr resp)"
  shows "OK (Probe_udp p tgt start random net after) \<longleftrightarrow>
    allowed s host = Some True \<and> \<bar>now - start\<bar> \<le> 30 * second"
proof -
  obtain req where req: "EncodeRequest (prober_Secret p) n start (prober_HostName p) = Inr req"
    using assms(4) by (simp add: EncodeRequest_def Let_def)
  have len: "length req \<le> 2048"
    using EncodeRequest_length [OF req assms(7)] assms(5) by (simp add: len_defs)
  have dec: "DecodeRequest (echo_secret s) req =
      Inr \<lparr>Nonce = n, ReqTime = start, HostName = prober_HostName p\<rparr>"
    by (simp add: DecodeRequest_iff assms(1,4,7,9) req)
  obtain resp where resp: "EncodeResponse (echo_secret s) n now = Inr resp"
    by (simp add: EncodeResponse_def Let_def)
  have resp_len: "length resp \<le> 1024" using EncodeResponse_length [OF resp assms(7)] by (simp add: len_defs)
  have resp_dec: "DecodeResponse (prober_Secret p) resp = Inr (n, now)"
    using resp by (simp add: DecodeResponse_iff assms(1,7,10))
  have ans: "fst (handle req src now s) = Some r \<longleftrightarrow>
      allowed s host = Some True \<and> \<bar>now - start\<bar> \<le> 30 * second \<and> r = resp" for r
    by (simp add: handle_answers_iff [OF assms(2)] assms(3,8) dec resp) auto
  have read: "net_read net = (case fst (handle req src now s) of None \<Rightarrow> Inl e | Some r \<Rightarrow> Inr r)"
    using assms(13) [OF req] len by simp
  show ?thesis
  proof (cases "allowed s host = Some True \<and> \<bar>now - start\<bar> \<le> 30 * second")
    case True
    with ans [of resp] read have "net_read net = Inr resp" by simp
    with True show ?thesis
      by (simp add: Probe_udp_def assms(6,11,12) Let_def req resp_dec resp_len)
  next
    case False
    with ans have "fst (handle req src now s) \<noteq> Some r" for r by blast
    then have "fst (handle req src now s) = None" by (metis not_None_eq)
    with read have "net_read net = Inl e" by simp
    then have "\<not> OK (Probe_udp p tgt start random net after)"
      by (simp add: Probe_udp_def assms(6,11,12) Let_def req)
    with False show ?thesis by blast
  qed
qed

section \<open>Properties\<close>

text \<open>
  C9. The UDP check between two nodes, end to end: let node A and node B have started from
  configurations with the same UDP secret, let a UDP job of A probe B with a fresh nonce, and let B's
  echo server handle the datagram at its own time with whatever it answered before. Then the probe
  succeeds exactly when the source address B sees is, letter for letter, the address of one of B's
  peers and the two clocks differ by at most 30 seconds (30 included, where the design document,
  section 9.3, has "less than 30").
\<close>

theorem udp_exchange:
  assumes "runServe envA argsA flA = Inr dA" and "runServe envB argsB flB = Inr dB"
    and "UDPSharedSecret (C_Probe (d_cfg dA)) = UDPSharedSecret (C_Probe (d_cfg dB))"
    and "j \<in> set (sch_jobs (d_sched dA))" and "J_Prober j = UdpImpl p"
    and "length (HI_Name (C_Host (d_cfg dA))) \<le> 1992"
    and "s = (d_echo dB)\<lparr>replay := c\<rparr>" and "split_host_port src = Inr (host, port)"
    and "NewNonce random = Inr n" and "is_nonce n" and "\<not> fst (SeenOrAdd n now c)"
    and "is_int64 start" and "is_int64 now"
    and "dial net (join_host_port (tgt_Addr (J_Target j)) (itoa (tgt_UDPPort (J_Target j)))) = Inr ()"
    and "\<And>req. net_write net req = Inr ()"
    and "\<And>req. EncodeRequest (prober_Secret p) n start (prober_HostName p) = Inr req \<Longrightarrow>
      net_read net = (case fst (handle (take 2048 req) src now s) of None \<Rightarrow> Inl e | Some resp \<Rightarrow> Inr resp)"
  shows "OK (Probe_udp p (J_Target j) start random net after) \<longleftrightarrow>
    host \<in> P_Addr ` set (C_Peers (d_cfg dB)) \<and> \<bar>now - start\<bar> \<le> 30 * second"
proof -
  note A = daemon_udp_prober [OF assms(1,4,5)] and B = daemon_echo [OF assms(2)]
  have "echo_secret s = prober_Secret p" "tsWindow s = 30 * second" "replay s = c"
    "allowed s = allowed_addrs (d_cfg dB)"
    using A(1) B assms(3,7) by auto
  with probe_meets_handler [of s p src host port random n now start net "J_Target j" e after] A assms
  show ?thesis by (simp add: allowed_addrs_iff)
qed

theorem udp_exchange_witness:
  "\<exists>p net. J_Prober (sample_job ''udp'') = UdpImpl p \<and>
     OK (Probe_udp p (J_Target (sample_job ''udp'')) 0 (Inr (replicate 16 7)) net 5)"
proof -
  obtain d where d: "runServe (sample_env (sample_cfg ''udp'' 1)) [] sample_fs = Inr d"
    "d_cfg d = sample_cfg ''udp'' 1"
    "d_sched d = New_sched (sched_config_of (sample_cfg ''udp'' 1) 1) [sample_job ''udp''] (New_store 100)"
    using sample_starts [of "''udp''"] by blast
  define p where "p = New_udp (the (std_decode skeleton_secret)) ''a'' (seconds 3)"
  define s where "s = (d_echo d)\<lparr>replay := NewReplayCache (60 * second)\<rparr>"
  obtain req where req: "EncodeRequest (prober_Secret p) (replicate 16 7) 0 (prober_HostName p) = Inr req"
    by (simp add: p_def New_udp_def EncodeRequest_def Let_def)
  let ?net = "\<lparr>dial = (\<lambda>_. Inr ()), net_write = (\<lambda>_. Inr ()),
    net_read = (case fst (handle (take 2048 req) ''10.0.0.2:5000'' 0 s) of None \<Rightarrow> Inl ''timeout'' | Some r \<Rightarrow> Inr r)\<rparr>"
  have job: "sample_job ''udp'' \<in> set (sch_jobs (d_sched d))" "J_Prober (sample_job ''udp'') = UdpImpl p"
    by (simp_all add: d(3) sample_job_def peer_job_def p_def protocol_defs)
  have cfg: "length (HI_Name (C_Host (d_cfg d))) \<le> 1992" "C_Peers (d_cfg d) = [sample_peer ''udp'']"
    by (simp_all add: d(2) sample_cfg_def newConfigSkeleton_def)
  have n: "NewNonce (Inr (replicate 16 7)) = Inr (replicate 16 7)" "is_nonce (replicate 16 7)"
    by (simp_all add: NewNonce_def copy_def nonceLen_def is_nonce_def)
  have fresh: "\<not> fst (SeenOrAdd (replicate 16 7) 0 (NewReplayCache (60 * second)))"
    by (simp add: SeenOrAdd_fst NewReplayCache_def)
  have zero: "is_int64 0" by (simp add: is_int64_def min_int64_def max_int64_def)
  from udp_exchange [OF d(1) d(1) refl job cfg(1) s_def ex_addr n fresh zero zero, of ?net "''timeout''" 5] req
  have "OK (Probe_udp p (J_Target (sample_job ''udp'')) 0 (Inr (replicate 16 7)) ?net 5)"
    by (simp add: cfg(2) sample_peer_def second_def)
  with job(2) show ?thesis by blast
qed

text \<open>
  A user name that \<open>user add\<close> accepts but no login can use: with a colon or a bar in the name,
  a login with the right password is answered 500 and sets no cookie.
\<close>

theorem user_name_locked_out:
  assumes "add_user name hash c = Inr (c', line)" and "set name \<inter> {CHR '':'', CHR ''|''} \<noteq> {}"
    and "bcrypt hash password" and "Method r = ''POST''" and "Form r \<noteq> None"
    and "form_value r ''name'' = name" and "form_value r ''password'' = password"
  shows "Status (login_ServeHTTP bcrypt (NewLoginHandler (Users (C_UI c')) s fd) now r new_response) = Some 500 \<and>
    SetCookies (login_ServeHTTP bcrypt (NewLoginHandler (Users (C_UI c')) s fd) now r new_response) = []"
proof -
  have "authenticate bcrypt (Users (C_UI c')) name password"
    using assms(1,3) by (auto simp: authenticate_iff add_user_def split: if_splits)
  moreover have "\<exists>e. Issue s name now = Inl e"
    using assms(2) Issue_ok_iff [of s name now] by (cases "Issue s name now") auto
  ultimately show ?thesis
    using assms(4-7)
    by (auto simp: login_ServeHTTP_def NewLoginHandler_def Let_def http_error_def new_response_def)
qed


section \<open>The status table\<close>

lemma daemon_view_peers:
  assumes "runServe env args fl = Inr d" and "sched_run (d_sched d) es s"
    and "map_order (bufs (st_store s)) order" and "localView (d_agg d) order (st_store s) = Inr v"
  shows "Host v = HI_Name (C_Host (d_cfg d))" and "samples_count v = card (Peer ` fst ` set (appends es))"
proof -
  show "Host v = HI_Name (C_Host (d_cfg d))"
    using localView_Host [OF assms(4)] daemon_store(2) [OF assms(1,2)] by simp
  have "dom (bufs (st_store s)) = fst ` set (appends es)"
    using New_run(2) [OF daemon_store(1) [OF assms(1,2)]] by (intro set_eqI) (metis domIff)
  with localView_dom [OF assms(4,3)] show "samples_count v = card (Peer ` fst ` set (appends es))"
    by (auto simp: samples_count_def)
qed

text \<open>
  C10. \<open>mesh-checker status\<close> against a running daemon, end to end: let the command run on a
  node with a valid configuration, let \<open>p\<close> be one of its peers and let a daemon, at any
  moment of any run of its scheduler, serve the address the command uses for \<open>p\<close> (the
  peer's address with the node's own inter-host port), its view as JSON text, over a connection whose
  verified client certificate names \<open>cn\<close>. If \<open>cn\<close> is the daemon's own name or
  one of its configured peers, the table has a row with the daemon's host name, reachable, and the
  number of peers for which a probe has finished there; otherwise the table shows \<open>p\<close> as
  not reachable.
\<close>

theorem status_shows_peer:
  assumes "status_table env args fl = Inr rows"
    and "parse_flags (addConfigFlag Map.empty) args = Inr (vs, rest)"
    and "Load (st_sys env) (config_path vs) fl = Inr cfg" and "Validate cfg = None"
    and "split_host_port (LA_Addr (L_InterHost (C_Listeners cfg))) = Inr (h, ihPort)"
    and "set (st_order env (peer_urls cfg ihPort)) = dom (peer_urls cfg ihPort)"
    and "p \<in> set (C_Peers cfg)" and "\<And>url. st_new_request env url = None"
    and "st_decode env = view_decoder lenient"
    and "runServe envB argsB flB = Inr dB" and "se_sys envB = json_sys ns sy" and "sched_run (d_sched dB) es s"
    and "map_order (bufs (st_store s)) order"
    and "0 \<le> FailureWindow (C_Probe (d_cfg dB))"
    and "FailureWindow (C_Probe (d_cfg dB)) \<le> max 1 (RingbufferSize (C_Probe (d_cfg dB)))"
    and "localView (d_agg dB) order (st_store s) = Inr v" and "results_ok (vr_zone rp) (appends es)"
    and "\<And>tls. st_do_get env tls (P_Name p)
           ((''https://'' @ join_host_port (P_Addr p) ihPort) @ ''/api/peer/status'') =
         (let w = daemon_interhost redirect (encode_view rp) quote ver dB (Inr v) now r new_response
          in if Aborted w \<noteq> None then Inl ''EOF''
             else Inr (case Status w of None \<Rightarrow> 200 | Some st \<Rightarrow> st, Body w))"
    and "URLPath r = ''/api/peer/status''" and "leaf_cn r = Some cn"
  shows "if cn = HI_Name (C_Host (d_cfg dB)) \<or> cn \<in> P_Name ` set (C_Peers (d_cfg dB))
    then RowYes (HI_Name (C_Host (d_cfg dB))) (card (Peer ` fst ` set (appends es))) \<in> set rows
    else (\<exists>e. RowNo (P_Name p) e \<in> set rows)"
proof -
  let ?fetch = "\<lambda>tls. Fetch (st_new_request env) (st_do_get env tls (P_Name p)) (view_decoder lenient)
    (NewClient (peer_urls cfg ihPort)) (P_Name p)"
  obtain tls where rows: "rows = status_rows (\<lambda>n. Fetch (st_new_request env) (st_do_get env tls n) (st_decode env)
      (NewClient (peer_urls cfg ihPort)) n) (st_order env (peer_urls cfg ihPort))"
    using status_table_InrD [OF assms(1)] assms(2,3,5) by auto
  have "P_Name p \<in> set (st_order env (peer_urls cfg ihPort))"
    using assms(6,7) by (simp add: dom_peer_urls)
  then have row: "(case ?fetch tls of Inl e \<Rightarrow> RowNo (P_Name p) e | Inr v \<Rightarrow> RowYes (Host v) (samples_count v)) \<in> set rows"
    by (auto simp: rows status_rows_eq assms(9))
  from assms(4) have "distinct (map P_Name (C_Peers cfg))" by (simp add: Validate_None_iff)
  then have url: "urls (NewClient (peer_urls cfg ihPort)) (P_Name p) = Some (''https://'' @ join_host_port (P_Addr p) ihPort)"
    using peer_urls_peer assms(7) by (simp add: NewClient_def)
  have ok: "view_ok (vr_zone rp) v" by (rule daemon_view_ok [OF assms(10-17)])
  have "if cn = HI_Name (C_Host (d_cfg dB)) \<or> cn \<in> P_Name ` set (C_Peers (d_cfg dB))
    then ?fetch tls = Inr v else (\<exists>e. ?fetch tls = Inl e)"
    by (rule daemon_exchange [where do_get = "st_do_get env tls (P_Name p)" and new_request = "st_new_request env" and rp = rp
        and r = r and now = now and redirect = redirect and quote = quote and ver = ver and v = v,
        OF assms(10) ok url assms(8,18-20)])
  with row daemon_view_peers [OF assms(10,12,13,16)] show ?thesis by (auto split: sum.splits if_splits)
qed

definition sample_status_env :: "config \<Rightarrow> string + (int \<times> string) \<Rightarrow> (unit, unit) status_env" where
  "sample_status_env cfg answer =
     \<lparr>st_sys = sample_sys\<lparr>decode := (\<lambda>_. Inr cfg)\<rparr>, st_read_ca = (\<lambda>_. Inr ''pem''), st_ca_pool = (\<lambda>_. ()),
      st_key_pair = (\<lambda>_ _. Inr ()), st_order = (\<lambda>_. [''a'', ''b'']), st_new_request = (\<lambda>_. None),
      st_do_get = (\<lambda>_ _ _. answer), st_decode = view_decoder (\<lambda>_. None)\<rparr>"

theorem status_shows_peer_witness:
  "\<exists>(env :: (unit, unit) status_env) rows.
     status_table env [] sample_fs = Inr rows \<and> RowYes ''a'' 1 \<in> set rows"
proof -
  let ?cfg = "sample_cfg ''tcp'' 1" and ?job = "sample_job ''tcp''"
  let ?rp = "\<lparr>vr_zone = (\<lambda>_. 0), vr_nil = (\<lambda>_. False)\<rparr>"
  let ?envB = "(sample_env ?cfg)\<lparr>se_sys := json_sys ex_nil sample_sys\<rparr>"
  obtain d where d: "runServe ?envB [] (ex_file ?cfg) = Inr d" "d_cfg d = ?cfg"
    "d_sched d = New_sched (sched_config_of ?cfg 1) [?job] (New_store 100)"
    using ex_daemon by blast
  from sample_one_result [OF d(3)] obtain es s where s: "sched_run (d_sched d) es s"
    and app: "appends es = [(job_key ?job, zero_result)]"
    and order: "map_order (bufs (st_store s)) [job_key ?job]" by blast
  have win: "0 \<le> FailureWindow (C_Probe (d_cfg d))"
    "FailureWindow (C_Probe (d_cfg d)) \<le> max 1 (RingbufferSize (C_Probe (d_cfg d)))"
    by (simp_all add: d(2) sample_cfg_def)
  from daemon_view [OF d(1) s order win] obtain v where v: "localView (d_agg d) [job_key ?job] (st_store s) = Inr v" by blast
  have res: "results_ok (vr_zone ?rp) (appends es)"
    by (simp add: app results_ok_def time_ok_def printable_zero_time zero_result_def)
  have sys: "se_sys ?envB = json_sys ex_nil sample_sys" by (simp add: sample_env_def)
  define r where "r = stranger_request\<lparr>TLSChains := Some [[''b'', ''ca'']]\<rparr>"
  define answer where "answer = (let w = daemon_interhost (\<lambda>_ w. w) (encode_view ?rp) id ''dev'' d (Inr v) 0 r new_response
    in if Aborted w \<noteq> None then Inl ''EOF''
       else Inr (case Status w of None \<Rightarrow> 200 | Some st \<Rightarrow> st, Body w))"
  let ?env = "sample_status_env ?cfg answer"
  have cfg: "LA_Addr (L_InterHost (C_Listeners ?cfg)) = ''127.0.0.1:'' @ itoa 1"
    "HI_Name (C_Host ?cfg) = ''a''" "C_Peers ?cfg = [sample_peer ''tcp'']"
    by (simp_all add: sample_cfg_def newConfigSkeleton_def)
  have addr: "split_host_port (LA_Addr (L_InterHost (C_Listeners ?cfg))) = Inr (''127.0.0.1'', itoa 1)"
    using split_join_host_port [of "''127.0.0.1''" "itoa 1"] itoa_no_punctuation [of 1]
    by (simp add: cfg(1) join_host_port_def)
  have load: "Load (st_sys ?env) (config_path []) sample_fs = Inr ?cfg"
    by (simp add: Load_ok_iff sample_status_env_def sample_sys_def sample_fs_def config_path_def flag_value_def)
  have flags: "parse_flags (addConfigFlag Map.empty) [] = Inr ([], [])" by simp
  obtain rows where rows: "status_table ?env [] sample_fs = Inr rows"
    using load addr by (simp add: status_table_def Let_def) (simp add: sample_status_env_def Let_def)
  have ord: "set (st_order ?env (peer_urls ?cfg (itoa 1))) = dom (peer_urls ?cfg (itoa 1))"
    by (simp add: dom_peer_urls cfg sample_status_env_def sample_peer_def)
  have peer: "sample_peer ''tcp'' \<in> set (C_Peers ?cfg)" by (simp add: cfg)
  have dec: "st_decode ?env = view_decoder (\<lambda>_. None)" by (simp add: sample_status_env_def)
  have r: "URLPath r = ''/api/peer/status''" "leaf_cn r = Some ''b''"
    by (simp_all add: r_def leaf_cn_def stranger_request_def)
  have "if ''b'' = HI_Name (C_Host (d_cfg d)) \<or> ''b'' \<in> P_Name ` set (C_Peers (d_cfg d))
    then RowYes (HI_Name (C_Host (d_cfg d))) (card (Peer ` fst ` set (appends es))) \<in> set rows
    else (\<exists>e. RowNo (P_Name (sample_peer ''tcp'')) e \<in> set rows)"
    by (rule status_shows_peer [where redirect = "\<lambda>_ w. w" and quote = id and ver = "''dev''" and now = 0 and r = r and rp = ?rp,
        OF rows flags load sample_cfg_valid addr ord peer _ dec d(1) sys s order win v res _ r])
      (simp_all only: sample_status_env_def status_env.simps answer_def)
  then have "RowYes ''a'' 1 \<in> set rows" by (simp add: d(2) cfg(2,3) app sample_peer_def)
  with rows show ?thesis by blast
qed

end
